(* ===== verification/Prelude.thy ===== *)
theory Prelude
  imports Main "HOL-Library.Word" "HOL-Library.Sublist"
begin

text \<open>
  Shared vocabulary of the development: the machine integers of Go, byte strings, the result of a Go
  call that may panic, the proof-rule collections, and the generic list lemmas that several
  components use.
\<close>

unbundle bit_operations_syntax

section \<open>Types\<close>

type_synonym u8 = "8 word"
type_synonym u16 = "16 word"
type_synonym u32 = "32 word"
type_synonym u64 = "64 word"

text \<open>A Go byte slice. A Go \<^verbatim>\<open>string\<close> is a \<^typ>\<open>string\<close>: characters are bytes.\<close>

type_synonym bytes = "u8 list"

definition bytes_of_string :: "string \<Rightarrow> bytes" where
  "bytes_of_string s = map of_char s"

section \<open>Collections of rules\<close>

text \<open>
  \<open>step_intros\<close> holds the introduction rules of the step relations, \<open>inv_rules\<close> the preservation lemmas of the
  invariants.
\<close>

named_theorems step_intros
named_theorems inv_rules

section \<open>Calls that may panic\<close>

text \<open>
  A Go call returns or panics (index out of range, nil dereference, failed type assertion,
  \<^verbatim>\<open>rand.Intn(0)\<close>, an explicit \<^verbatim>\<open>panic\<close>).
\<close>

datatype 'a go = Ret 'a | Panic string

primrec go_bind :: "'a go \<Rightarrow> ('a \<Rightarrow> 'b go) \<Rightarrow> 'b go" where
  "go_bind (Ret x) f = f x"
| "go_bind (Panic e) f = Panic e"

lemma go_bind_cong [fundef_cong]: "x = y \<Longrightarrow> (\<And>z. y = Ret z \<Longrightarrow> f z = g z) \<Longrightarrow> go_bind x f = go_bind y g"
  by (cases y) simp_all

lemma go_bind_assoc: "go_bind (go_bind x f) g = go_bind x (\<lambda>z. go_bind (f z) g)"
  by (cases x) simp_all

definition no_panic :: "'a go \<Rightarrow> bool" where
  "no_panic m \<longleftrightarrow> (case m of Ret _ \<Rightarrow> True | Panic _ \<Rightarrow> False)"

lemma no_panic_simps [simp]: "no_panic (Ret x)" "\<not> no_panic (Panic e)"
  by (simp_all add: no_panic_def)

lemma no_panic_iff: "no_panic m \<longleftrightarrow> (\<exists>x. m = Ret x)"
  by (cases m) simp_all

lemma go_bind_eq_Ret: "go_bind m f = Ret y \<longleftrightarrow> (\<exists>x. m = Ret x \<and> f x = Ret y)"
  by (cases m) simp_all

lemma no_panic_bind: "no_panic m \<Longrightarrow> (\<And>x. m = Ret x \<Longrightarrow> no_panic (f x)) \<Longrightarrow> no_panic (go_bind m f)"
  by (cases m) simp_all

section \<open>Waiting for goroutines\<close>

text \<open>
  A loop that takes \<open>n\<close> results from a channel and returns the first error: the results that have arrived decide
  whether it has returned.
\<close>

datatype 'e wait = Waiting | Returned "'e option"

fun wait_results :: "nat \<Rightarrow> 'e option list \<Rightarrow> 'e wait" where
  "wait_results 0 results = Returned None"
| "wait_results (Suc n) [] = Waiting"
| "wait_results (Suc n) (err # results) = (if err \<noteq> None then Returned err else wait_results n results)"

lemma wait_results_eq:
  "wait_results n results =
     (case filter (\<lambda>e. e \<noteq> None) (take n results) of
        err # _ \<Rightarrow> Returned err
      | [] \<Rightarrow> if n \<le> length results then Returned None else Waiting)"
  by (induction n results rule: wait_results.induct) auto

section \<open>Lists\<close>

text \<open>Index of the last element that satisfies a predicate: the shape of a Go loop that counts down.\<close>

fun last_index :: "('a \<Rightarrow> bool) \<Rightarrow> 'a list \<Rightarrow> nat option" where
  "last_index P [] = None"
| "last_index P (x # xs) =
     (case last_index P xs of
        Some i \<Rightarrow> Some (Suc i)
      | None \<Rightarrow> if P x then Some 0 else None)"

lemma last_index_None: "last_index P xs = None \<longleftrightarrow> (\<forall>x\<in>set xs. \<not> P x)"
  by (induction xs) (auto split: option.splits)

lemma last_index_SomeD:
  "last_index P xs = Some i \<Longrightarrow>
     i < length xs \<and> P (xs ! i) \<and> (\<forall>j. i < j \<and> j < length xs \<longrightarrow> \<not> P (xs ! j))"
proof (induction xs arbitrary: i)
  case Nil
  then show ?case by simp
next
  case (Cons x xs)
  show ?case
  proof (cases "last_index P xs")
    case None
    with Cons.prems have "i = 0" "P x" by (auto split: if_splits)
    moreover from None have "\<forall>y\<in>set xs. \<not> P y" by (simp add: last_index_None)
    ultimately show ?thesis by (auto simp: nth_Cons split: nat.splits)
  next
    case (Some k)
    with Cons.prems have i: "i = Suc k" by simp
    from Cons.IH [OF Some] i show ?thesis by (auto simp: nth_Cons split: nat.splits)
  qed
qed

lemma set_filter_subset: "set (filter P xs) \<subseteq> set xs"
  by auto

lemma takeWhile_append_stop: "\<forall>x\<in>set xs. P x \<Longrightarrow> \<not> P y \<Longrightarrow> takeWhile P (xs @ y # ys) = xs"
  by (simp add: takeWhile_append2)

lemma dropWhile_append_stop: "\<forall>x\<in>set xs. P x \<Longrightarrow> \<not> P y \<Longrightarrow> dropWhile P (xs @ y # ys) = y # ys"
  by (simp add: dropWhile_append2)

section \<open>Maps from keys to booleans\<close>

text \<open>A Go \<^verbatim>\<open>map[string]bool\<close>: reading an absent key gives \<^verbatim>\<open>false\<close>.\<close>

type_synonym boolmap = "string \<rightharpoonup> bool"

definition lookup_bool :: "boolmap \<Rightarrow> string \<Rightarrow> bool" where
  "lookup_bool m k = (case m k of None \<Rightarrow> False | Some b \<Rightarrow> b)"

lemma lookup_bool_empty [simp]: "lookup_bool Map.empty k = False"
  by (simp add: lookup_bool_def)

lemma lookup_bool_upd [simp]: "lookup_bool (m(k \<mapsto> v)) k' = (if k' = k then v else lookup_bool m k')"
  by (simp add: lookup_bool_def)

section \<open>Interface: wire codecs\<close>

text \<open>
  An encoder that may refuse a value and a decoder that may refuse its input. On acceptable values
  decoding returns the normal form of what was encoded, and the encoding depends on the normal form
  only.
\<close>

locale wire_codec =
  fixes enc :: "'a \<Rightarrow> 'e + bytes"
    and dec :: "bytes \<Rightarrow> 'e + 'a"
    and ok :: "'a \<Rightarrow> bool"
    and norm :: "'a \<Rightarrow> 'a"
  assumes enc_total: "ok x \<Longrightarrow> \<exists>b. enc x = Inr b"
    and dec_enc: "ok x \<Longrightarrow> enc x = Inr b \<Longrightarrow> dec b = Inr (norm x)"
    and enc_norm: "ok x \<Longrightarrow> enc (norm x) = enc x"
begin

lemma round_trip: "ok x \<Longrightarrow> \<exists>b. enc x = Inr b \<and> dec b = Inr (norm x)"
  using enc_total dec_enc by blast

text \<open>Two values are the same on the wire exactly when their normal forms agree.\<close>

lemma enc_eq_iff: "ok x \<Longrightarrow> ok y \<Longrightarrow> enc x = enc y \<longleftrightarrow> norm x = norm y"
  by (metis dec_enc enc_norm enc_total sum.inject(2))

end

end
