(* ===== verification/GoStrings.thy ===== *)
theory GoStrings
  imports Prelude
begin

text \<open>
  The parts of Go's \<^verbatim>\<open>strings\<close> and \<^verbatim>\<open>strconv\<close> packages that the program calls: case mapping,
  trimming, splitting, searching, and decimal numbers. Case mapping and trimming are exact on
  ASCII strings; on strings with a byte above 127 Go consults Unicode tables, which are the three
  functions of the record \<open>golib\<close>. The quoting verb \<^verbatim>\<open>%q\<close> is its fourth field.
\<close>

record golib =
  uni_ToLower :: "string \<Rightarrow> string"
  uni_ToUpper :: "string \<Rightarrow> string"
  uni_TrimSpace :: "string \<Rightarrow> string"
  fmt_q :: "string \<Rightarrow> string"

text \<open>An instance of the library parameters, for evaluating the model on concrete inputs.\<close>

definition plain_golib :: golib where
  "plain_golib = \<lparr>uni_ToLower = (\<lambda>s. s), uni_ToUpper = (\<lambda>s. s), uni_TrimSpace = (\<lambda>s. s),
     fmt_q = (\<lambda>s. s)\<rparr>"

section \<open>Characters\<close>

definition is_ascii :: "char \<Rightarrow> bool" where
  "is_ascii c \<longleftrightarrow> (of_char c :: nat) < 128"

definition is_digit :: "char \<Rightarrow> bool" where
  "is_digit c \<longleftrightarrow> 48 \<le> (of_char c :: nat) \<and> (of_char c :: nat) \<le> 57"

definition digit_val :: "char \<Rightarrow> nat" where
  "digit_val c = of_char c - 48"

definition digit_char :: "nat \<Rightarrow> char" where
  "digit_char d = char_of (48 + d)"

definition lower_char :: "char \<Rightarrow> char" where
  "lower_char c =
     (let n = (of_char c :: nat) in if 65 \<le> n \<and> n \<le> 90 then char_of (n + 32) else c)"

definition upper_char :: "char \<Rightarrow> char" where
  "upper_char c =
     (let n = (of_char c :: nat) in if 97 \<le> n \<and> n \<le> 122 then char_of (n - 32) else c)"

text \<open>ASCII white space of \<^verbatim>\<open>unicode.IsSpace\<close>: tab, newline, vertical tab, form feed, return, space.\<close>

definition is_space :: "char \<Rightarrow> bool" where
  "is_space c \<longleftrightarrow> (let n = (of_char c :: nat) in n = 32 \<or> (9 \<le> n \<and> n \<le> 13))"

section \<open>strings\<close>

definition strings_ToLower :: "golib \<Rightarrow> string \<Rightarrow> string" where
  "strings_ToLower lib s = (if list_all is_ascii s then map lower_char s else uni_ToLower lib s)"

definition strings_ToUpper :: "golib \<Rightarrow> string \<Rightarrow> string" where
  "strings_ToUpper lib s = (if list_all is_ascii s then map upper_char s else uni_ToUpper lib s)"

definition trim_ascii :: "string \<Rightarrow> string" where
  "trim_ascii s = rev (dropWhile is_space (rev (dropWhile is_space s)))"

definition strings_TrimSpace :: "golib \<Rightarrow> string \<Rightarrow> string" where
  "strings_TrimSpace lib s = (if list_all is_ascii s then trim_ascii s else uni_TrimSpace lib s)"

fun strings_Split :: "char \<Rightarrow> string \<Rightarrow> string list" where
  "strings_Split c [] = [[]]"
| "strings_Split c (x # xs) =
     (if x = c then [] # strings_Split c xs
      else (case strings_Split c xs of [] \<Rightarrow> [[x]] | y # ys \<Rightarrow> (x # y) # ys))"

text \<open>\<^verbatim>\<open>strings.SplitN(s, c, n)\<close> for \<open>n > 0\<close>: at most \<open>n\<close> pieces, the last one unsplit.\<close>

fun strings_SplitN :: "char \<Rightarrow> nat \<Rightarrow> string \<Rightarrow> string list" where
  "strings_SplitN c 0 s = []"
| "strings_SplitN c (Suc 0) s = [s]"
| "strings_SplitN c (Suc (Suc n)) s =
     (if c \<in> set s
      then takeWhile (\<lambda>x. x \<noteq> c) s # strings_SplitN c (Suc n) (tl (dropWhile (\<lambda>x. x \<noteq> c) s))
      else [s])"

text \<open>\<^verbatim>\<open>strings.IndexByte\<close>: the first position, \<^verbatim>\<open>-1\<close> as \<^const>\<open>None\<close>.\<close>

fun strings_IndexByte :: "char \<Rightarrow> string \<Rightarrow> nat option" where
  "strings_IndexByte c [] = None"
| "strings_IndexByte c (x # xs) = (if x = c then Some 0 else map_option Suc (strings_IndexByte c xs))"

definition strings_HasPrefix :: "string \<Rightarrow> string \<Rightarrow> bool" where
  "strings_HasPrefix s p = prefix p s"

definition strings_Contains :: "string \<Rightarrow> string \<Rightarrow> bool" where
  "strings_Contains s sub = sublist sub s"

definition strings_ContainsAny :: "string \<Rightarrow> string \<Rightarrow> bool" where
  "strings_ContainsAny s chars = list_ex (\<lambda>c. c \<in> set chars) s"

section \<open>strconv\<close>

datatype conv_err = ErrSyntax | ErrRange

fun parse_uint_loop :: "nat \<Rightarrow> nat \<Rightarrow> string \<Rightarrow> nat \<times> conv_err option" where
  "parse_uint_loop maxVal n [] = (n, None)"
| "parse_uint_loop maxVal n (c # cs) =
     (if \<not> is_digit c then (0, Some ErrSyntax)
      else if n * 10 + digit_val c > maxVal then (maxVal, Some ErrRange)
      else parse_uint_loop maxVal (n * 10 + digit_val c) cs)"

text \<open>\<^verbatim>\<open>strconv.ParseUint(s, 10, bits)\<close>: the value is the largest one on overflow, 0 on bad syntax.\<close>

definition strconv_ParseUint :: "string \<Rightarrow> nat \<Rightarrow> nat \<times> conv_err option" where
  "strconv_ParseUint s bits =
     (if s = [] then (0, Some ErrSyntax) else parse_uint_loop (2 ^ bits - 1) 0 s)"

definition split_sign :: "string \<Rightarrow> bool \<times> string" where
  "split_sign s =
     (case s of [] \<Rightarrow> (False, [])
      | c # cs \<Rightarrow> if c = CHR ''-'' then (True, cs) else if c = CHR ''+'' then (False, cs) else (False, s))"

definition strconv_Atoi :: "string \<Rightarrow> int \<times> conv_err option" where
  "strconv_Atoi s =
     (let (neg, ds) = split_sign s; (n, err) = strconv_ParseUint ds 64 in
      if err = Some ErrSyntax then (0, Some ErrSyntax)
      else if \<not> neg \<and> n \<ge> 2 ^ 63 then (2 ^ 63 - 1, Some ErrRange)
      else if neg \<and> n > 2 ^ 63 then (- (2 ^ 63), Some ErrRange)
      else (if neg then - int n else int n, None))"

fun strconv_Itoa :: "nat \<Rightarrow> string" where
  "strconv_Itoa n =
     (if n < 10 then [digit_char n] else strconv_Itoa (n div 10) @ [digit_char (n mod 10)])"

declare strconv_Itoa.simps [simp del]

text \<open>\<^verbatim>\<open>%d\<close> and \<^verbatim>\<open>strconv.Itoa\<close> on a signed value.\<close>

definition itoa_int :: "int \<Rightarrow> string" where
  "itoa_int i = (if i < 0 then CHR ''-'' # strconv_Itoa (nat (- i)) else strconv_Itoa (nat i))"

section \<open>Lemmas\<close>

lemma of_char_lt_256: "(of_char c :: nat) < 256"
  by (cases c) (auto simp: of_char_def split: bool.splits)

lemma of_char_char_of_small: "n < 256 \<Longrightarrow> (of_char (char_of n) :: nat) = n"
  by simp

subsection \<open>Characters\<close>

lemma is_digit_digit_char [simp]: "d < 10 \<Longrightarrow> is_digit (digit_char d)"
  by (simp add: is_digit_def digit_char_def)

lemma digit_val_digit_char [simp]: "d < 10 \<Longrightarrow> digit_val (digit_char d) = d"
  by (simp add: digit_val_def digit_char_def)

lemma digit_val_lt_10: "is_digit c \<Longrightarrow> digit_val c < 10"
  by (auto simp: is_digit_def digit_val_def)

lemma lower_char_idem [simp]: "lower_char (lower_char c) = lower_char c"
  by (auto simp: lower_char_def Let_def of_char_lt_256)

lemma is_ascii_lower_char [simp]: "is_ascii (lower_char c) = is_ascii c"
  by (auto simp: lower_char_def is_ascii_def Let_def)

lemma lower_char_eq_dot [simp]: "lower_char c = CHR ''.'' \<longleftrightarrow> c = CHR ''.''"
proof -
  have "(of_char (lower_char c) :: nat) = of_char (CHR ''.'') \<longleftrightarrow> (of_char c :: nat) = of_char (CHR ''.'')"
    by (auto simp: lower_char_def Let_def of_char_lt_256)
  then show ?thesis by (simp only: of_char_eq_iff)
qed

subsection \<open>Decimal numbers\<close>

text \<open>The value of a string of digits, read after a prefix of value \<open>n\<close>.\<close>

definition dec_from :: "nat \<Rightarrow> string \<Rightarrow> nat" where
  "dec_from n s = foldl (\<lambda>a c. a * 10 + digit_val c) n s"

lemma dec_from_simps [simp]:
  "dec_from n [] = n"
  "dec_from n (c # cs) = dec_from (n * 10 + digit_val c) cs"
  "dec_from n (xs @ ys) = dec_from (dec_from n xs) ys"
  by (simp_all add: dec_from_def)

lemma dec_from_ge: "n \<le> dec_from n s"
proof (induction s arbitrary: n)
  case (Cons c cs)
  have "n \<le> n * 10 + digit_val c" by simp
  also have "\<dots> \<le> dec_from (n * 10 + digit_val c) cs" by (rule Cons.IH)
  finally show ?case by simp
qed simp

text \<open>On digits the loop computes the value, or saturates when it exceeds the width.\<close>

lemma parse_uint_loop_digits:
  "list_all is_digit s \<Longrightarrow> n \<le> maxVal \<Longrightarrow>
     parse_uint_loop maxVal n s =
       (if dec_from n s \<le> maxVal then (dec_from n s, None) else (maxVal, Some ErrRange))"
proof (induction s arbitrary: n)
  case (Cons c cs)
  show ?case
  proof (cases "n * 10 + digit_val c \<le> maxVal")
    case True
    with Cons show ?thesis by simp
  next
    case False
    with Cons.prems dec_from_ge [of "n * 10 + digit_val c" cs] show ?thesis by auto
  qed
qed simp

lemma parse_uint_loop_le: "n \<le> maxVal \<Longrightarrow> fst (parse_uint_loop maxVal n s) \<le> maxVal"
  by (induction s arbitrary: n) auto

lemma ParseUint_bound: "fst (strconv_ParseUint s bits) < 2 ^ bits"
proof -
  have "fst (strconv_ParseUint s bits) \<le> 2 ^ bits - 1"
    by (auto simp: strconv_ParseUint_def parse_uint_loop_le)
  also have "\<dots> < 2 ^ bits" by simp
  finally show ?thesis .
qed

lemma Itoa_digits: "list_all is_digit (strconv_Itoa n)"
  by (induction n rule: strconv_Itoa.induct) (subst strconv_Itoa.simps, auto)

lemma Itoa_not_Nil [simp]: "strconv_Itoa n \<noteq> []"
  by (subst strconv_Itoa.simps) simp

lemma dec_from_Itoa: "dec_from 0 (strconv_Itoa n) = n"
  by (induction n rule: strconv_Itoa.induct) (subst strconv_Itoa.simps, auto)

lemma ParseUint_Itoa: "n < 2 ^ bits \<Longrightarrow> strconv_ParseUint (strconv_Itoa n) bits = (n, None)"
  by (simp add: strconv_ParseUint_def parse_uint_loop_digits Itoa_digits dec_from_Itoa)

lemma split_sign_digits: "list_all is_digit s \<Longrightarrow> split_sign s = (False, s)"
  by (auto simp: split_sign_def is_digit_def split: list.splits)

lemma Atoi_digits:
  assumes "list_all is_digit s" and "s \<noteq> []"
  shows "strconv_Atoi s =
    (if dec_from 0 s < 2 ^ 63 then (int (dec_from 0 s), None) else (2 ^ 63 - 1, Some ErrRange))"
  using assms
  by (auto simp: strconv_Atoi_def split_sign_digits strconv_ParseUint_def parse_uint_loop_digits)

lemma Atoi_Itoa: "n < 2 ^ 63 \<Longrightarrow> strconv_Atoi (strconv_Itoa n) = (int n, None)"
  by (simp add: Atoi_digits Itoa_digits dec_from_Itoa)

subsection \<open>Splitting\<close>

lemma Split_not_Nil [simp]: "strings_Split c s \<noteq> []"
  by (induction s) (auto split: list.splits)

lemma Split_no_sep: "p \<in> set (strings_Split c s) \<Longrightarrow> c \<notin> set p"
  by (induction s arbitrary: p) (auto split: list.splits if_splits)

lemma Split_append_sep:
  "c \<notin> set a \<Longrightarrow> strings_Split c (a @ c # b) = a # strings_Split c b"
  by (induction a) auto

lemma Split_single: "c \<notin> set a \<Longrightarrow> strings_Split c a = [a]"
  by (induction a) auto

lemma IndexByte_Some:
  "strings_IndexByte c s = Some i \<Longrightarrow> i < length s \<and> s ! i = c \<and> c \<notin> set (take i s)"
  by (induction s arbitrary: i) (auto split: if_splits)

lemma IndexByte_None: "strings_IndexByte c s = None \<longleftrightarrow> c \<notin> set s"
  by (induction s) auto

lemma IndexByte_append: "c \<notin> set a \<Longrightarrow> strings_IndexByte c (a @ c # b) = Some (length a)"
  by (induction a) auto

end
