(* ===== verification/ServerConfig.thy ===== *)
theory ServerConfig
  imports GoStrings
begin

text \<open>
  \<^verbatim>\<open>doh-server/config.go\<close>: the configuration record and \<^verbatim>\<open>loadConfig\<close>. The TOML decoder is a parameter: it
  gives an error, or the decoded record with the keys it did not recognise.
\<close>

record config =
  conf_Listen :: "string list"
  conf_Cert :: string
  conf_Key :: string
  conf_Path :: string
  conf_Upstream :: "string list"
  conf_Timeout :: u64
  conf_Tries :: u64
  conf_TCPOnly :: bool
  conf_Verbose :: bool
  conf_ListsDirectory :: string
  conf_ListsUpdateEndpoint :: string
  conf_RequestsLog :: string

text \<open>The defaults, one assignment for each guarded assignment of the code.\<close>

definition apply_defaults :: "config \<Rightarrow> config" where
  "apply_defaults conf =
     conf\<lparr>conf_Listen := (if length (conf_Listen conf) = 0
                          then [''127.0.0.1:8053'', ''[::1]:8053''] else conf_Listen conf),
          conf_Path := (if conf_Path conf = [] then ''/dns-query'' else conf_Path conf),
          conf_Upstream := (if length (conf_Upstream conf) = 0
                            then [''8.8.8.8:53'', ''8.8.4.4:53''] else conf_Upstream conf),
          conf_Timeout := (if conf_Timeout conf = 0 then 10 else conf_Timeout conf),
          conf_Tries := (if conf_Tries conf = 0 then 1 else conf_Tries conf)\<rparr>"

datatype configError = configError string

primrec configError_Error :: "configError \<Rightarrow> string" where
  "configError_Error (configError err) = err"

definition loadConfig ::
    "golib \<Rightarrow> (string \<Rightarrow> string + (config \<times> string list)) \<Rightarrow> string \<Rightarrow> string + config" where
  "loadConfig lib DecodeFile path =
     (case DecodeFile path of
        Inl err \<Rightarrow> Inl err
      | Inr (conf0, undecoded) \<Rightarrow>
          (case undecoded of
             key # _ \<Rightarrow> Inl (configError_Error (configError (''unknown option '' @ fmt_q lib key)))
           | [] \<Rightarrow>
               let conf = apply_defaults conf0
               in if (conf_Cert conf \<noteq> []) \<noteq> (conf_Key conf \<noteq> [])
                  then Inl (configError_Error (configError ''You must specify both -cert and -key to enable TLS''))
                  else Inr (if conf_ListsUpdateEndpoint conf \<noteq> []
                            then conf\<lparr>conf_ListsUpdateEndpoint :=
                                        ''http://'' @ conf_ListsUpdateEndpoint conf\<rparr>
                            else conf)))"

text \<open>What the rest of the server relies on.\<close>

definition config_ok :: "config \<Rightarrow> bool" where
  "config_ok c \<longleftrightarrow>
     conf_Listen c \<noteq> [] \<and> conf_Path c \<noteq> [] \<and> conf_Upstream c \<noteq> [] \<and> 1 \<le> conf_Timeout c \<and>
     1 \<le> conf_Tries c \<and> (conf_Cert c = [] \<longleftrightarrow> conf_Key c = [])"

lemma u64_ge_1 [simp]: "1 \<le> (x :: u64) \<longleftrightarrow> x \<noteq> 0"
proof
  show "1 \<le> x \<Longrightarrow> x \<noteq> 0" by auto
  show "x \<noteq> 0 \<Longrightarrow> 1 \<le> x" using unsigned_less [of x, where ?'a = int] by (simp add: word_le_def word_neq_0_conv word_less_def)
qed

lemma apply_defaults_sel [simp]:
  "conf_Cert (apply_defaults c) = conf_Cert c" "conf_Key (apply_defaults c) = conf_Key c"
  by (simp_all add: apply_defaults_def)

lemma loadConfig_Inr:
  assumes "loadConfig lib DecodeFile path = Inr c"
  shows "\<exists>c0 ep. DecodeFile path = Inr (c0, []) \<and> (conf_Cert c0 = [] \<longleftrightarrow> conf_Key c0 = []) \<and>
    c = (apply_defaults c0)\<lparr>conf_ListsUpdateEndpoint := ep\<rparr>"
proof -
  obtain c0 where d: "DecodeFile path = Inr (c0, [])"
    using assms by (auto simp: loadConfig_def split: sum.splits list.splits prod.splits)
  have "conf_Cert c0 = [] \<longleftrightarrow> conf_Key c0 = []"
    using assms by (auto simp: loadConfig_def d Let_def split: if_splits)
  moreover have "c = (apply_defaults c0)\<lparr>conf_ListsUpdateEndpoint := conf_ListsUpdateEndpoint c\<rparr>"
    using assms by (auto simp: loadConfig_def d Let_def split: if_splits)
  ultimately show ?thesis using d by blast
qed

lemma apply_defaults_ok:
  "conf_Cert c0 = [] \<longleftrightarrow> conf_Key c0 = [] \<Longrightarrow>
     config_ok ((apply_defaults c0)\<lparr>conf_ListsUpdateEndpoint := ep\<rparr>)"
  unfolding config_ok_def by (simp add: apply_defaults_def)

lemma loadConfig_ok: "loadConfig lib DecodeFile path = Inr c \<Longrightarrow> config_ok c"
  using apply_defaults_ok by (blast dest: loadConfig_Inr)

section \<open>Properties\<close>

text \<open>A configuration is refused exactly when the file cannot be decoded, has an unknown key, or names
  only one of certificate and key. An accepted configuration has listeners, a path, at least one
  upstream, a positive timeout and at least one try; what the file sets is kept.\<close>

lemma loadConfig_total:
  "(case loadConfig lib DecodeFile path of
      Inr c \<Rightarrow>
        config_ok c \<and>
        (\<exists>c0. DecodeFile path = Inr (c0, []) \<and> (conf_Cert c0 = [] \<longleftrightarrow> conf_Key c0 = []) \<and>
           conf_Upstream c = (if conf_Upstream c0 = [] then [''8.8.8.8:53'', ''8.8.4.4:53''] else conf_Upstream c0) \<and>
           conf_Tries c = max 1 (conf_Tries c0) \<and>
           conf_Timeout c = (if conf_Timeout c0 = 0 then 10 else conf_Timeout c0) \<and>
           conf_TCPOnly c = conf_TCPOnly c0 \<and> conf_ListsDirectory c = conf_ListsDirectory c0 \<and>
           conf_RequestsLog c = conf_RequestsLog c0)
    | Inl _ \<Rightarrow>
        (\<exists>e. DecodeFile path = Inl e) \<or> (\<exists>c0 k ks. DecodeFile path = Inr (c0, k # ks)) \<or>
        (\<exists>c0. DecodeFile path = Inr (c0, []) \<and> (conf_Cert c0 = []) \<noteq> (conf_Key c0 = [])))"
proof (cases "loadConfig lib DecodeFile path")
  case (Inl e)
  then show ?thesis
    by (auto simp: loadConfig_def Let_def split: sum.splits list.splits prod.splits if_splits)
next
  case (Inr c)
  from loadConfig_Inr [OF this] obtain c0 ep where
    "DecodeFile path = Inr (c0, [])" "conf_Cert c0 = [] \<longleftrightarrow> conf_Key c0 = []"
    "c = (apply_defaults c0)\<lparr>conf_ListsUpdateEndpoint := ep\<rparr>" by blast
  with Inr loadConfig_ok [OF Inr] show ?thesis by (simp add: apply_defaults_def max_def)
qed

end
