(* ===== verification/Tracker.thy ===== *)
theory Tracker
  imports GoStrings
begin

text \<open>
  \<^verbatim>\<open>doh-server/tracker.go\<close>: request handlers put the names they resolve into a channel of 1000 places; a
  goroutine formats them into a buffer and writes the buffer to the log when it holds 2048 bytes and
  at every tick. The goroutine and the handlers are an inductive step relation; the log layout of a
  date is the parameter \<open>fmt_log\<close>.
\<close>

section \<open>Interface: a bounded channel\<close>

text \<open>Sending blocks (\<^const>\<open>None\<close>) on a full channel, receiving on an empty one.\<close>

locale bounded_channel =
  fixes send :: "'a \<Rightarrow> 'c \<Rightarrow> 'c option"
    and recv :: "'c \<Rightarrow> ('a \<times> 'c) option"
    and content :: "'c \<Rightarrow> 'a list"
    and capacity :: nat
  assumes send_content: "send x c = Some c' \<Longrightarrow> content c' = content c @ [x]"
    and send_blocks: "send x c = None \<longleftrightarrow> capacity \<le> length (content c)"
    and recv_content: "recv c = Some (x, c') \<Longrightarrow> content c = x # content c'"
    and recv_blocks: "recv c = None \<longleftrightarrow> content c = []"
begin

lemma send_bound: "send x c = Some c' \<Longrightarrow> length (content c') \<le> capacity"
  using send_content send_blocks by (metis Suc_leI length_append_singleton not_le option.distinct(1))

lemma recv_bound: "recv c = Some (x, c') \<Longrightarrow> length (content c) \<le> n \<Longrightarrow> length (content c') < n"
  using recv_content by fastforce

text \<open>A channel never has both its ends blocked.\<close>

lemma never_stuck: "0 < capacity \<Longrightarrow> send x c \<noteq> None \<or> recv c \<noteq> None"
  using send_blocks recv_blocks by auto

end

section \<open>State and operations\<close>

record trackerEntry =
  te_domain :: string
  te_date :: int

record Tracker =
  trk_entries :: "trackerEntry list"
  trk_buf :: string
  trk_file :: string

definition chan_capacity :: nat where
  "chan_capacity = 1000"

definition chan_send :: "trackerEntry \<Rightarrow> trackerEntry list \<Rightarrow> trackerEntry list option" where
  "chan_send e q = (if length q < chan_capacity then Some (q @ [e]) else None)"

definition chan_recv :: "trackerEntry list \<Rightarrow> (trackerEntry \<times> trackerEntry list) option" where
  "chan_recv q = (case q of [] \<Rightarrow> None | e # es \<Rightarrow> Some (e, es))"

interpretation chan: bounded_channel chan_send chan_recv "\<lambda>q. q" chan_capacity
  by unfold_locales (auto simp: chan_send_def chan_recv_def split: if_splits list.splits)

text \<open>\<^verbatim>\<open>NewTracker\<close>: opening the log for appending keeps its contents.\<close>

definition NewTracker :: "(string \<Rightarrow> string + string) \<Rightarrow> string \<Rightarrow> string + Tracker" where
  "NewTracker OpenAppend filepath =
     (case OpenAppend filepath of
        Inl err \<Rightarrow> Inl err
      | Inr contents \<Rightarrow> Inr \<lparr>trk_entries = [], trk_buf = [], trk_file = contents\<rparr>)"

text \<open>\<^verbatim>\<open>SaveDomain\<close>; \<^const>\<open>None\<close> while the channel is full, when the caller waits.\<close>

definition SaveDomain :: "string \<Rightarrow> int \<Rightarrow> Tracker \<Rightarrow> Tracker option" where
  "SaveDomain domain now t =
     (case chan_send \<lparr>te_domain = domain, te_date = now\<rparr> (trk_entries t) of
        None \<Rightarrow> None
      | Some q \<Rightarrow> Some (t\<lparr>trk_entries := q\<rparr>))"

text \<open>
  \<^verbatim>\<open>buf.WriteTo(t.file); buf.Reset()\<close>. The outcome of the write is \<^const>\<open>None\<close> for success, or the number of
  bytes that reached the file before it failed.
\<close>

definition flush_buf :: "nat option \<Rightarrow> Tracker \<Rightarrow> Tracker" where
  "flush_buf failed t =
     t\<lparr>trk_file := trk_file t @ (case failed of None \<Rightarrow> trk_buf t | Some n \<Rightarrow> take n (trk_buf t)),
       trk_buf := []\<rparr>"

definition log_line :: "(int \<Rightarrow> string) \<Rightarrow> trackerEntry \<Rightarrow> string" where
  "log_line fmt_log e = fmt_log (te_date e) @ te_domain e @ [CHR 0x0A]"

definition flush_limit :: nat where
  "flush_limit = 2048"

text \<open>The two cases of the \<^verbatim>\<open>select\<close> statement.\<close>

definition tick_case :: "nat option \<Rightarrow> Tracker \<Rightarrow> Tracker" where
  "tick_case failed t = flush_buf failed t"

definition entry_case :: "(int \<Rightarrow> string) \<Rightarrow> nat option \<Rightarrow> Tracker \<Rightarrow> Tracker option" where
  "entry_case fmt_log failed t =
     (case chan_recv (trk_entries t) of
        None \<Rightarrow> None
      | Some (e, q) \<Rightarrow>
          let t1 = t\<lparr>trk_entries := q, trk_buf := trk_buf t @ log_line fmt_log e\<rparr>
          in Some (if length (trk_buf t1) \<ge> flush_limit then flush_buf failed t1 else t1))"

text \<open>
  Handlers and the goroutine in any order. The list holds what the handlers have saved, oldest first;
  \<open>faulty\<close> says whether writes may fail.
\<close>

inductive tracker_run :: "(int \<Rightarrow> string) \<Rightarrow> bool \<Rightarrow> Tracker \<Rightarrow> trackerEntry list \<Rightarrow> Tracker \<Rightarrow> bool"
  for fmt_log :: "int \<Rightarrow> string" and faulty :: bool and t0 :: Tracker where
  start: "tracker_run fmt_log faulty t0 [] t0"
| save: "tracker_run fmt_log faulty t0 es t \<Longrightarrow> SaveDomain d now t = Some t' \<Longrightarrow>
     tracker_run fmt_log faulty t0 (es @ [\<lparr>te_domain = d, te_date = now\<rparr>]) t'"
| tick: "tracker_run fmt_log faulty t0 es t \<Longrightarrow> failed = None \<or> faulty \<Longrightarrow>
     tracker_run fmt_log faulty t0 es (tick_case failed t)"
| entry: "tracker_run fmt_log faulty t0 es t \<Longrightarrow> failed = None \<or> faulty \<Longrightarrow>
     entry_case fmt_log failed t = Some t' \<Longrightarrow> tracker_run fmt_log faulty t0 es t'"

declare tracker_run.intros [step_intros]

section \<open>Lemmas\<close>

definition log_lines :: "(int \<Rightarrow> string) \<Rightarrow> trackerEntry list \<Rightarrow> string" where
  "log_lines fmt_log es = concat (map (log_line fmt_log) es)"

text \<open>What has been written, is buffered and is queued, in this order.\<close>

definition pending :: "(int \<Rightarrow> string) \<Rightarrow> Tracker \<Rightarrow> string" where
  "pending fmt_log t = trk_file t @ trk_buf t @ log_lines fmt_log (trk_entries t)"

lemma pending_save:
  "SaveDomain d now t = Some t' \<Longrightarrow>
     pending fmt_log t' = pending fmt_log t @ log_line fmt_log \<lparr>te_domain = d, te_date = now\<rparr>"
  by (auto simp: SaveDomain_def pending_def log_lines_def dest!: chan.send_content split: option.splits)

lemma pending_flush [simp]: "pending fmt_log (flush_buf None t) = pending fmt_log t"
  by (simp add: pending_def flush_buf_def)

lemma pending_entry:
  "entry_case fmt_log None t = Some t' \<Longrightarrow> pending fmt_log t' = pending fmt_log t"
  by (auto simp: entry_case_def pending_def log_lines_def Let_def flush_buf_def dest!: chan.recv_content
      split: option.splits if_splits)

definition tracker_ok :: "Tracker \<Rightarrow> bool" where
  "tracker_ok t \<longleftrightarrow> length (trk_entries t) \<le> chan_capacity \<and> length (trk_buf t) < flush_limit"

lemma tracker_ok_save [inv_rules]: "tracker_ok t \<Longrightarrow> SaveDomain d now t = Some t' \<Longrightarrow> tracker_ok t'"
  by (auto simp: tracker_ok_def SaveDomain_def dest!: chan.send_bound split: option.splits)

lemma tracker_ok_flush [inv_rules]: "length (trk_entries t) \<le> chan_capacity \<Longrightarrow> tracker_ok (flush_buf failed t)"
  by (simp add: tracker_ok_def flush_buf_def flush_limit_def)

lemma tracker_ok_entry [inv_rules]:
  assumes "tracker_ok t" and "entry_case fmt_log failed t = Some t'"
  shows "tracker_ok t'"
proof -
  obtain e q where "chan_recv (trk_entries t) = Some (e, q)"
    using assms(2) by (auto simp: entry_case_def split: option.splits)
  moreover from this have "length q < chan_capacity"
    using assms(1) chan.recv_bound by (simp add: tracker_ok_def)
  ultimately show ?thesis
    using assms by (auto simp: entry_case_def Let_def tracker_ok_def flush_buf_def split: if_splits)
qed

lemma tracker_run_ok: "tracker_run fmt_log faulty t0 es t \<Longrightarrow> tracker_ok t0 \<Longrightarrow> tracker_ok t"
proof (induction rule: tracker_run.induct)
  case (tick es t failed)
  then have "length (trk_entries t) \<le> chan_capacity" by (simp add: tracker_ok_def)
  then show ?case by (simp add: tick_case_def tracker_ok_flush)
qed (auto intro: inv_rules)

lemma tracker_run_pending:
  "tracker_run fmt_log False t0 es t \<Longrightarrow> pending fmt_log t = pending fmt_log t0 @ log_lines fmt_log es"
proof (induction rule: tracker_run.induct)
  case (save es t d now t')
  then show ?case by (simp add: pending_save log_lines_def)
next
  case (entry es t failed t')
  then show ?case by (simp add: pending_entry)
qed (simp_all add: log_lines_def tick_case_def)

section \<open>Properties\<close>

text \<open>C9: While writes succeed, and whatever the order in which handlers and the goroutine run, the log file
  followed by the buffer and the queue is the old log followed by one line for each saved name, in the
  order in which they were saved: nothing is lost, doubled or reordered. When the queue is empty, the
  next tick puts everything into the file.\<close>

theorem tracker_complete:
  assumes "NewTracker OpenAppend filepath = Inr t0" and "tracker_run fmt_log False t0 es t"
  shows "trk_file t @ trk_buf t @ log_lines fmt_log (trk_entries t) = trk_file t0 @ log_lines fmt_log es \<and>
    (trk_entries t = [] \<longrightarrow> trk_file (tick_case None t) = trk_file t0 @ log_lines fmt_log es)"
  using tracker_run_pending [OF assms(2)] assms(1)
  by (auto simp: NewTracker_def pending_def tick_case_def flush_buf_def log_lines_def split: sum.splits)

theorem tracker_complete_witness:
  "\<exists>t0 t. NewTracker (\<lambda>_. Inr ''old'') ''log'' = Inr t0 \<and> SaveDomain ''a.'' 7 t0 = Some t \<and>
     trk_file t @ trk_buf t @ log_lines (\<lambda>_. ''d '') (trk_entries t) = ''oldd a.'' @ [CHR 0x0A]"
proof -
  let ?t0 = "\<lparr>trk_entries = [], trk_buf = [], trk_file = ''old''\<rparr>"
  have n: "NewTracker (\<lambda>_. Inr ''old'') ''log'' = Inr ?t0" by (simp add: NewTracker_def)
  moreover have s: "SaveDomain ''a.'' 7 ?t0 = Some (?t0\<lparr>trk_entries := [\<lparr>te_domain = ''a.'', te_date = 7\<rparr>]\<rparr>)"
    by (simp add: SaveDomain_def chan_send_def chan_capacity_def)
  ultimately show ?thesis
    using tracker_complete [OF n tracker_run.save [OF tracker_run.start s], of "\<lambda>_. ''d ''"]
    by (auto simp: log_lines_def log_line_def)
qed

text \<open>C28: The memory of the tracker is bounded whatever happens to the writes: between two steps at most 1000
  names are queued and fewer than 2048 bytes are buffered; a saved name waits only while the queue is
  full, and then the goroutine can take an entry.\<close>

theorem tracker_bounded:
  assumes "NewTracker OpenAppend filepath = Inr t0" and "tracker_run fmt_log faulty t0 es t"
  shows "length (trk_entries t) \<le> 1000 \<and> length (trk_buf t) < 2048 \<and>
    (SaveDomain d now t = None \<longrightarrow> length (trk_entries t) = 1000 \<and> (\<exists>t'. entry_case fmt_log failed t = Some t'))"
proof -
  have "tracker_ok t0" using assms(1)
    by (auto simp: NewTracker_def tracker_ok_def flush_limit_def split: sum.splits)
  then have "tracker_ok t" by (rule tracker_run_ok [OF assms(2)])
  then show ?thesis
    by (auto simp: tracker_ok_def chan_capacity_def flush_limit_def SaveDomain_def chan_send_def
        entry_case_def chan_recv_def Let_def split: option.splits if_splits list.splits)
qed

theorem tracker_bounded_witness:
  "\<exists>t0. NewTracker (\<lambda>_. Inr ''old'') ''log'' = Inr t0 \<and> length (trk_entries t0) \<le> 1000"
proof -
  obtain t0 where n: "NewTracker (\<lambda>_. Inr ''old'') ''log'' = Inr t0" by (simp add: NewTracker_def)
  then show ?thesis using tracker_bounded [OF n tracker_run.start] by blast
qed

end
