(* ===== verification/GoIO.thy ===== *)
theory GoIO
  imports GoStrings
begin

text \<open>
  Files as the program reads them: directory listings and file contents (\<^verbatim>\<open>os\<close>), buffered lines
  (\<^verbatim>\<open>bufio.Reader.ReadLine\<close> with its buffer of 4096 bytes) and slash-separated paths (\<^verbatim>\<open>path.Join\<close>).
\<close>

section \<open>Directories and files\<close>

text \<open>
  A read either fails at once or gives the contents and, if the disk fails before the end of the
  file, the error that is met after them.
\<close>

record osfs =
  fs_names :: "string \<Rightarrow> string + string list"
  fs_file :: "string \<Rightarrow> string + (string \<times> string option)"

section \<open>Paths\<close>

fun clean_parts :: "bool \<Rightarrow> string list \<Rightarrow> string list \<Rightarrow> string list" where
  "clean_parts rooted st [] = rev st"
| "clean_parts rooted st (p # ps) =
     (if p = [] \<or> p = ''.'' then clean_parts rooted st ps
      else if p = ''..'' then
        (if st \<noteq> [] \<and> hd st \<noteq> ''..'' then clean_parts rooted (tl st) ps
         else if rooted then clean_parts rooted st ps
         else clean_parts rooted (p # st) ps)
      else clean_parts rooted (p # st) ps)"

fun join_with :: "char \<Rightarrow> string list \<Rightarrow> string" where
  "join_with c [] = []"
| "join_with c [p] = p"
| "join_with c (p # ps) = p @ c # join_with c ps"

definition path_Clean :: "string \<Rightarrow> string" where
  "path_Clean p =
     (let rooted = (p \<noteq> [] \<and> hd p = CHR ''/'');
          out = join_with CHR ''/'' (clean_parts rooted [] (strings_Split CHR ''/'' p))
      in if rooted then CHR ''/'' # out else if out = [] then ''.'' else out)"

text \<open>\<^verbatim>\<open>path.Join\<close> of two elements: empty elements are ignored.\<close>

definition path_Join :: "string \<Rightarrow> string \<Rightarrow> string" where
  "path_Join a b =
     (if a = [] then (if b = [] then [] else path_Clean b)
      else if b = [] then path_Clean a
      else path_Clean (a @ CHR ''/'' # b))"

section \<open>Lines\<close>

abbreviation LF :: char where "LF \<equiv> CHR 0x0A"
abbreviation CR :: char where "CR \<equiv> CHR 0x0D"

definition bufsize :: nat where
  "bufsize = 4096"

text \<open>
  \<^verbatim>\<open>ReadLine\<close> on the input that is left: the chunk, whether the line goes on, and the rest. At the
  end of the input there is no chunk. A full buffer that ends in a carriage return keeps it back.
\<close>

definition ReadLine :: "string \<Rightarrow> (string \<times> bool \<times> string) option" where
  "ReadLine s =
     (if s = [] then None
      else if LF \<in> set (take bufsize s) then
        (let line = takeWhile (\<lambda>c. c \<noteq> LF) s;
             chunk = (if line \<noteq> [] \<and> last line = CR then butlast line else line)
         in Some (chunk, False, drop (length line + 1) s))
      else if bufsize \<le> length s then
        (let line = take bufsize s in
         if last line = CR then Some (butlast line, True, CR # drop bufsize s)
         else Some (line, True, drop bufsize s))
      else Some (s, False, []))"

lemma ReadLine_shorter:
  assumes "ReadLine s = Some (chunk, isPrefix, rest)"
  shows "length rest < length s"
  using assms by (auto simp: ReadLine_def Let_def bufsize_def split: if_splits)

section \<open>Lemmas\<close>

text \<open>A line that fits the buffer is read whole, without its end of line.\<close>

definition strip_CR :: "string \<Rightarrow> string" where
  "strip_CR l = (if l \<noteq> [] \<and> last l = CR then butlast l else l)"

lemma ReadLine_line:
  assumes "LF \<notin> set l" and "length l < bufsize"
  shows "ReadLine (l @ LF # rest) = Some (strip_CR l, False, rest)"
proof -
  have "takeWhile (\<lambda>c. c \<noteq> LF) (l @ LF # rest) = l" using assms(1) by (intro takeWhile_append_stop) auto
  moreover have "LF \<in> set (take bufsize (l @ LF # rest))" using assms(2) by (simp add: take_Cons')
  ultimately show ?thesis by (auto simp: ReadLine_def strip_CR_def Let_def)
qed

lemma ReadLine_last:
  assumes "LF \<notin> set l" and "length l < bufsize" and "l \<noteq> []"
  shows "ReadLine l = Some (l, False, [])"
  using assms by (auto simp: ReadLine_def Let_def dest: in_set_takeD)

lemma ReadLine_long:
  assumes "LF \<notin> set (take bufsize s)" and "bufsize \<le> length s" and "s ! (bufsize - 1) \<noteq> CR"
  shows "ReadLine s = Some (take bufsize s, True, drop bufsize s)"
proof -
  have "last (take bufsize s) = s ! (bufsize - 1)"
    using assms(2) by (subst last_conv_nth) (auto simp: bufsize_def)
  moreover have "s \<noteq> []" using assms(2) by (auto simp: bufsize_def)
  ultimately show ?thesis using assms by (simp add: ReadLine_def Let_def)
qed

text \<open>Joining a directory and a plain file name is injective in the name.\<close>

lemma clean_parts_snoc:
  "p \<noteq> [] \<Longrightarrow> p \<noteq> ''.'' \<Longrightarrow> p \<noteq> ''..'' \<Longrightarrow>
     clean_parts rooted st (ps @ [p]) = clean_parts rooted st ps @ [p]"
  by (induction rooted st ps rule: clean_parts.induct) auto

lemma join_with_snoc: "join_with c (ps @ [p]) = (if ps = [] then p else join_with c ps @ c # p)"
  by (induction c ps rule: join_with.induct) auto

lemma Split_snoc_sep: "c \<notin> set b \<Longrightarrow> strings_Split c (a @ c # b) = strings_Split c a @ [b]"
  by (induction a) (auto simp: Split_single split: list.splits)

definition dir_prefix :: "string \<Rightarrow> string" where
  "dir_prefix a =
     (let rooted = (hd a = CHR ''/''); ps = clean_parts rooted [] (strings_Split CHR ''/'' a)
      in (if rooted then ''/'' else []) @ (if ps = [] then [] else join_with CHR ''/'' ps @ ''/''))"

definition plain_name :: "string \<Rightarrow> bool" where
  "plain_name x \<longleftrightarrow> x \<noteq> [] \<and> x \<noteq> ''.'' \<and> x \<noteq> ''..'' \<and> CHR ''/'' \<notin> set x"

lemma path_Join_plain:
  assumes "a \<noteq> []" and "plain_name x"
  shows "path_Join a x = dir_prefix a @ x"
proof -
  have "clean_parts r [] (strings_Split CHR ''/'' (a @ CHR ''/'' # x)) =
      clean_parts r [] (strings_Split CHR ''/'' a) @ [x]" for r
    using assms by (simp add: plain_name_def Split_snoc_sep clean_parts_snoc)
  with assms show ?thesis
    by (simp add: path_Join_def path_Clean_def Let_def plain_name_def join_with_snoc dir_prefix_def)
qed

lemma path_Join_inj:
  assumes "a \<noteq> []" and "plain_name x" and "plain_name y"
  shows "path_Join a x = path_Join a y \<longleftrightarrow> x = y"
  using assms by (simp add: path_Join_plain)

end
