(* ===== verification/GoNet.thy ===== *)
theory GoNet
  imports GoStrings
begin

text \<open>
  The parts of Go's \<^verbatim>\<open>net\<close> package that the program calls: addresses as byte slices, masks, network
  membership, parsing and printing. A \<^verbatim>\<open>nil\<close> address is \<^const>\<open>None\<close> where the program tests for it.
  The main lemma, \<open>masked_eq_iff_div\<close>, reads the bytewise comparison under a CIDR mask as a
  comparison of address prefixes, that is, as membership in an interval of numbers.
\<close>

type_synonym net_IP = "bytes option"

section \<open>Addresses and masks\<close>

definition v4InV6Prefix :: bytes where
  "v4InV6Prefix = [0, 0, 0, 0, 0, 0, 0, 0, 0, 0, 255, 255]"

definition net_IPv4 :: "u8 \<Rightarrow> u8 \<Rightarrow> u8 \<Rightarrow> u8 \<Rightarrow> bytes" where
  "net_IPv4 a b c d = v4InV6Prefix @ [a, b, c, d]"

definition To4 :: "bytes \<Rightarrow> bytes option" where
  "To4 ip =
     (if length ip = 4 then Some ip
      else if length ip = 16 \<and> take 12 ip = v4InV6Prefix then Some (drop 12 ip)
      else None)"

fun cidr_bytes :: "nat \<Rightarrow> nat \<Rightarrow> bytes" where
  "cidr_bytes 0 n = []"
| "cidr_bytes (Suc l) n =
     (if n \<ge> 8 then 255 # cidr_bytes l (n - 8) else NOT (drop_bit n 255) # cidr_bytes l 0)"

definition CIDRMask :: "nat \<Rightarrow> nat \<Rightarrow> bytes option" where
  "CIDRMask ones bits =
     (if bits \<noteq> 32 \<and> bits \<noteq> 128 then None else if ones > bits then None
      else Some (cidr_bytes (bits div 8) ones))"

text \<open>\<^verbatim>\<open>IP.Mask\<close>.\<close>

definition IP_Mask :: "bytes \<Rightarrow> bytes \<Rightarrow> bytes option" where
  "IP_Mask ip m =
     (let m' = (if length m = 16 \<and> length ip = 4 \<and> take 12 m = replicate 12 255 then drop 12 m else m);
          ip' = (if length m' = 4 \<and> length ip = 16 \<and> take 12 ip = v4InV6Prefix then drop 12 ip else ip)
      in if length ip' \<noteq> length m' then None else Some (map2 (AND) ip' m'))"

record IPNet =
  net_addr :: bytes
  net_mask :: bytes

definition networkNumberAndMask :: "IPNet \<Rightarrow> bytes \<times> bytes" where
  "networkNumberAndMask n =
     (case (case To4 (net_addr n) of Some ip \<Rightarrow> Some ip
            | None \<Rightarrow> if length (net_addr n) = 16 then Some (net_addr n) else None) of
        None \<Rightarrow> ([], [])
      | Some ip \<Rightarrow>
          if length (net_mask n) = 4 then (if length ip \<noteq> 4 then ([], []) else (ip, net_mask n))
          else if length (net_mask n) = 16
          then (ip, if length ip = 4 then drop 12 (net_mask n) else net_mask n)
          else ([], []))"

definition IPNet_Contains :: "IPNet \<Rightarrow> bytes \<Rightarrow> bool" where
  "IPNet_Contains n ip =
     (let (nn, m) = networkNumberAndMask n; x = (case To4 ip of Some x \<Rightarrow> x | None \<Rightarrow> ip)
      in length x = length nn \<and> map2 (AND) nn m = map2 (AND) x m)"

section \<open>Parsing\<close>

definition hex_val :: "char \<Rightarrow> nat option" where
  "hex_val c =
     (let n = (of_char c :: nat) in
      if 48 \<le> n \<and> n \<le> 57 then Some (n - 48)
      else if 97 \<le> n \<and> n \<le> 102 then Some (n - 87)
      else if 65 \<le> n \<and> n \<le> 70 then Some (n - 55)
      else None)"

definition net_big :: nat where
  "net_big = 0xFFFFFF"

text \<open>\<^verbatim>\<open>dtoi\<close> and \<^verbatim>\<open>xtoi\<close>: the value and the number of characters read, or failure.\<close>

fun dtoi_loop :: "nat \<Rightarrow> nat \<Rightarrow> string \<Rightarrow> (nat \<times> nat) option" where
  "dtoi_loop n i [] = (if i = 0 then None else Some (n, i))"
| "dtoi_loop n i (c # cs) =
     (if is_digit c
      then (if n * 10 + digit_val c \<ge> net_big then None else dtoi_loop (n * 10 + digit_val c) (Suc i) cs)
      else if i = 0 then None else Some (n, i))"

definition dtoi :: "string \<Rightarrow> (nat \<times> nat) option" where
  "dtoi s = dtoi_loop 0 0 s"

fun xtoi_loop :: "nat \<Rightarrow> nat \<Rightarrow> string \<Rightarrow> (nat \<times> nat) option" where
  "xtoi_loop n i [] = (if i = 0 then None else Some (n, i))"
| "xtoi_loop n i (c # cs) =
     (case hex_val c of
        Some d \<Rightarrow> if n * 16 + d \<ge> net_big then None else xtoi_loop (n * 16 + d) (Suc i) cs
      | None \<Rightarrow> if i = 0 then None else Some (n, i))"

definition xtoi :: "string \<Rightarrow> (nat \<times> nat) option" where
  "xtoi s = xtoi_loop 0 0 s"

text \<open>The four rounds of \<^verbatim>\<open>parseIPv4\<close>; \<open>k\<close> counts the octets still to read.\<close>

fun parseIPv4_loop :: "nat \<Rightarrow> bytes \<Rightarrow> string \<Rightarrow> bytes option" where
  "parseIPv4_loop 0 p s = (if s = [] then Some p else None)"
| "parseIPv4_loop (Suc k) p s =
     (if s = [] \<or> (p \<noteq> [] \<and> hd s \<noteq> CHR ''.'') then None
      else let s' = (if p \<noteq> [] then tl s else s) in
           case dtoi s' of
             None \<Rightarrow> None
           | Some (n, c) \<Rightarrow> if n > 255 then None else parseIPv4_loop k (p @ [of_nat n]) (drop c s'))"

definition parseIPv4 :: "string \<Rightarrow> bytes option" where
  "parseIPv4 s = map_option (\<lambda>p. v4InV6Prefix @ p) (parseIPv4_loop 4 [] s)"

function parseIPv6_loop :: "bytes \<Rightarrow> nat option \<Rightarrow> string \<Rightarrow> (bytes \<times> nat option \<times> string) option" where
  "parseIPv6_loop ip ell s =
     (if length ip \<ge> 16 then Some (ip, ell, s)
      else case xtoi s of
        None \<Rightarrow> None
      | Some (n, c) \<Rightarrow>
          if n > 0xFFFF then None
          else if c < length s \<and> s ! c = CHR ''.'' then
            (if ell = None \<and> length ip \<noteq> 12 then None
             else if length ip + 4 > 16 then None
             else case parseIPv4 s of None \<Rightarrow> None | Some ip4 \<Rightarrow> Some (ip @ drop 12 ip4, ell, []))
          else
            let ip' = ip @ [of_nat (n div 256), of_nat n]; s1 = drop c s in
            if s1 = [] then Some (ip', ell, [])
            else if hd s1 \<noteq> CHR '':'' \<or> length s1 = 1 then None
            else let s2 = tl s1 in
              if hd s2 = CHR '':'' then
                (if ell \<noteq> None then None
                 else if tl s2 = [] then Some (ip', Some (length ip'), [])
                 else parseIPv6_loop ip' (Some (length ip')) (tl s2))
              else parseIPv6_loop ip' ell s2)"
  by pat_completeness auto
termination
  by (relation "measure (\<lambda>(ip, ell, s). 16 - length ip)") auto

declare parseIPv6_loop.simps [simp del]

text \<open>The end of \<^verbatim>\<open>parseIPv6\<close>: the whole string is used, and the ellipsis is expanded.\<close>

definition parseIPv6_finish :: "bytes \<times> nat option \<times> string \<Rightarrow> bytes option" where
  "parseIPv6_finish r =
     (case r of (ip, ell, s) \<Rightarrow>
        if s \<noteq> [] then None
        else if length ip < 16 then
          (case ell of None \<Rightarrow> None
           | Some e \<Rightarrow> Some (take e ip @ replicate (16 - length ip) 0 @ drop e ip))
        else if ell \<noteq> None then None
        else Some ip)"

definition parseIPv6 :: "string \<Rightarrow> bytes option" where
  "parseIPv6 s =
     (if take 2 s = [CHR '':'', CHR '':''] then
        (if drop 2 s = [] then Some (replicate 16 0)
         else Option.bind (parseIPv6_loop [] (Some 0) (drop 2 s)) parseIPv6_finish)
      else Option.bind (parseIPv6_loop [] None s) parseIPv6_finish)"

definition ParseIP :: "string \<Rightarrow> net_IP" where
  "ParseIP s =
     (case find (\<lambda>c. c = CHR ''.'' \<or> c = CHR '':'') s of
        None \<Rightarrow> None
      | Some c \<Rightarrow> if c = CHR ''.'' then parseIPv4 s else parseIPv6 s)"

section \<open>Printing\<close>

definition hex_digit :: "nat \<Rightarrow> char" where
  "hex_digit d = (if d < 10 then char_of (48 + d) else char_of (87 + d))"

fun append_hex :: "nat \<Rightarrow> string" where
  "append_hex n = (if n < 16 then [hex_digit n] else append_hex (n div 16) @ [hex_digit (n mod 16)])"

declare append_hex.simps [simp del]

fun ip_groups :: "bytes \<Rightarrow> nat list" where
  "ip_groups (a # b # bs) = (unat a * 256 + unat b) # ip_groups bs"
| "ip_groups _ = []"

definition zero_run :: "nat list \<Rightarrow> nat" where
  "zero_run gs = length (takeWhile (\<lambda>g. g = 0) gs)"

text \<open>The longest run of zero groups (its start and its length), the first one among equals.\<close>

function best_run :: "nat \<Rightarrow> nat \<times> nat \<Rightarrow> nat list \<Rightarrow> nat \<times> nat" where
  "best_run i best [] = best"
| "best_run i best (g # gs) =
     (let r = zero_run (g # gs) in
      if r > snd best then best_run (i + r + 1) (i, r) (drop r gs)
      else best_run (i + 1) best gs)"
  by pat_completeness auto
termination
  by (relation "measure (\<lambda>(i, b, gs). length gs)") auto

fun join_colon :: "string list \<Rightarrow> string" where
  "join_colon [] = []"
| "join_colon [s] = s"
| "join_colon (s # ss) = s @ CHR '':'' # join_colon ss"

definition ipv6_String :: "bytes \<Rightarrow> string" where
  "ipv6_String ip =
     (let gs = ip_groups ip; (e0, r) = best_run 0 (0, 0) gs; hs = map append_hex gs in
      if r \<le> 1 then join_colon hs
      else join_colon (take e0 hs) @ [CHR '':'', CHR '':''] @ join_colon (drop (e0 + r) hs))"

definition IP_String :: "bytes \<Rightarrow> string" where
  "IP_String ip =
     (if ip = [] then ''<nil>''
      else case To4 ip of
        Some p \<Rightarrow> strconv_Itoa (unat (p ! 0)) @ ''.'' @ strconv_Itoa (unat (p ! 1)) @ ''.''
                   @ strconv_Itoa (unat (p ! 2)) @ ''.'' @ strconv_Itoa (unat (p ! 3))
      | None \<Rightarrow>
          if length ip \<noteq> 16
          then ''?'' @ concat (map (\<lambda>b. [hex_digit (unat b div 16), hex_digit (unat b mod 16)]) ip)
          else ipv6_String ip)"

section \<open>Lemmas\<close>

subsection \<open>Shapes\<close>

lemma length_v4InV6Prefix [simp]: "length v4InV6Prefix = 12"
  by (simp add: v4InV6Prefix_def)

lemma To4_length: "To4 ip = Some x \<Longrightarrow> length x = 4"
  by (auto simp: To4_def split: if_splits)

lemma To4_four [simp]: "length ip = 4 \<Longrightarrow> To4 ip = Some ip"
  by (simp add: To4_def)

lemma To4_IPv4 [simp]: "To4 (net_IPv4 a b c d) = Some [a, b, c, d]"
  by (simp add: To4_def net_IPv4_def v4InV6Prefix_def)

lemma To4_mapped [simp]: "length p = 4 \<Longrightarrow> To4 (v4InV6Prefix @ p) = Some p"
  by (simp add: To4_def)

lemma To4_idem: "To4 ip = Some x \<Longrightarrow> To4 x = Some x"
  by (simp add: To4_length)

lemma To4_None_length: "To4 ip = None \<Longrightarrow> length ip \<noteq> 4"
  by (auto simp: To4_def)

lemma length_cidr_bytes [simp]: "length (cidr_bytes l n) = l"
  by (induction l arbitrary: n) auto

lemma parseIPv4_loop_length: "parseIPv4_loop k p s = Some q \<Longrightarrow> length q = length p + k"
  by (induction k p s rule: parseIPv4_loop.induct)
     (auto simp: Let_def split: if_splits option.splits)

lemma parseIPv4_length: "parseIPv4 s = Some ip \<Longrightarrow> length ip = 16"
  by (auto simp: parseIPv4_def dest: parseIPv4_loop_length)

lemma parseIPv6_loop_length:
  "parseIPv6_loop ip ell s = Some (ip', ell', s') \<Longrightarrow>
     even (length ip) \<Longrightarrow> length ip \<le> 16 \<Longrightarrow> length ip' \<le> 16"
proof (induction "16 - length ip" arbitrary: ip ell s rule: less_induct)
  case less
  have even_step: "length ip \<le> 14" if "length ip < 16"
    using that less(3) by presburger
  have IH: "length ip' \<le> 16"
    if "parseIPv6_loop (ip @ [a, b]) ell2 t = Some (ip', ell', s')" "length ip < 16" for a b ell2 t
    using less(1) [of "ip @ [a, b]" ell2 t] that less(3) even_step by simp
  show ?case
    using less(2-4)
    by (subst (asm) parseIPv6_loop.simps)
       (auto simp: Let_def even_step parseIPv4_length dest!: IH split: if_splits option.splits)
qed

lemma parseIPv6_finish_length:
  "parseIPv6_finish (ip, ell, s) = Some q \<Longrightarrow> length ip \<le> 16 \<Longrightarrow> length q = 16"
  by (auto simp: parseIPv6_finish_def split: if_splits option.splits)

lemma ParseIP_length: "ParseIP s = Some ip \<Longrightarrow> length ip = 16"
proof -
  assume a: "ParseIP s = Some ip"
  have loop: "length q = 16"
    if "Option.bind (parseIPv6_loop [] ell t) parseIPv6_finish = Some q" for ell t q
    using that by (auto simp: bind_eq_Some_conv dest!: parseIPv6_loop_length intro: parseIPv6_finish_length)
  show ?thesis
    using a by (auto simp: ParseIP_def parseIPv6_def parseIPv4_length dest: loop split: option.splits if_splits)
qed

subsection \<open>Masks and prefixes\<close>

text \<open>An address as a number, most significant byte first.\<close>

definition be_nat :: "bytes \<Rightarrow> nat" where
  "be_nat bs = foldl (\<lambda>a b. a * 256 + unat b) 0 bs"

lemma be_nat_acc: "foldl (\<lambda>a b. a * 256 + unat b) n bs = n * 256 ^ length bs + be_nat bs"
proof (induction bs arbitrary: n)
  case Nil
  then show ?case by (simp add: be_nat_def)
next
  case (Cons b bs)
  show ?case
    using Cons [of "n * 256 + unat b"] Cons [of "unat b"]
    by (simp add: be_nat_def algebra_simps)
qed

lemma be_nat_simps [simp]:
  "be_nat [] = 0"
  "be_nat (b # bs) = unat b * 256 ^ length bs + be_nat bs"
  using be_nat_acc [of "unat b" bs] by (simp_all add: be_nat_def)

lemma unat_byte_lt: "unat (b :: u8) < 256"
  using unsigned_less [of b, where ?'a = nat] by simp

lemma be_nat_lt: "be_nat bs < 256 ^ length bs"
proof (induction bs)
  case (Cons b bs)
  have "unat b * 256 ^ length bs + be_nat bs < (unat b + 1) * 256 ^ length bs"
    using Cons.IH by simp
  also have "\<dots> \<le> 256 * 256 ^ length bs"
    using unat_byte_lt [of b] by (intro mult_right_mono) auto
  finally show ?case by simp
qed simp

text \<open>Clearing the low bits of a byte is integer division.\<close>

lemma and_not_mask_eq_iff:
  fixes b c :: "'a::len word"
  shows "b AND NOT (mask n) = c AND NOT (mask n) \<longleftrightarrow> drop_bit n b = drop_bit n c" (is "?l = ?r")
proof
  assume ?l
  then have *: "\<And>m. bit (b AND NOT (mask n)) m = bit (c AND NOT (mask n)) m" by simp
  show ?r
  proof (rule bit_word_eqI)
    fix m
    show "bit (drop_bit n b) m = bit (drop_bit n c) m"
      using * [of "n + m"] by (auto simp: bit_simps dest: bit_imp_le_length)
  qed
next
  assume ?r
  then have *: "\<And>m. bit (drop_bit n b) m = bit (drop_bit n c) m" by simp
  show ?l
  proof (rule bit_word_eqI)
    fix m
    show "bit (b AND NOT (mask n)) m = bit (c AND NOT (mask n)) m"
      using * [of "m - n"] by (cases "n \<le> m") (auto simp: bit_simps)
  qed
qed

lemma drop_bit_255: "k \<le> 8 \<Longrightarrow> drop_bit k (255 :: u8) = mask (8 - k)"
proof -
  assume "k \<le> 8"
  have "drop_bit k (mask 8 :: u8) = mask (8 - k)" by (auto simp add: bit_eq_iff bit_simps)
  moreover have "mask 8 = (255::u8)" by (simp add: mask_eq_exp_minus_1)
  ultimately show ?thesis by metis
qed

lemma drop_bit_eq_iff_unat:
  fixes b c :: u8
  shows "drop_bit n b = drop_bit n c \<longleftrightarrow> unat b div 2 ^ n = unat c div 2 ^ n"
  by (metis unat_drop_bit_eq drop_bit_eq_div word_unat_eq_iff)

lemma byte_and_255: "(b :: u8) AND 255 = b"
proof -
  have "(255 :: u8) = - 1" by simp
  then show ?thesis by (metis and.right_neutral)
qed

lemma byte_mask_eq_iff:
  fixes b c :: u8
  assumes "k \<le> 8"
  shows "b AND NOT (drop_bit k 255) = c AND NOT (drop_bit k 255) \<longleftrightarrow>
         unat b div 2 ^ (8 - k) = unat c div 2 ^ (8 - k)"
  by (simp only: drop_bit_255 [OF assms] and_not_mask_eq_iff drop_bit_eq_iff_unat)

lemma map2_and_cidr_0: "length bs = n \<Longrightarrow> map2 (AND) bs (cidr_bytes n 0) = replicate n 0"
proof (induction bs arbitrary: n)
  case (Cons a bs)
  have "NOT (drop_bit 0 255) = (0 :: u8)" by simp
  then have "a AND NOT (drop_bit 0 255) = 0" by (metis and_zero_eq)
  with Cons show ?case by (cases n) (auto simp del: drop_bit_0)
qed simp

lemma mixed_radix_eq_iff:
  fixes q :: nat
  assumes "r < q" "t < q"
  shows "x * q + r = y * q + t \<longleftrightarrow> x = y \<and> r = t"
proof
  assume eq: "x * q + r = y * q + t"
  then have "(x * q + r) div q = (y * q + t) div q" by simp
  with assms have "x = y" by simp
  with eq show "x = y \<and> r = t" by simp
qed simp

lemma be_nat_Cons_div_low:
  assumes "s \<le> 8 * length bs"
  shows "be_nat (b # bs) div 2 ^ s = unat b * 2 ^ (8 * length bs - s) + be_nat bs div 2 ^ s"
    and "be_nat bs div 2 ^ s < 2 ^ (8 * length bs - s)"
proof -
  have p: "(256 :: nat) ^ length bs = 2 ^ (8 * length bs - s) * 2 ^ s"
    using assms by (simp flip: power_add) (simp add: power_mult)
  have "be_nat (b # bs) = be_nat bs + (unat b * 2 ^ (8 * length bs - s)) * 2 ^ s"
    by (simp add: p)
  then show "be_nat (b # bs) div 2 ^ s = unat b * 2 ^ (8 * length bs - s) + be_nat bs div 2 ^ s"
    by (simp only: div_mult_self1 power_not_zero zero_neq_numeral not_False_eq_True add.commute)
  show "be_nat bs div 2 ^ s < 2 ^ (8 * length bs - s)"
    using be_nat_lt [of bs] p by (simp add: less_mult_imp_div_less)
qed

lemma be_nat_Cons_div_high: "be_nat (b # bs) div 2 ^ (8 * length bs + j) = unat b div 2 ^ j"
proof -
  have p: "(256 :: nat) ^ length bs = 2 ^ (8 * length bs)" by (simp add: power_mult)
  have "be_nat (b # bs) div 2 ^ (8 * length bs) = unat b"
    using be_nat_lt [of bs] by (simp add: p)
  then show ?thesis by (simp add: power_add div_mult2_eq del: be_nat_simps)
qed

theorem masked_eq_iff_div:
  "length cs = length bs \<Longrightarrow> k \<le> 8 * length bs \<Longrightarrow>
     map2 (AND) bs (cidr_bytes (length bs) k) = map2 (AND) cs (cidr_bytes (length bs) k) \<longleftrightarrow>
     be_nat bs div 2 ^ (8 * length bs - k) = be_nat cs div 2 ^ (8 * length bs - k)"
proof (induction bs arbitrary: cs k)
  case (Cons b bs)
  then obtain c cs' where cs: "cs = c # cs'" "length cs' = length bs" by (cases cs) auto
  show ?case
  proof (cases "8 \<le> k")
    case True
    define s where "s = 8 * length bs - (k - 8)"
    have s: "s \<le> 8 * length bs" "8 * length (b # bs) - k = s" using True by (simp_all add: s_def)
    from Cons.IH [OF cs(2), of "k - 8"] Cons.prems(2) True
    have ih: "map2 (AND) bs (cidr_bytes (length bs) (k - 8)) = map2 (AND) cs' (cidr_bytes (length bs) (k - 8))
       \<longleftrightarrow> be_nat bs div 2 ^ s = be_nat cs' div 2 ^ s" by (simp add: s_def)
    show ?thesis
      using mixed_radix_eq_iff [OF be_nat_Cons_div_low(2) [OF s(1)],
          of "be_nat cs' div 2 ^ s" "unat b" "unat c"]
        be_nat_Cons_div_low(1) [of s cs' c] be_nat_Cons_div_low(2) [of s cs']
        be_nat_Cons_div_low(1) [of s bs b] s cs True ih word_unat_eq_iff [of b c]
      by (auto simp: byte_and_255 simp del: be_nat_simps)
  next
    case False
    then have e: "8 * length (b # bs) - k = 8 * length bs + (8 - k)" by simp
    show ?thesis
      unfolding e using False cs be_nat_Cons_div_high [of b bs "8 - k"] be_nat_Cons_div_high [of c cs' "8 - k"]
        byte_mask_eq_iff [of k b c] map2_and_cidr_0 [of bs] map2_and_cidr_0 [of cs']
      by (simp del: be_nat_simps)
  qed
qed simp

text \<open>Membership in a network whose mask is a CIDR mask is membership in an interval.\<close>

lemma div_eq_iff_interval:
  fixes v base :: nat
  assumes "base mod 2 ^ j = 0"
  shows "v div 2 ^ j = base div 2 ^ j \<longleftrightarrow> v \<in> {base ..< base + 2 ^ j}"
proof -
  from assms obtain q where q: "base = 2 ^ j * q" by (auto simp: mod_eq_0_iff_dvd)
  have "v div 2 ^ j = q \<longleftrightarrow> 2 ^ j * q \<le> v \<and> v < 2 ^ j * q + 2 ^ j"
    by (metis add.commute div_nat_eqI dividend_less_times_div mult.commute mult_Suc_right
          times_div_less_eq_dividend zero_less_numeral zero_less_power)
  then show ?thesis by (simp add: q)
qed

lemma and_cidr_prefix:
  "length p = n \<Longrightarrow> k \<le> n \<Longrightarrow> map2 (AND) p (cidr_bytes n (8 * k)) = take k p @ replicate (n - k) 0"
proof (induction k arbitrary: p n)
  case 0
  then show ?case using map2_and_cidr_0 [of p n] by simp
next
  case (Suc k)
  then obtain b bs m where p: "p = b # bs" "n = Suc m" "length bs = m" by (cases p) auto
  with Suc.IH [of bs m] Suc.prems show ?case by (simp add: byte_and_255)
qed

subsection \<open>Printing and parsing dotted addresses\<close>

lemma dtoi_loop_digits:
  "list_all is_digit ds \<Longrightarrow> dec_from n ds < net_big \<Longrightarrow> rest = [] \<or> \<not> is_digit (hd rest) \<Longrightarrow>
     0 < i + length ds \<Longrightarrow> dtoi_loop n i (ds @ rest) = Some (dec_from n ds, i + length ds)"
proof (induction ds arbitrary: n i)
  case Nil
  then show ?case by (cases rest) auto
next
  case (Cons c cs)
  have "n * 10 + digit_val c \<le> dec_from (n * 10 + digit_val c) cs" by (rule dec_from_ge)
  with Cons.prems have "n * 10 + digit_val c < net_big" by simp
  with Cons show ?case by simp
qed

lemma dtoi_Itoa:
  "n < 256 \<Longrightarrow> rest = [] \<or> \<not> is_digit (hd rest) \<Longrightarrow>
     dtoi (strconv_Itoa n @ rest) = Some (n, length (strconv_Itoa n))"
  using dtoi_loop_digits [OF Itoa_digits [of n], of 0 rest 0] 
  by (simp add: dtoi_def dec_from_Itoa net_big_def)

lemma Itoa_hd_not_dot: "\<exists>c cs. strconv_Itoa n = c # cs \<and> is_digit c"
  using Itoa_digits [of n] Itoa_not_Nil [of n] by (cases "strconv_Itoa n") auto

lemma parseIPv4_loop_octet:
  assumes "rest = [] \<or> \<not> is_digit (hd rest)" and "p \<noteq> []"
  shows "parseIPv4_loop (Suc k) p (CHR ''.'' # strconv_Itoa (unat (b :: u8)) @ rest) =
    parseIPv4_loop k (p @ [b]) rest"
  using assms dtoi_Itoa [OF unat_byte_lt [of b] assms(1)] unat_byte_lt [of b]
  by (simp add: Let_def)

lemma parseIPv4_loop_first:
  assumes "rest = [] \<or> \<not> is_digit (hd rest)"
  shows "parseIPv4_loop (Suc k) [] (strconv_Itoa (unat (b :: u8)) @ rest) = parseIPv4_loop k [b] rest"
  using assms dtoi_Itoa [OF unat_byte_lt [of b] assms(1)] unat_byte_lt [of b] Itoa_not_Nil [of "unat b"]
  by (simp add: Let_def)

lemma find_stop: "\<forall>x\<in>set xs. \<not> P x \<Longrightarrow> P y \<Longrightarrow> find P (xs @ y # ys) = Some y"
  by (induction xs) auto

lemma find_dot: "find (\<lambda>c. c = CHR ''.'' \<or> c = CHR '':'') (strconv_Itoa n @ CHR ''.'' # rest) = Some CHR ''.''"
proof -
  have "c \<noteq> CHR ''.'' \<and> c \<noteq> CHR '':''" if "is_digit c" for c
    using that by (auto simp: is_digit_def)
  then show ?thesis using Itoa_digits [of n] by (intro find_stop) (auto simp: list_all_iff)
qed

lemma ParseIP_IP_String_v4: "ParseIP (IP_String [a, b, c, d]) = Some (net_IPv4 a b c d)"
proof -
  have nd: "\<not> is_digit CHR ''.''" by (simp add: is_digit_def)
  have four: "(4 :: nat) = Suc (Suc (Suc (Suc 0)))" by simp
  have "parseIPv4_loop 4 [] (IP_String [a, b, c, d]) = Some [a, b, c, d]"
    unfolding four using parseIPv4_loop_octet [of "[]" "[a, b, c]" 0 d] nd
    by (simp add: IP_String_def parseIPv4_loop_first parseIPv4_loop_octet del: parseIPv4_loop.simps(2))
  then show ?thesis
    by (simp add: ParseIP_def parseIPv4_def net_IPv4_def IP_String_def find_dot)
qed

end
