(* ===== verification/DnsMsg.thy ===== *)
theory DnsMsg
  imports GoNet
begin

text \<open>
  The data model of \<^verbatim>\<open>vendor/github.com/miekg/dns\<close> that the program reads and writes: record headers,
  questions, EDNS0 options, records, messages, and the helpers the program calls on them (\<^verbatim>\<open>Fqdn\<close>,
  \<^verbatim>\<open>SetQuestion\<close>, \<^verbatim>\<open>IsEdns0\<close>, the accessors of \<^verbatim>\<open>OPT\<close>, the text form of a record, the wire form of
  the client-subnet option). A record type other than \<^verbatim>\<open>OPT\<close> and \<^verbatim>\<open>RFC3597\<close> is represented by its
  header and the text its \<^verbatim>\<open>String\<close> method prints after the header. The wire codec of whole messages
  and the zone-file parser are parameters of the components that call them.
\<close>

section \<open>Constants\<close>

definition TypeOPT :: u16 where "TypeOPT = 41"
definition ClassINET :: u16 where "ClassINET = 1"
definition DefaultMsgSize :: u16 where "DefaultMsgSize = 4096"
definition RcodeSuccess :: int where "RcodeSuccess = 0"
definition RcodeFormatError :: int where "RcodeFormatError = 1"
definition RcodeServerFailure :: int where "RcodeServerFailure = 2"
definition OpcodeQuery :: int where "OpcodeQuery = 0"
definition EDNS0SUBNET :: u16 where "EDNS0SUBNET = 8"

lemmas dns_consts = TypeOPT_def ClassINET_def DefaultMsgSize_def RcodeSuccess_def
  RcodeFormatError_def RcodeServerFailure_def OpcodeQuery_def EDNS0SUBNET_def

definition TypeToString :: "(u16 \<times> string) list" where
  "TypeToString =
     [(1, ''A''), (28, ''AAAA''), (18, ''AFSDB''), (255, ''ANY''), (34, ''ATMA''), (258, ''AVC''),
      (252, ''AXFR''), (257, ''CAA''), (60, ''CDNSKEY''), (59, ''CDS''), (37, ''CERT''),
      (5, ''CNAME''), (62, ''CSYNC''), (49, ''DHCID''), (32769, ''DLV''), (39, ''DNAME''),
      (48, ''DNSKEY''), (43, ''DS''), (31, ''EID''), (108, ''EUI48''), (109, ''EUI64''),
      (102, ''GID''), (27, ''GPOS''), (13, ''HINFO''), (55, ''HIP''), (20, ''ISDN''),
      (251, ''IXFR''), (25, ''KEY''), (36, ''KX''), (105, ''L32''), (106, ''L64''), (29, ''LOC''),
      (107, ''LP''), (254, ''MAILA''), (253, ''MAILB''), (7, ''MB''), (3, ''MD''), (4, ''MF''),
      (8, ''MG''), (14, ''MINFO''), (9, ''MR''), (15, ''MX''), (35, ''NAPTR''), (104, ''NID''),
      (32, ''NIMLOC''), (56, ''NINFO''), (2, ''NS''), (47, ''NSEC''), (50, ''NSEC3''),
      (51, ''NSEC3PARAM''), (10, ''NULL''), (30, ''NXT''), (0, ''None''), (61, ''OPENPGPKEY''),
      (41, ''OPT''), (12, ''PTR''), (26, ''PX''), (57, ''RKEY''), (17, ''RP''), (46, ''RRSIG''),
      (21, ''RT''), (65535, ''Reserved''), (24, ''SIG''), (53, ''SMIMEA''), (6, ''SOA''),
      (99, ''SPF''), (33, ''SRV''), (44, ''SSHFP''), (32768, ''TA''), (58, ''TALINK''),
      (249, ''TKEY''), (52, ''TLSA''), (250, ''TSIG''), (16, ''TXT''), (101, ''UID''),
      (100, ''UINFO''), (103, ''UNSPEC''), (256, ''URI''), (19, ''X25''), (23, ''NSAP-PTR'')]"

definition ClassToString :: "(u16 \<times> string) list" where
  "ClassToString =
     [(1, ''IN''), (2, ''CS''), (3, ''CH''), (4, ''HS''), (254, ''NONE''), (255, ''ANY'')]"

definition reverseInt16 :: "(u16 \<times> string) list \<Rightarrow> (string \<times> u16) list" where
  "reverseInt16 m = map (\<lambda>us. (snd us, fst us)) m"

definition StringToType :: "string \<rightharpoonup> u16" where
  "StringToType = map_of (reverseInt16 TypeToString)"

section \<open>Records, questions, messages\<close>

record RR_Header =
  hdr_Name :: string
  hdr_Rrtype :: u16
  hdr_Class :: u16
  hdr_Ttl :: u32
  hdr_Rdlength :: u16

record EDNS0_SUBNET =
  sub_Code :: u16
  sub_Family :: u16
  sub_SourceNetmask :: u8
  sub_SourceScope :: u8
  sub_Address :: net_IP

datatype EDNS0 =
    Opt_NSID string
  | Opt_SUBNET EDNS0_SUBNET
  | Opt_COOKIE string
  | Opt_UL u32
  | Opt_LLQ u16 u16 u16 u64 u32
  | Opt_DAU bytes
  | Opt_DHU bytes
  | Opt_N3U bytes
  | Opt_EXPIRE u32
  | Opt_LOCAL u16 bytes
  | Opt_TCP_KEEPALIVE u16 u16
  | Opt_PADDING bytes

fun EDNS0_Option :: "EDNS0 \<Rightarrow> u16" where
  "EDNS0_Option (Opt_NSID _) = 3"
| "EDNS0_Option (Opt_SUBNET _) = EDNS0SUBNET"
| "EDNS0_Option (Opt_COOKIE _) = 10"
| "EDNS0_Option (Opt_UL _) = 2"
| "EDNS0_Option (Opt_LLQ _ _ _ _ _) = 1"
| "EDNS0_Option (Opt_DAU _) = 5"
| "EDNS0_Option (Opt_DHU _) = 6"
| "EDNS0_Option (Opt_N3U _) = 7"
| "EDNS0_Option (Opt_EXPIRE _) = 9"
| "EDNS0_Option (Opt_LOCAL code _) = code"
| "EDNS0_Option (Opt_TCP_KEEPALIVE _ _) = 11"
| "EDNS0_Option (Opt_PADDING _) = 12"

datatype RR =
    RR_OPT RR_Header "EDNS0 list"
  | RR_RFC3597 RR_Header string
  | RR_Other RR_Header string

fun Header :: "RR \<Rightarrow> RR_Header" where
  "Header (RR_OPT h _) = h"
| "Header (RR_RFC3597 h _) = h"
| "Header (RR_Other h _) = h"

fun set_Header :: "RR_Header \<Rightarrow> RR \<Rightarrow> RR" where
  "set_Header h (RR_OPT _ os) = RR_OPT h os"
| "set_Header h (RR_RFC3597 _ d) = RR_RFC3597 h d"
| "set_Header h (RR_Other _ d) = RR_Other h d"

record Question =
  q_Name :: string
  q_Qtype :: u16
  q_Qclass :: u16

text \<open>\<^verbatim>\<open>MsgHdr\<close> is embedded in \<^verbatim>\<open>Msg\<close>, so its fields are fields of the message.\<close>

record Msg =
  msg_Id :: u16
  msg_Response :: bool
  msg_Opcode :: int
  msg_Authoritative :: bool
  msg_Truncated :: bool
  msg_RecursionDesired :: bool
  msg_RecursionAvailable :: bool
  msg_Zero :: bool
  msg_AuthenticatedData :: bool
  msg_CheckingDisabled :: bool
  msg_Rcode :: int
  msg_Compress :: bool
  msg_Question :: "Question list"
  msg_Answer :: "RR list"
  msg_Ns :: "RR list"
  msg_Extra :: "RR list"

definition new_Msg :: Msg where
  "new_Msg =
     \<lparr>msg_Id = 0, msg_Response = False, msg_Opcode = 0, msg_Authoritative = False,
      msg_Truncated = False, msg_RecursionDesired = False, msg_RecursionAvailable = False,
      msg_Zero = False, msg_AuthenticatedData = False, msg_CheckingDisabled = False, msg_Rcode = 0,
      msg_Compress = False, msg_Question = [], msg_Answer = [], msg_Ns = [], msg_Extra = []\<rparr>"

definition Msg_Copy :: "Msg \<Rightarrow> Msg" where
  "Msg_Copy m =
     new_Msg\<lparr>msg_Id := msg_Id m, msg_Response := msg_Response m, msg_Opcode := msg_Opcode m,
       msg_Authoritative := msg_Authoritative m, msg_Truncated := msg_Truncated m,
       msg_RecursionDesired := msg_RecursionDesired m,
       msg_RecursionAvailable := msg_RecursionAvailable m, msg_Zero := msg_Zero m,
       msg_AuthenticatedData := msg_AuthenticatedData m,
       msg_CheckingDisabled := msg_CheckingDisabled m, msg_Rcode := msg_Rcode m,
       msg_Compress := msg_Compress m, msg_Question := msg_Question m, msg_Answer := msg_Answer m,
       msg_Ns := msg_Ns m, msg_Extra := msg_Extra m\<rparr>"

section \<open>Names and questions\<close>

definition IsFqdn :: "string \<Rightarrow> bool" where
  "IsFqdn s \<longleftrightarrow> (if length s = 0 then False else s ! (length s - 1) = CHR ''.'')"

definition Fqdn :: "string \<Rightarrow> string" where
  "Fqdn s = (if IsFqdn s then s else s @ ''.'')"

text \<open>\<^verbatim>\<open>SetQuestion\<close>; the message identifier that \<^verbatim>\<open>Id()\<close> draws is the first argument.\<close>

definition SetQuestion :: "u16 \<Rightarrow> string \<Rightarrow> u16 \<Rightarrow> Msg \<Rightarrow> Msg" where
  "SetQuestion rid z t m =
     m\<lparr>msg_Id := rid, msg_RecursionDesired := True,
       msg_Question := [\<lparr>q_Name = z, q_Qtype = t, q_Qclass = ClassINET\<rparr>]\<rparr>"

section \<open>The OPT record\<close>

definition new_OPT_header :: RR_Header where
  "new_OPT_header = \<lparr>hdr_Name = [], hdr_Rrtype = 0, hdr_Class = 0, hdr_Ttl = 0, hdr_Rdlength = 0\<rparr>"

definition OPT_UDPSize :: "RR_Header \<Rightarrow> u16" where
  "OPT_UDPSize h = hdr_Class h"

definition OPT_SetUDPSize :: "u16 \<Rightarrow> RR_Header \<Rightarrow> RR_Header" where
  "OPT_SetUDPSize sz h = h\<lparr>hdr_Class := sz\<rparr>"

definition OPT_DO :: u32 where
  "OPT_DO = push_bit 15 1"

definition OPT_Do :: "RR_Header \<Rightarrow> bool" where
  "OPT_Do h \<longleftrightarrow> hdr_Ttl h AND OPT_DO = OPT_DO"

definition OPT_SetDo :: "bool \<Rightarrow> RR_Header \<Rightarrow> RR_Header" where
  "OPT_SetDo b h =
     (if b then h\<lparr>hdr_Ttl := hdr_Ttl h OR OPT_DO\<rparr> else h\<lparr>hdr_Ttl := hdr_Ttl h AND NOT OPT_DO\<rparr>)"

definition OPT_Version :: "RR_Header \<Rightarrow> u8" where
  "OPT_Version h = ucast (drop_bit 16 (hdr_Ttl h AND 0x00FF0000))"

text \<open>
  \<^verbatim>\<open>IsEdns0\<close> searches the additional section from its end. The result carries the position of the
  record, since the callers update it in place; a record of type 41 that is not an \<^verbatim>\<open>*OPT\<close> makes
  the type assertion panic.
\<close>

definition IsEdns0 :: "Msg \<Rightarrow> (nat \<times> RR_Header \<times> EDNS0 list) option go" where
  "IsEdns0 m =
     (case last_index (\<lambda>rr. hdr_Rrtype (Header rr) = TypeOPT) (msg_Extra m) of
        None \<Rightarrow> Ret None
      | Some i \<Rightarrow>
          (case msg_Extra m ! i of
             RR_OPT h os \<Rightarrow> Ret (Some (i, h, os))
           | _ \<Rightarrow> Panic ''interface conversion: dns.RR is not *dns.OPT''))"

text \<open>The first option of code 8, with the type assertion the callers apply to it.\<close>

fun find_SUBNET :: "EDNS0 list \<Rightarrow> EDNS0_SUBNET option go" where
  "find_SUBNET [] = Ret None"
| "find_SUBNET (e # es) =
     (if EDNS0_Option e = EDNS0SUBNET
      then (case e of Opt_SUBNET s \<Rightarrow> Ret (Some s)
            | _ \<Rightarrow> Panic ''interface conversion: dns.EDNS0 is not *dns.EDNS0_SUBNET'')
      else find_SUBNET es)"

section \<open>Text form\<close>

abbreviation backslash :: char where "backslash \<equiv> CHR 0x5C"
abbreviation tab :: char where "tab \<equiv> CHR 0x09"

definition dddToByte :: "char \<Rightarrow> char \<Rightarrow> char \<Rightarrow> char" where
  "dddToByte a b c = char_of (digit_val a * 100 + digit_val b * 10 + digit_val c)"

definition appendByte :: "char \<Rightarrow> string" where
  "appendByte b =
     (let bufs = strconv_Itoa (of_char b) in backslash # replicate (3 - length bufs) CHR ''0'' @ bufs)"

definition appendTXTStringByte :: "char \<Rightarrow> string" where
  "appendTXTStringByte b =
     (if b = CHR 0x22 \<or> b = backslash then [backslash, b]
      else if (of_char b :: nat) < 32 \<or> (of_char b :: nat) > 126 then appendByte b
      else [b])"

definition appendDomainNameByte :: "char \<Rightarrow> string" where
  "appendDomainNameByte b =
     (if b \<in> {CHR ''.'', CHR '' '', CHR 0x27, CHR ''@'', CHR '';'', CHR ''('', CHR '')''}
      then [backslash, b] else appendTXTStringByte b)"

text \<open>\<^verbatim>\<open>nextByte\<close> at the head of the remaining string: the byte and how many characters it takes.\<close>

fun nextByte :: "string \<Rightarrow> char \<times> nat" where
  "nextByte [] = (CHR 0x00, 0)"
| "nextByte (c # cs) =
     (if c \<noteq> backslash then (c, 1)
      else (case cs of
              [] \<Rightarrow> (CHR 0x00, 0)
            | d # ds \<Rightarrow>
                (case ds of
                   e # f # gs \<Rightarrow>
                     if is_digit d \<and> is_digit e \<and> is_digit f then (dddToByte d e f, 4) else (d, 2)
                 | _ \<Rightarrow> (d, 2))))"

lemma nextByte_bound: "snd (nextByte s) \<le> length s"
  by (induction s rule: nextByte.induct) (auto split: list.splits)

function sprintName :: "string \<Rightarrow> string" where
  "sprintName [] = []"
| "sprintName (c # cs) =
     (if cs \<noteq> [] \<and> c = backslash \<and> hd cs = CHR ''.'' then c # hd cs # sprintName (tl cs)
      else if snd (nextByte (c # cs)) = 0 then sprintName cs
      else (if fst (nextByte (c # cs)) = CHR ''.'' then [fst (nextByte (c # cs))]
            else appendDomainNameByte (fst (nextByte (c # cs))))
           @ sprintName (drop (snd (nextByte (c # cs))) (c # cs)))"
  by pat_completeness auto
termination
  by (relation "measure length") auto

definition Type_String :: "u16 \<Rightarrow> string" where
  "Type_String t =
     (case map_of TypeToString t of Some s \<Rightarrow> s | None \<Rightarrow> ''TYPE'' @ strconv_Itoa (unat t))"

definition Class_String :: "u16 \<Rightarrow> string" where
  "Class_String c =
     (case map_of ClassToString c of
        Some s \<Rightarrow> if StringToType s = None then s else ''CLASS'' @ strconv_Itoa (unat c)
      | None \<Rightarrow> ''CLASS'' @ strconv_Itoa (unat c))"

definition RR_Header_String :: "RR_Header \<Rightarrow> string" where
  "RR_Header_String h =
     (if hdr_Rrtype h = TypeOPT then '';'' else []) @ sprintName (hdr_Name h) @ [tab]
     @ strconv_Itoa (unat (hdr_Ttl h)) @ [tab] @ Class_String (hdr_Class h) @ [tab]
     @ Type_String (hdr_Rrtype h) @ [tab]"

definition rfc3597Header :: "RR_Header \<Rightarrow> string" where
  "rfc3597Header h =
     sprintName (hdr_Name h) @ [tab] @ strconv_Itoa (unat (hdr_Ttl h)) @ [tab]
     @ ''CLASS'' @ strconv_Itoa (unat (hdr_Class h)) @ [tab]
     @ ''TYPE'' @ strconv_Itoa (unat (hdr_Rrtype h)) @ [tab]"

definition RFC3597_text :: "string \<Rightarrow> string" where
  "RFC3597_text d = backslash # ''# '' @ strconv_Itoa (length d div 2) @ '' '' @ d"

text \<open>
  \<^verbatim>\<open>OPT.String\<close> starts with a newline and prints a pseudo section; how the options print is the
  parameter \<open>opt_text\<close>.
\<close>

definition OPT_String :: "(EDNS0 \<Rightarrow> string) \<Rightarrow> RR_Header \<Rightarrow> EDNS0 list \<Rightarrow> string" where
  "OPT_String opt_text h os =
     [CHR 0x0A] @ '';; OPT PSEUDOSECTION:'' @ [CHR 0x0A] @ ''; EDNS: version ''
     @ strconv_Itoa (unat (OPT_Version h)) @ ''; ''
     @ (if OPT_Do h then ''flags: do; '' else ''flags: ; '') @ ''udp: ''
     @ strconv_Itoa (unat (OPT_UDPSize h)) @ concat (map opt_text os)"

fun RR_String :: "(EDNS0 \<Rightarrow> string) \<Rightarrow> RR \<Rightarrow> string" where
  "RR_String opt_text (RR_OPT h os) = OPT_String opt_text h os"
| "RR_String opt_text (RR_RFC3597 h d) = rfc3597Header h @ RFC3597_text d"
| "RR_String opt_text (RR_Other h txt) = RR_Header_String h @ txt"

section \<open>Wire form of the client-subnet option\<close>

text \<open>\<^verbatim>\<open>binary.BigEndian.PutUint16\<close> and \<^verbatim>\<open>Uint16\<close>.\<close>

definition PutUint16 :: "u16 \<Rightarrow> bytes" where
  "PutUint16 v = [ucast (drop_bit 8 v), ucast v]"

definition BE_Uint16 :: "u8 \<Rightarrow> u8 \<Rightarrow> u16" where
  "BE_Uint16 a b = ucast b OR push_bit 8 (ucast a)"

definition subnet_pack :: "EDNS0_SUBNET \<Rightarrow> string + bytes" where
  "subnet_pack e =
     (let b = PutUint16 (sub_Family e) @ [sub_SourceNetmask e, sub_SourceScope e];
          needLength = (sub_SourceNetmask e + 8 - 1) div 8
      in if sub_Family e = 0 then
           (if sub_SourceNetmask e \<noteq> 0 then Inl ''dns: bad address family'' else Inr b)
         else if sub_Family e = 1 then
           (if sub_SourceNetmask e > 32 then Inl ''dns: bad netmask''
            else case Option.bind (sub_Address e) To4 of
                   None \<Rightarrow> Inl ''dns: bad address''
                 | Some ip \<Rightarrow>
                     Inr (b @ take (unat needLength)
                                (map2 (AND) ip (cidr_bytes 4 (unat (sub_SourceNetmask e))))))
         else if sub_Family e = 2 then
           (if sub_SourceNetmask e > 128 then Inl ''dns: bad netmask''
            else case sub_Address e of
                   None \<Rightarrow> Inl ''dns: bad address''
                 | Some ip \<Rightarrow>
                     if length ip \<noteq> 16 then Inl ''dns: bad address''
                     else Inr (b @ take (unat needLength)
                                (map2 (AND) ip (cidr_bytes 16 (unat (sub_SourceNetmask e))))))
         else Inl ''dns: bad address family'')"

text \<open>The address bytes of an option, padded with zeros up to the length of the family.\<close>

definition pad_addr :: "nat \<Rightarrow> bytes \<Rightarrow> bytes" where
  "pad_addr n b = take n (drop 4 b) @ replicate (n - length (drop 4 b)) 0"

definition subnet_unpack :: "bytes \<Rightarrow> string + EDNS0_SUBNET" where
  "subnet_unpack b =
     (if length b < 4 then Inl ''dns: buffer size too small''
      else let fam = BE_Uint16 (b ! 0) (b ! 1);
               e = \<lparr>sub_Code = 0, sub_Family = fam, sub_SourceNetmask = b ! 2, sub_SourceScope = b ! 3,
                    sub_Address = None\<rparr>
           in if fam = 0 then
                (if b ! 2 \<noteq> 0 then Inl ''dns: bad address family''
                 else Inr (e\<lparr>sub_Address := Some (net_IPv4 0 0 0 0)\<rparr>))
              else if fam = 1 then
                (if b ! 2 > 32 \<or> b ! 3 > 32 then Inl ''dns: bad netmask''
                 else Inr (e\<lparr>sub_Address := Some (v4InV6Prefix @ pad_addr 4 b)\<rparr>))
              else if fam = 2 then
                (if b ! 2 > 128 \<or> b ! 3 > 128 then Inl ''dns: bad netmask''
                 else Inr (e\<lparr>sub_Address := Some (pad_addr 16 b)\<rparr>))
              else Inl ''dns: bad address family'')"

section \<open>Lemmas\<close>

subsection \<open>Names\<close>

lemma IsFqdn_iff: "IsFqdn s \<longleftrightarrow> s \<noteq> [] \<and> last s = CHR ''.''"
  by (auto simp: IsFqdn_def last_conv_nth)

lemma IsFqdn_Fqdn [simp]: "IsFqdn (Fqdn s)"
  by (simp add: Fqdn_def IsFqdn_iff)

lemma Fqdn_idem [simp]: "Fqdn (Fqdn s) = Fqdn s"
  using IsFqdn_Fqdn [of s] by (simp add: Fqdn_def [of "Fqdn s"])

lemma Fqdn_not_Nil [simp]: "Fqdn s \<noteq> []"
  by (auto simp: Fqdn_def IsFqdn_def)

lemma is_ascii_dot [simp]: "is_ascii CHR ''.''"
  by (simp add: is_ascii_def)

lemma IsFqdn_map_lower: "IsFqdn (map lower_char s) = IsFqdn s"
  by (auto simp: IsFqdn_iff last_map)

lemma map_lower_Fqdn: "map lower_char (Fqdn s) = Fqdn (map lower_char s)"
  by (auto simp: Fqdn_def IsFqdn_map_lower lower_char_def)

lemma ascii_Fqdn [simp]: "list_all is_ascii (Fqdn s) = list_all is_ascii s"
  by (auto simp: Fqdn_def)

lemma Msg_Copy_id [simp]: "Msg_Copy m = m"
  by (simp add: Msg_Copy_def new_Msg_def)

subsection \<open>The OPT record\<close>

lemma OPT_Do_SetDo [simp]: "OPT_Do (OPT_SetDo b h) = b"
proof -
  have nz: "OPT_DO \<noteq> 0" by (simp add: OPT_DO_def)
  have "(x OR d) AND d = d" for x d :: u32 by (auto simp: bit_eq_iff bit_simps)
  moreover have "(x AND NOT d) AND d = 0" for x d :: u32 by (simp add: bit_eq_iff bit_simps)
  ultimately show ?thesis using nz by (simp add: OPT_Do_def OPT_SetDo_def)
qed

lemma OPT_simps [simp]:
  "OPT_UDPSize (OPT_SetUDPSize sz h) = sz"
  "OPT_UDPSize (OPT_SetDo b h) = OPT_UDPSize h"
  "hdr_Rrtype (OPT_SetUDPSize sz h) = hdr_Rrtype h"
  "hdr_Rrtype (OPT_SetDo b h) = hdr_Rrtype h"
  "hdr_Name (OPT_SetUDPSize sz h) = hdr_Name h"
  "hdr_Name (OPT_SetDo b h) = hdr_Name h"
  "hdr_Ttl (OPT_SetUDPSize sz h) = hdr_Ttl h"
  by (simp_all add: OPT_UDPSize_def OPT_SetUDPSize_def OPT_SetDo_def)

text \<open>Every record of type 41 is an \<^verbatim>\<open>*OPT\<close> and every option of code 8 an \<^verbatim>\<open>*EDNS0_SUBNET\<close>.\<close>

definition opt_typed :: "RR \<Rightarrow> bool" where
  "opt_typed rr \<longleftrightarrow>
     (case rr of
        RR_OPT h os \<Rightarrow> hdr_Rrtype h = TypeOPT \<and>
          list_all (\<lambda>e. EDNS0_Option e = EDNS0SUBNET \<longrightarrow> (\<exists>s. e = Opt_SUBNET s)) os
      | RR_RFC3597 h _ \<Rightarrow> hdr_Rrtype h \<noteq> TypeOPT
      | RR_Other h _ \<Rightarrow> hdr_Rrtype h \<noteq> TypeOPT)"

definition msg_typed :: "Msg \<Rightarrow> bool" where
  "msg_typed m \<longleftrightarrow> list_all opt_typed (msg_Extra m)"

lemma IsEdns0_typed: "msg_typed m \<Longrightarrow> no_panic (IsEdns0 m)"
  by (auto simp: IsEdns0_def msg_typed_def list_all_length opt_typed_def no_panic_def
      dest!: last_index_SomeD split: option.splits RR.splits)

lemma IsEdns0_Some:
  "IsEdns0 m = Ret (Some (i, h, os)) \<Longrightarrow>
     i < length (msg_Extra m) \<and> msg_Extra m ! i = RR_OPT h os \<and> hdr_Rrtype h = TypeOPT"
  by (auto simp: IsEdns0_def dest!: last_index_SomeD split: option.splits RR.splits)

lemma IsEdns0_None:
  "IsEdns0 m = Ret None \<longleftrightarrow> (\<forall>rr\<in>set (msg_Extra m). hdr_Rrtype (Header rr) \<noteq> TypeOPT)"
proof (cases "last_index (\<lambda>rr. hdr_Rrtype (Header rr) = TypeOPT) (msg_Extra m)")
  case None
  then show ?thesis by (simp add: IsEdns0_def) (simp add: last_index_None)
next
  case (Some i)
  then have "\<exists>rr\<in>set (msg_Extra m). hdr_Rrtype (Header rr) = TypeOPT"
    by (auto dest!: last_index_SomeD)
  moreover from Some have "IsEdns0 m \<noteq> Ret None"
    by (simp add: IsEdns0_def split: RR.splits)
  ultimately show ?thesis by blast
qed

lemma find_SUBNET_typed:
  "list_all (\<lambda>e. EDNS0_Option e = EDNS0SUBNET \<longrightarrow> (\<exists>s. e = Opt_SUBNET s)) os \<Longrightarrow>
     no_panic (find_SUBNET os)"
  by (induction os) auto

lemma find_SUBNET_None:
  "find_SUBNET os = Ret None \<longleftrightarrow> (\<forall>e\<in>set os. EDNS0_Option e \<noteq> EDNS0SUBNET)"
  by (induction os) (auto split: EDNS0.splits)

lemma find_SUBNET_append_Some: "find_SUBNET os = Ret (Some s) \<Longrightarrow> find_SUBNET (os @ ys) = Ret (Some s)"
  by (induction os) (auto split: if_splits EDNS0.splits)

lemma find_SUBNET_append_None: "find_SUBNET os = Ret None \<Longrightarrow> find_SUBNET (os @ ys) = find_SUBNET ys"
  by (induction os) (auto split: if_splits EDNS0.splits)

subsection \<open>The client-subnet option on the wire\<close>

lemma PutUint16_BE: "BE_Uint16 (ucast (drop_bit 8 v)) (ucast v) = v"
  by (auto simp: BE_Uint16_def bit_eq_iff bit_simps)

lemma need_length: "nm \<le> (128 :: u8) \<Longrightarrow> unat ((nm + 8 - 1) div 8) = (unat nm + 7) div 8"
proof -
  assume a: "nm \<le> (128 :: u8)"
  then have "unat nm \<le> 128" by (simp add: word_le_nat_alt)
  then have n7: "unat (nm + 7) = unat nm + 7" by (simp add: unat_word_ariths)
  have e: "nm + 8 - 1 = nm + 7" and u8: "unat (8 :: u8) = 8" by simp_all
  show ?thesis unfolding e unat_div u8 n7 ..
qed

lemma masked_tail_zero:
  "length bs = n \<Longrightarrow>
     drop ((k + 7) div 8) (map2 (AND) bs (cidr_bytes n k)) = replicate (n - (k + 7) div 8) 0"
proof (induction bs arbitrary: n k)
  case (Cons b bs)
  then obtain m where n: "n = Suc m" "length bs = m" by (cases n) auto
  consider "8 \<le> k" | "0 < k" "k < 8" | "k = 0" by linarith
  then show ?case
  proof cases
    case 1
    then obtain j where k: "k = j + 8" by (metis le_add_diff_inverse2)
    then have "(k + 7) div 8 = Suc ((j + 7) div 8)" by simp
    with Cons.IH [OF n(2), of j] n k show ?thesis by simp
  next
    case 2
    then have "(k + 7) div 8 = 1" by linarith
    with 2 n show ?thesis by (simp add: map2_and_cidr_0)
  next
    case 3
    with map2_and_cidr_0 [OF Cons.prems] show ?thesis by (simp del: cidr_bytes.simps)
  qed
qed simp

lemma masked_split:
  assumes "length bs = n"
  shows "take ((k + 7) div 8) (map2 (AND) bs (cidr_bytes n k)) @ replicate (n - (k + 7) div 8) 0 =
    map2 (AND) bs (cidr_bytes n k)"
  using masked_tail_zero [OF assms, of k] by (metis append_take_drop_id)

lemma masked_idem: "map2 (AND) (map2 (AND) bs m) m = map2 (AND) bs (m :: bytes)"
proof (induction bs arbitrary: m)
  case (Cons b bs)
  then show ?case by (cases m) (auto simp: and.assoc)
qed simp

text \<open>Which options can be packed, and what comes back: the address cut to its prefix.\<close>

definition subnet_ok :: "EDNS0_SUBNET \<Rightarrow> bool" where
  "subnet_ok e \<longleftrightarrow>
     (if sub_Family e = 0 then sub_SourceNetmask e = 0
      else if sub_Family e = 1
      then sub_SourceNetmask e \<le> 32 \<and> sub_SourceScope e \<le> 32 \<and> Option.bind (sub_Address e) To4 \<noteq> None
      else if sub_Family e = 2
      then sub_SourceNetmask e \<le> 128 \<and> sub_SourceScope e \<le> 128 \<and>
           (case sub_Address e of None \<Rightarrow> False | Some ip \<Rightarrow> length ip = 16)
      else False)"

definition subnet_norm :: "EDNS0_SUBNET \<Rightarrow> EDNS0_SUBNET" where
  "subnet_norm e =
     e\<lparr>sub_Code := 0,
       sub_Address :=
         (if sub_Family e = 0 then Some (net_IPv4 0 0 0 0)
          else if sub_Family e = 1
          then map_option (\<lambda>ip. v4InV6Prefix @ map2 (AND) ip (cidr_bytes 4 (unat (sub_SourceNetmask e))))
                 (Option.bind (sub_Address e) To4)
          else map_option (\<lambda>ip. map2 (AND) ip (cidr_bytes 16 (unat (sub_SourceNetmask e))))
                 (sub_Address e))\<rparr>"

lemma pad_addr_packed:
  assumes "length ip = n" and "(k + 7) div 8 \<le> n" and "length hdr = 4"
  shows "pad_addr n (hdr @ take ((k + 7) div 8) (map2 (AND) ip (cidr_bytes n k))) =
    map2 (AND) ip (cidr_bytes n k)"
  using assms masked_split [OF assms(1), of k] by (simp add: pad_addr_def)

lemma subnet_round_trip:
  assumes "subnet_ok e" and "subnet_pack e = Inr b"
  shows "subnet_unpack b = Inr (subnet_norm e)"
proof -
  let ?nm = "sub_SourceNetmask e"
  let ?h = "PutUint16 (sub_Family e) @ [?nm, sub_SourceScope e]"
  have h4: "length ?h = 4" by (simp add: PutUint16_def)
  consider "sub_Family e = 0" | "sub_Family e = 1" | "sub_Family e = 2"
    using assms(1) by (auto simp: subnet_ok_def split: if_splits)
  then show ?thesis
  proof cases
    case 1
    with assms show ?thesis
      by (auto simp: subnet_ok_def subnet_pack_def subnet_unpack_def subnet_norm_def PutUint16_def
          BE_Uint16_def Let_def split: if_splits)
  next
    case 2
    with assms(1) obtain ip where ip: "Option.bind (sub_Address e) To4 = Some ip" "length ip = 4"
      and nm: "?nm \<le> 32" "sub_SourceScope e \<le> 32"
      by (auto simp: subnet_ok_def To4_length bind_eq_Some_conv)
    have "?nm \<le> 128" using nm(1) by (rule order_trans) simp
    note need = need_length [OF this]
    have b: "b = ?h @ take ((unat ?nm + 7) div 8) (map2 (AND) ip (cidr_bytes 4 (unat ?nm)))"
      using assms(2) 2 ip nm need by (auto simp: subnet_pack_def Let_def split: if_splits)
    have "(unat ?nm + 7) div 8 \<le> 4" using nm(1) by (simp add: word_le_nat_alt)
    note pad = pad_addr_packed [OF ip(2) this h4]
    show ?thesis
      using 2 nm ip pad by (simp add: subnet_unpack_def subnet_norm_def b PutUint16_def
          BE_Uint16_def Let_def not_less [symmetric])
  next
    case 3
    with assms(1) obtain ip where ip: "sub_Address e = Some ip" "length ip = 16"
      and nm: "?nm \<le> 128" "sub_SourceScope e \<le> 128"
      by (auto simp: subnet_ok_def split: option.splits)
    note need = need_length [OF nm(1)]
    have b: "b = ?h @ take ((unat ?nm + 7) div 8) (map2 (AND) ip (cidr_bytes 16 (unat ?nm)))"
      using assms(2) 3 ip nm need by (auto simp: subnet_pack_def Let_def split: if_splits)
    have "(unat ?nm + 7) div 8 \<le> 16" using nm(1) by (simp add: word_le_nat_alt)
    note pad = pad_addr_packed [OF ip(2) this h4]
    show ?thesis
      using 3 nm ip pad by (simp add: subnet_unpack_def subnet_norm_def b PutUint16_def
          BE_Uint16_def Let_def not_less [symmetric])
  qed
qed

interpretation subnet: wire_codec subnet_pack subnet_unpack subnet_ok subnet_norm
proof
  fix e
  assume ok: "subnet_ok e"
  then show "\<exists>b. subnet_pack e = Inr b"
    by (auto simp: subnet_ok_def subnet_pack_def Let_def not_less split: if_splits option.splits)
  show "subnet_pack (subnet_norm e) = subnet_pack e"
    using ok by (auto simp: subnet_ok_def subnet_pack_def subnet_norm_def Let_def masked_idem
        To4_length bind_eq_Some_conv split: if_splits option.splits)
next
  fix e b
  assume "subnet_ok e" "subnet_pack e = Inr b"
  then show "subnet_unpack b = Inr (subnet_norm e)" by (rule subnet_round_trip)
qed

subsection \<open>Messages on the wire\<close>

text \<open>
  What \<^verbatim>\<open>Unpack\<close> makes of a packed message is not quite the message: the headers have the length of their data on the
  wire, a subnet option has no code and an address cut to its prefix in sixteen bytes, options for which \<^verbatim>\<open>unpackDataOpt\<close> has no
  case are local ones, and whether to compress is not part of the message.
\<close>

fun wire_option :: "EDNS0 \<Rightarrow> EDNS0 \<Rightarrow> bool" where
  "wire_option (Opt_SUBNET s) e \<longleftrightarrow> e = Opt_SUBNET (subnet_norm s)"
| "wire_option (Opt_EXPIRE _) e \<longleftrightarrow> (\<exists>b. e = Opt_LOCAL 9 b)"
| "wire_option (Opt_TCP_KEEPALIVE _ _) e \<longleftrightarrow> (\<exists>b. e = Opt_LOCAL 11 b)"
| "wire_option opt e \<longleftrightarrow> e = opt"

fun wire_RR :: "RR \<Rightarrow> RR \<Rightarrow> bool" where
  "wire_RR (RR_OPT h os) rr \<longleftrightarrow> (\<exists>n os'. rr = RR_OPT (h\<lparr>hdr_Rdlength := n\<rparr>) os' \<and> list_all2 wire_option os os')"
| "wire_RR (RR_RFC3597 h d) rr \<longleftrightarrow> (\<exists>n. rr = RR_RFC3597 (h\<lparr>hdr_Rdlength := n\<rparr>) d)"
| "wire_RR (RR_Other h d) rr \<longleftrightarrow> (\<exists>n. rr = RR_Other (h\<lparr>hdr_Rdlength := n\<rparr>) d)"

definition wire_Msg :: "Msg \<Rightarrow> Msg \<Rightarrow> bool" where
  "wire_Msg m m' \<longleftrightarrow>
     m = m'\<lparr>msg_Compress := msg_Compress m, msg_Answer := msg_Answer m, msg_Ns := msg_Ns m, msg_Extra := msg_Extra m\<rparr> \<and>
     list_all2 wire_RR (msg_Answer m) (msg_Answer m') \<and> list_all2 wire_RR (msg_Ns m) (msg_Ns m') \<and>
     list_all2 wire_RR (msg_Extra m) (msg_Extra m')"

lemma wire_Msg_head:
  "wire_Msg m m' \<Longrightarrow> msg_Id m' = msg_Id m \<and> msg_Opcode m' = msg_Opcode m \<and> msg_Question m' = msg_Question m"
  by (cases m; cases m') (simp add: wire_Msg_def)

lemma wire_Msg_Id: "wire_Msg m m' \<Longrightarrow> wire_Msg (m\<lparr>msg_Id := x\<rparr>) (m'\<lparr>msg_Id := x\<rparr>)"
  by (cases m; cases m') (simp add: wire_Msg_def)

subsection \<open>Text form\<close>

text \<open>Printed names, classes and types hold no tab, so the fifth field of the text is the record data.\<close>

lemma no_tab_digits: "tab \<notin> set (strconv_Itoa n)"
proof -
  have "\<not> is_digit tab" by (simp add: is_digit_def)
  then show ?thesis using Itoa_digits [of n] by (auto simp: list_all_iff)
qed

lemma no_tab_appendByte: "tab \<notin> set (appendByte b)"
  using no_tab_digits [of "of_char b"] by (simp add: appendByte_def Let_def set_replicate_conv_if)

lemma no_tab_appendTXTStringByte: "tab \<notin> set (appendTXTStringByte b)"
proof (cases "b = tab")
  case True
  then have "appendTXTStringByte b = appendByte b" by (simp add: appendTXTStringByte_def)
  then show ?thesis by (simp add: no_tab_appendByte)
next
  case False
  then show ?thesis using no_tab_appendByte [of b] by (simp add: appendTXTStringByte_def)
qed

lemma no_tab_appendDomainNameByte: "tab \<notin> set (appendDomainNameByte b)"
  using no_tab_appendTXTStringByte [of b] by (auto simp: appendDomainNameByte_def)

lemma no_tab_sprintName: "tab \<notin> set (sprintName s)"
  by (induction s rule: sprintName.induct) (auto simp: no_tab_appendDomainNameByte)

lemma no_tab_TypeToString: "map_of TypeToString t = Some s \<Longrightarrow> tab \<notin> set s"
proof -
  assume "map_of TypeToString t = Some s"
  then have "s \<in> snd ` set TypeToString" by (force dest: map_of_SomeD)
  moreover have "list_all (\<lambda>us. tab \<notin> set (snd us)) TypeToString" by code_simp
  ultimately show ?thesis by (auto simp: list_all_iff)
qed

lemma no_tab_Type_String: "tab \<notin> set (Type_String t)"
  by (auto simp: Type_String_def no_tab_digits dest: no_tab_TypeToString split: option.splits)

lemma no_tab_Class_String: "tab \<notin> set (Class_String c)"
  by (auto simp: Class_String_def ClassToString_def no_tab_digits split: option.splits if_splits)

lemma SplitN_field: "c \<notin> set a \<Longrightarrow> strings_SplitN c (Suc (Suc n)) (a @ c # b) = a # strings_SplitN c (Suc n) b"
proof -
  assume "c \<notin> set a"
  then have "\<forall>x\<in>set a. x \<noteq> c" by auto
  then have "takeWhile (\<lambda>x. x \<noteq> c) (a @ c # b) = a" "dropWhile (\<lambda>x. x \<noteq> c) (a @ c # b) = c # b"
    by (simp_all add: takeWhile_append2 dropWhile_append2)
  then show ?thesis by simp
qed

lemma SplitN_five_fields:
  assumes "c \<notin> set f1" "c \<notin> set f2" "c \<notin> set f3" "c \<notin> set f4"
  shows "strings_SplitN c 5 (f1 @ [c] @ f2 @ [c] @ f3 @ [c] @ f4 @ [c] @ f5) = [f1, f2, f3, f4, f5]"
proof -
  have five: "(5 :: nat) = Suc (Suc (Suc (Suc (Suc 0))))" by simp
  show ?thesis unfolding five using assms
    by (simp add: SplitN_field del: strings_SplitN.simps(3))
qed

section \<open>Properties\<close>

lemma subnet_pack_length:
  assumes "subnet_ok e" and "subnet_pack e = Inr b"
  shows "length b = 4 + (unat (sub_SourceNetmask e) + 7) div 8"
proof (cases "sub_Family e = 0")
  case True
  with assms show ?thesis by (auto simp: subnet_ok_def subnet_pack_def PutUint16_def Let_def)
next
  case False
  then have nm: "sub_SourceNetmask e \<le> 128"
    using assms(1) order_trans [of "sub_SourceNetmask e" 32 128] by (auto simp: subnet_ok_def split: if_splits)
  have "unat (sub_SourceNetmask e) \<le> 32" if "sub_SourceNetmask e \<le> 32" using that by (simp add: word_le_nat_alt)
  moreover have "unat (sub_SourceNetmask e) \<le> 128" using nm by (simp add: word_le_nat_alt)
  ultimately show ?thesis
    using assms False need_length [OF nm]
    by (auto simp: subnet_ok_def subnet_pack_def PutUint16_def Let_def To4_length bind_eq_Some_conv
        split: if_splits option.splits)
qed

text \<open>C29: A client-subnet option with a mask and a scope that fit its family always packs, into the least number of
  address bytes that hold the prefix; it unpacks to the same option with the address cut to the prefix, which packs
  to the same bytes.\<close>

theorem subnet_wire_round_trip:
  assumes "subnet_ok e"
  shows "\<exists>b. subnet_pack e = Inr b \<and> length b = 4 + (unat (sub_SourceNetmask e) + 7) div 8 \<and>
    subnet_unpack b = Inr (subnet_norm e) \<and> subnet_pack (subnet_norm e) = Inr b"
  using subnet.round_trip [OF assms] subnet_pack_length [OF assms] subnet.enc_norm [OF assms] by metis

theorem subnet_wire_round_trip_witness:
  "\<exists>b e. subnet_pack \<lparr>sub_Code = 8, sub_Family = 1, sub_SourceNetmask = 20, sub_SourceScope = 0, sub_Address = Some [192, 0, 47, 255]\<rparr> = Inr b \<and>
     length b = 7 \<and> subnet_unpack b = Inr e \<and> sub_SourceNetmask e = 20"
  using subnet_wire_round_trip [of "\<lparr>sub_Code = 8, sub_Family = 1, sub_SourceNetmask = 20, sub_SourceScope = 0, sub_Address = Some [192, 0, 47, 255]\<rparr>"]
  by (auto simp: subnet_ok_def To4_def subnet_norm_def)

end
