(* ===== verification/Http.thy ===== *)
theory Http
  imports GoStrings
begin

text \<open>
  Go's \<^verbatim>\<open>net/http\<close> as the handlers see it: the request (method, header, form values, body, remote
  address) and the response writer. Writing the header the first time freezes status and header
  fields; the first write of a body freezes them with status 200.
\<close>

record http_request =
  r_Method :: string
  r_Header :: "string \<Rightarrow> string"
  r_Form :: "string \<Rightarrow> string"
  r_Body :: "string + bytes"
  r_RemoteAddr :: string

definition UserAgent :: "http_request \<Rightarrow> string" where
  "UserAgent r = r_Header r ''User-Agent''"

type_synonym http_header = "string \<rightharpoonup> string"

record http_writer =
  w_Header :: http_header
  w_Sent :: "(nat \<times> http_header) option"
  w_Body :: bytes

definition new_writer :: http_writer where
  "new_writer = \<lparr>w_Header = Map.empty, w_Sent = None, w_Body = []\<rparr>"

definition Header_Set :: "string \<Rightarrow> string \<Rightarrow> http_writer \<Rightarrow> http_writer" where
  "Header_Set k v w = w\<lparr>w_Header := (w_Header w)(k \<mapsto> v)\<rparr>"

definition WriteHeader :: "nat \<Rightarrow> http_writer \<Rightarrow> http_writer" where
  "WriteHeader code w =
     (case w_Sent w of None \<Rightarrow> w\<lparr>w_Sent := Some (code, w_Header w)\<rparr> | Some _ \<Rightarrow> w)"

definition Write :: "bytes \<Rightarrow> http_writer \<Rightarrow> http_writer" where
  "Write b w = (let w' = WriteHeader 200 w in w'\<lparr>w_Body := w_Body w' @ b\<rparr>)"

text \<open>Status and one header field of the response as the client receives it.\<close>

definition sent_status :: "http_writer \<Rightarrow> nat option" where
  "sent_status w = map_option fst (w_Sent w)"

definition sent_field :: "http_writer \<Rightarrow> string \<Rightarrow> string option" where
  "sent_field w k = (case w_Sent w of None \<Rightarrow> None | Some (_, h) \<Rightarrow> h k)"

lemma Header_Set_sel [simp]:
  "w_Header (Header_Set k v w) = (w_Header w)(k \<mapsto> v)"
  "w_Sent (Header_Set k v w) = w_Sent w"
  "w_Body (Header_Set k v w) = w_Body w"
  by (simp_all add: Header_Set_def)

lemma WriteHeader_sel [simp]:
  "w_Header (WriteHeader c w) = w_Header w"
  "w_Body (WriteHeader c w) = w_Body w"
  "w_Sent (WriteHeader c w) = (case w_Sent w of None \<Rightarrow> Some (c, w_Header w) | Some s \<Rightarrow> Some s)"
  by (simp_all add: WriteHeader_def split: option.splits)

lemma Write_sel [simp]:
  "w_Header (Write b w) = w_Header w"
  "w_Body (Write b w) = w_Body w @ b"
  "w_Sent (Write b w) = (case w_Sent w of None \<Rightarrow> Some (200, w_Header w) | Some s \<Rightarrow> Some s)"
  by (simp_all add: Write_def Let_def)

lemma new_writer_sel [simp]:
  "w_Header new_writer = Map.empty" "w_Sent new_writer = None" "w_Body new_writer = []"
  by (simp_all add: new_writer_def)

end
