(* ===== verification/GoTime.thy ===== *)
theory GoTime
  imports Prelude
begin

text \<open>
  Instants and durations of Go's \<^verbatim>\<open>time\<close> package in nanoseconds. A duration is a signed 64-bit number;
  \<^verbatim>\<open>Time.Sub\<close> saturates at its bounds. The layouts \<^verbatim>\<open>RFC1123\<close> and \<^verbatim>\<open>http.TimeFormat\<close> are fields of
  \<open>timelib\<close>.
\<close>

definition Second :: int where
  "Second = 1000000000"

definition maxDuration :: int where
  "maxDuration = 2 ^ 63 - 1"

definition minDuration :: int where
  "minDuration = - (2 ^ 63)"

definition time_Sub :: "int \<Rightarrow> int \<Rightarrow> int" where
  "time_Sub t u = max minDuration (min maxDuration (t - u))"

text \<open>Integer division of Go: it truncates towards zero.\<close>

definition go_quot :: "int \<Rightarrow> int \<Rightarrow> int" where
  "go_quot a b = sgn a * sgn b * (\<bar>a\<bar> div \<bar>b\<bar>)"

record timelib =
  fmt_RFC1123 :: "int \<Rightarrow> string"
  parse_RFC1123 :: "string \<Rightarrow> int option"
  fmt_HTTP :: "int \<Rightarrow> string"
  parse_HTTP :: "string \<Rightarrow> int option"

lemma Second_pos [simp]: "0 < Second"
  by (simp add: Second_def)

lemma go_quot_nonneg: "0 \<le> a \<Longrightarrow> 0 < b \<Longrightarrow> go_quot a b = a div b"
  by (cases "a = 0") (simp_all add: go_quot_def)

lemma go_quot_neg: "a < 0 \<Longrightarrow> 0 < b \<Longrightarrow> go_quot a b = - ((- a) div b)"
  by (simp add: go_quot_def)

lemma go_quot_le:
  assumes "a \<le> n * b" and "0 < b" and "0 \<le> n"
  shows "go_quot a b \<le> n"
proof (cases "0 \<le> a")
  case True
  have "a div b \<le> n" using zdiv_mono1 [OF assms(1,2)] assms(2) by simp
  with True assms show ?thesis by (simp add: go_quot_nonneg)
next
  case False
  then have "0 \<le> (- a) div b" using assms(2) by (simp add: pos_imp_zdiv_nonneg_iff)
  with False assms show ?thesis by (simp add: go_quot_neg)
qed

end
