(* ===== verification/GoIPText.thy ===== *)
theory GoIPText
  imports GoNet
begin

text \<open>
  The text of an IP address in Go's \<^verbatim>\<open>net\<close> package, there and back: \<open>ParseIP\<close> reads what \<open>IP_String\<close> prints, for IPv4
  addresses (\<open>GoNet\<close>) and, here, for IPv6 addresses with their longest run of zero groups cut out.
\<close>

section \<open>Groups\<close>

text \<open>The bytes of a list of 16-bit groups.\<close>

definition group_bytes :: "nat list \<Rightarrow> bytes" where
  "group_bytes gs = concat (map (\<lambda>g. [of_nat (g div 256), of_nat g]) gs)"

lemma group_bytes_simps [simp]:
  "group_bytes [] = []" "group_bytes (g # gs) = of_nat (g div 256) # of_nat g # group_bytes gs"
  "group_bytes (gs @ hs) = group_bytes gs @ group_bytes hs" "length (group_bytes gs) = 2 * length gs"
  by (simp_all add: group_bytes_def length_concat comp_def sum_list_triv)

lemma group_bytes_zero: "list_all (\<lambda>g. g = 0) gs \<Longrightarrow> group_bytes gs = replicate (2 * length gs) 0"
  by (induction gs) simp_all

lemma group_of_bytes: "of_nat ((unat a * 256 + unat b) div 256) = (a :: u8)" "of_nat (unat a * 256 + unat b) = (b :: u8)"
proof -
  have b: "unat b < 256" by (rule unat_byte_lt)
  then show "of_nat ((unat a * 256 + unat b) div 256) = a" by simp
  have "of_nat (unat a * 256 + unat b) = (of_nat (unat a) * 256 + of_nat (unat b) :: u8)" by simp
  also have "(256 :: u8) = 0" by simp
  finally show "of_nat (unat a * 256 + unat b) = b" by simp
qed

lemma group_bytes_groups: "even (length ip) \<Longrightarrow> group_bytes (ip_groups ip) = ip"
proof (induction ip rule: ip_groups.induct)
  case (1 a b bs)
  then have "group_bytes (ip_groups bs) = bs" by simp
  then show ?case by (simp only: ip_groups.simps group_bytes_simps group_of_bytes)
qed simp_all

lemma ip_groups_bound: "list_all (\<lambda>g. g < 65536) (ip_groups ip)"
proof (induction ip rule: ip_groups.induct)
  case (1 a b bs)
  have "unat a * 256 + unat b < 65536" using unat_byte_lt [of a] unat_byte_lt [of b] by simp
  with 1 show ?case by simp
qed simp_all

lemma length_ip_groups: "length (ip_groups ip) = length ip div 2"
  by (induction ip rule: ip_groups.induct) simp_all

section \<open>Hexadecimal numbers\<close>

definition is_hex :: "char \<Rightarrow> bool" where
  "is_hex c \<longleftrightarrow> hex_val c \<noteq> None"

lemma hex_val_digit [simp]: "d < 16 \<Longrightarrow> hex_val (hex_digit d) = Some d"
  by (auto simp: hex_val_def hex_digit_def Let_def)

lemma append_hex_not_Nil [simp]: "append_hex n \<noteq> []"
  using append_hex.simps [of n] by simp

lemma is_hex_digit [simp]: "d < 16 \<Longrightarrow> is_hex (hex_digit d)"
  by (simp add: is_hex_def)

lemma append_hex_hex: "list_all is_hex (append_hex n)"
proof (induction n rule: append_hex.induct)
  case (1 n)
  show ?case
  proof (cases "n < 16")
    case True
    then show ?thesis using append_hex.simps [of n] by simp
  next
    case False
    then show ?thesis using 1 append_hex.simps [of n] by simp
  qed
qed

lemma is_hex_not: "is_hex c \<Longrightarrow> c \<noteq> CHR '':'' \<and> c \<noteq> CHR ''.'' \<and> c \<noteq> CHR ''/''"
  by (auto simp: is_hex_def hex_val_def)

text \<open>The value that \<^verbatim>\<open>xtoi\<close> computes of a run of digits.\<close>

fun hex_from :: "nat \<Rightarrow> string \<Rightarrow> nat" where
  "hex_from n [] = n"
| "hex_from n (c # cs) = hex_from (n * 16 + the (hex_val c)) cs"

lemma hex_from_append: "hex_from n (s @ t) = hex_from (hex_from n s) t"
  by (induction s arbitrary: n) simp_all

lemma hex_from_ge: "n \<le> hex_from n s"
proof (induction s arbitrary: n)
  case (Cons c s)
  have "n \<le> n * 16 + the (hex_val c)" by simp
  also have "\<dots> \<le> hex_from (n * 16 + the (hex_val c)) s" by (rule Cons.IH)
  finally show ?case by simp
qed simp

lemma hex_from_append_hex: "hex_from 0 (append_hex n) = n"
proof (induction n rule: append_hex.induct)
  case (1 n)
  show ?case
  proof (cases "n < 16")
    case True
    then show ?thesis using append_hex.simps [of n] by simp
  next
    case False
    then show ?thesis using 1 append_hex.simps [of n] by (simp add: hex_from_append)
  qed
qed

lemma xtoi_loop_hex:
  assumes "list_all is_hex s" and "hex_from n s < net_big" and "rest = [] \<or> \<not> is_hex (hd rest)" and "0 < i + length s"
  shows "xtoi_loop n i (s @ rest) = Some (hex_from n s, i + length s)"
  using assms
proof (induction s arbitrary: n i)
  case Nil
  then show ?case by (cases rest) (simp_all add: is_hex_def)
next
  case (Cons c s)
  obtain d where d: "hex_val c = Some d" using Cons.prems(1) by (auto simp: is_hex_def)
  have "n * 16 + d \<le> hex_from (n * 16 + d) s" by (rule hex_from_ge)
  then have "n * 16 + d < net_big" using Cons.prems(2) d by simp
  with Cons d show ?case by simp
qed

lemma xtoi_append_hex:
  assumes "g < 65536" and "rest = [] \<or> \<not> is_hex (hd rest)"
  shows "xtoi (append_hex g @ rest) = Some (g, length (append_hex g))"
  using xtoi_loop_hex [OF append_hex_hex [of g], of 0 rest 0] assms
  by (simp add: xtoi_def hex_from_append_hex net_big_def)

section \<open>The loop of the parser\<close>

abbreviation colon :: char where "colon \<equiv> CHR '':''"

lemma not_hex_colon [simp]: "\<not> is_hex colon"
  using is_hex_not by blast

text \<open>The last group, a group before a colon, and a group before an ellipsis.\<close>

lemma loop_last:
  assumes "length ip < 16" and "g < 65536"
  shows "parseIPv6_loop ip ell (append_hex g) = Some (ip @ group_bytes [g], ell, [])"
  using xtoi_append_hex [of g "[]"] assms by (subst parseIPv6_loop.simps) simp

lemma loop_group:
  assumes "length ip < 16" and "g < 65536" and "s \<noteq> []" and "hd s \<noteq> colon"
  shows "parseIPv6_loop ip ell (append_hex g @ colon # s) = parseIPv6_loop (ip @ group_bytes [g]) ell s"
  using xtoi_append_hex [of g "colon # s"] assms by (subst parseIPv6_loop.simps) (simp add: nth_append)

lemma loop_ellipsis:
  assumes "length ip < 16" and "g < 65536"
  shows "parseIPv6_loop ip None (append_hex g @ colon # colon # s) =
    (let ip' = ip @ group_bytes [g] in
     if s = [] then Some (ip', Some (length ip'), []) else parseIPv6_loop ip' (Some (length ip')) s)"
  using xtoi_append_hex [of g "colon # colon # s"] assms by (subst parseIPv6_loop.simps) (simp add: nth_append Let_def)

lemma join_hex_hd: "gs \<noteq> [] \<Longrightarrow> join_colon (map append_hex gs) \<noteq> [] \<and> is_hex (hd (join_colon (map append_hex gs)))"
proof (cases gs)
  case (Cons g gs')
  have "is_hex (hd (append_hex g))" using append_hex_hex [of g] by (cases "append_hex g") simp_all
  then show ?thesis using Cons by (cases gs') simp_all
qed simp

lemma loop_groups:
  assumes "gs \<noteq> []" and "list_all (\<lambda>g. g < 65536) gs" and "length ip + 2 * length gs \<le> 16"
  shows "parseIPv6_loop ip ell (join_colon (map append_hex gs)) = Some (ip @ group_bytes gs, ell, [])"
  using assms
proof (induction gs arbitrary: ip)
  case (Cons g gs)
  show ?case
  proof (cases gs)
    case Nil
    then show ?thesis using Cons.prems loop_last [of ip g ell] by simp
  next
    case (Cons h hs)
    then have s: "join_colon (map append_hex gs) \<noteq> []" "hd (join_colon (map append_hex gs)) \<noteq> colon"
      using join_hex_hd [of gs] is_hex_not by auto
    have j: "join_colon (map append_hex (g # gs)) = append_hex g @ colon # join_colon (map append_hex gs)"
      by (simp add: Cons)
    show ?thesis
      using Cons.IH [of "ip @ group_bytes [g]"] Cons.prems Cons loop_group [OF _ _ s, of ip g ell] unfolding j by simp
  qed
qed simp

lemma loop_groups_ellipsis:
  assumes "gs \<noteq> []" and "list_all (\<lambda>g. g < 65536) gs" and "length ip + 2 * length gs \<le> 16"
  shows "parseIPv6_loop ip None (join_colon (map append_hex gs) @ colon # colon # s) =
    (let ip' = ip @ group_bytes gs in
     if s = [] then Some (ip', Some (length ip'), []) else parseIPv6_loop ip' (Some (length ip')) s)"
  using assms
proof (induction gs arbitrary: ip)
  case (Cons g gs)
  show ?case
  proof (cases gs)
    case Nil
    then show ?thesis using Cons.prems loop_ellipsis [of ip g s] by simp
  next
    case (Cons h hs)
    let ?j = "join_colon (map append_hex gs) @ colon # colon # s"
    have s: "?j \<noteq> []" "hd ?j \<noteq> colon" using join_hex_hd [of gs] is_hex_not Cons by auto
    have j: "join_colon (map append_hex (g # gs)) @ colon # colon # s = append_hex g @ colon # ?j"
      by (simp add: Cons)
    show ?thesis
      using Cons.IH [of "ip @ group_bytes [g]"] Cons.prems Cons loop_group [OF _ _ s, of ip g None] unfolding j by simp
  qed
qed simp


section \<open>The run that is cut out\<close>

definition zeros_at :: "nat list \<Rightarrow> nat \<times> nat \<Rightarrow> bool" where
  "zeros_at gs p \<longleftrightarrow>
     (case p of (e, r) \<Rightarrow> e + r \<le> length gs \<and> take r (drop e gs) = replicate r 0)"

lemma zero_run_take: "zero_run gs \<le> length gs" "take (zero_run gs) gs = replicate (zero_run gs) 0"
proof -
  show "zero_run gs \<le> length gs" unfolding zero_run_def by (rule length_takeWhile_le)
  show "take (zero_run gs) gs = replicate (zero_run gs) 0" by (induction gs) (simp_all add: zero_run_def)
qed

lemma zeros_at_run:
  assumes "gs = drop i all" and "i \<le> length all"
  shows "zeros_at all (i, zero_run gs)"
  using assms zero_run_take [of gs] by (simp add: zeros_at_def)

lemma best_run_zero: "zeros_at all best \<Longrightarrow> gs = drop i all \<Longrightarrow> zeros_at all (best_run i best gs)"
proof (induction i best gs rule: best_run.induct)
  case (2 i best g gs)
  have i: "i < length all" using 2(4) by (metis drop_all list.distinct(1) not_le)
  have gs: "gs = drop (Suc i) all" using 2(4) by (metis drop_Suc list.sel(3) tl_drop)
  show ?case
  proof (cases "snd best < zero_run (g # gs)")
    case True
    have "zeros_at all (i, zero_run (g # gs))" using 2(4) i by (intro zeros_at_run) simp_all
    moreover have "drop (zero_run (g # gs)) gs = drop (i + zero_run (g # gs) + 1) all" by (simp add: gs add.commute)
    ultimately have "zeros_at all (best_run (i + zero_run (g # gs) + 1) (i, zero_run (g # gs)) (drop (zero_run (g # gs)) gs))"
      using 2(1) [OF refl True] by blast
    then show ?thesis using True by (simp only: best_run.simps Let_def if_True)
  next
    case False
    have "zeros_at all (best_run (i + 1) best gs)" using 2(2) [OF refl False 2(3)] gs by simp
    then show ?thesis using False by (simp only: best_run.simps Let_def if_False)
  qed
qed simp

lemma best_run_spec:
  assumes "best_run 0 (0, 0) gs = (e, r)"
  shows "e + r \<le> length gs" "gs = take e gs @ replicate r 0 @ drop (e + r) gs"
proof -
  have "zeros_at gs (e, r)" using best_run_zero [of gs "(0, 0)" gs 0] assms by (simp add: zeros_at_def)
  then have z: "e + r \<le> length gs" "take r (drop e gs) = replicate r 0" by (simp_all add: zeros_at_def)
  then show "e + r \<le> length gs" by simp
  have "gs = take e gs @ take r (drop e gs) @ drop r (drop e gs)" by (simp only: append_take_drop_id)
  then show "gs = take e gs @ replicate r 0 @ drop (e + r) gs" by (simp only: z(2) drop_drop add.commute [of r e])
qed

section \<open>There and back\<close>

lemma parseIPv6_String:
  assumes "length ip = 16"
  shows "parseIPv6 (ipv6_String ip) = Some ip"
proof -
  define gs where "gs = ip_groups ip"
  have l: "length gs = 8" and b: "list_all (\<lambda>g. g < 65536) gs" and ip: "group_bytes gs = ip"
    using assms by (simp_all add: gs_def length_ip_groups ip_groups_bound group_bytes_groups)
  obtain e r where er: "best_run 0 (0, 0) gs = (e, r)" by (cases "best_run 0 (0, 0) gs")
  note spec = best_run_spec [OF er]
  let ?a = "take e gs" and ?b = "drop (e + r) gs"
  have ab: "list_all (\<lambda>g. g < 65536) ?a" "list_all (\<lambda>g. g < 65536) ?b"
    using b by (auto simp: list_all_iff dest: in_set_takeD in_set_dropD)
  have len: "length ?a = e" "length ?b = 8 - (e + r)" using spec(1) l by simp_all
  have whole: "group_bytes ?a @ replicate (2 * r) 0 @ group_bytes ?b = ip"
  proof -
    have "group_bytes (replicate r 0) = replicate (2 * r) 0"
      using group_bytes_zero [of "replicate r 0"] by (simp add: list_all_iff)
    then have "group_bytes (?a @ replicate r 0 @ ?b) = group_bytes ?a @ replicate (2 * r) 0 @ group_bytes ?b"
      by (simp only: group_bytes_simps)
    then show ?thesis using spec(2) ip by metis
  qed
  show ?thesis
  proof (cases "r \<le> 1")
    case True
    have ne: "gs \<noteq> []" using l by auto
    have s: "ipv6_String ip = join_colon (map append_hex gs)"
      using True by (simp add: ipv6_String_def gs_def [symmetric] er)
    have "take 2 (join_colon (map append_hex gs)) \<noteq> [colon, colon]"
      using join_hex_hd [OF ne] by (cases "join_colon (map append_hex gs)") auto
    then show ?thesis
      using loop_groups [OF ne b, of "[]" None] l ip assms by (simp add: s parseIPv6_def parseIPv6_finish_def)
  next
    case False
    have s: "ipv6_String ip = join_colon (map append_hex ?a) @ colon # colon # join_colon (map append_hex ?b)"
      using False by (simp add: ipv6_String_def gs_def [symmetric] er take_map drop_map)
    have fin: "parseIPv6_finish (group_bytes ?a @ group_bytes ?b, Some (2 * e), []) = Some ip"
      using False len spec(1) l whole by (simp add: parseIPv6_finish_def algebra_simps)
    have tail: "parseIPv6_loop (group_bytes ?a) (Some (2 * e)) (join_colon (map append_hex ?b)) =
        Some (group_bytes ?a @ group_bytes ?b, Some (2 * e), [])" if "?b \<noteq> []"
      using loop_groups [OF that ab(2)] len spec(1) l by simp
    have empty: "join_colon (map append_hex ?b) = [] \<longleftrightarrow> ?b = []" using join_hex_hd [of ?b] by auto
    show ?thesis
    proof (cases "?a = []")
      case True
      then have e: "e = 0" using l by auto
      have "ip = replicate 16 0" if "?b = []" using that whole True len(2) spec(1) l e by simp
      then show ?thesis using fin tail empty True e by (auto simp: s parseIPv6_def)
    next
      case a: False
      have "take 2 (ipv6_String ip) \<noteq> [colon, colon]"
        using join_hex_hd [OF a] by (cases "join_colon (map append_hex ?a)") (auto simp: s)
      moreover have "parseIPv6_loop [] None (ipv6_String ip) = Some (group_bytes ?a @ group_bytes ?b, Some (2 * e), [])"
        using loop_groups_ellipsis [OF a ab(1), of "[]"] len spec(1) l tail empty by (auto simp: s Let_def)
      ultimately show ?thesis using fin by (simp add: parseIPv6_def)
    qed
  qed
qed

lemma join_hex_chars: "list_all (\<lambda>c. is_hex c \<or> c = colon) (join_colon (map append_hex gs))"
proof (induction gs rule: induct_list012)
  case (3 g h gs)
  have "list_all (\<lambda>c. is_hex c \<or> c = colon) (append_hex g)"
    using append_hex_hex [of g] by (simp add: list_all_iff)
  with 3 show ?case by simp
next
  case (2 g)
  then show ?case using append_hex_hex [of g] by (simp add: list_all_iff)
qed simp

lemma join_colon_colon: "2 \<le> length ss \<Longrightarrow> colon \<in> set (join_colon ss)"
  by (cases ss rule: join_colon.cases) simp_all

lemma ipv6_String_chars: "list_all (\<lambda>c. is_hex c \<or> c = colon) (ipv6_String ip)"
  by (simp add: ipv6_String_def Let_def join_hex_chars take_map drop_map split: prod.split)

lemma ipv6_String_colon: "length ip = 16 \<Longrightarrow> colon \<in> set (ipv6_String ip)"
  by (cases "best_run 0 (0, 0) (ip_groups ip)")
     (simp add: ipv6_String_def Let_def length_ip_groups join_colon_colon)

lemma ParseIP_colon:
  assumes "colon \<in> set s" and "CHR ''.'' \<notin> set s"
  shows "ParseIP s = parseIPv6 s"
proof -
  have "find (\<lambda>c. c = CHR ''.'' \<or> c = colon) s = Some colon" using assms by (induction s) auto
  then show ?thesis by (simp add: ParseIP_def)
qed

lemma ParseIP_IP_String_v6:
  assumes "length ip = 16" and "To4 ip = None"
  shows "ParseIP (IP_String ip) = Some ip"
proof -
  have "CHR ''.'' \<notin> set (ipv6_String ip)" using ipv6_String_chars [of ip] is_hex_not by (auto simp: list_all_iff)
  moreover have "IP_String ip = ipv6_String ip" using assms by (auto simp: IP_String_def)
  ultimately show ?thesis using ParseIP_colon ipv6_String_colon parseIPv6_String assms(1) by simp
qed

lemma no_slash_v6: "CHR ''/'' \<notin> set (ipv6_String ip)"
  using ipv6_String_chars [of ip] is_hex_not by (auto simp: list_all_iff)

section \<open>Both families\<close>

text \<open>An address slice as the library makes them: four or sixteen bytes.\<close>

definition ip_bytes :: "bytes \<Rightarrow> bool" where
  "ip_bytes ip \<longleftrightarrow> length ip = 4 \<or> length ip = 16"

text \<open>The address without the prefix of a mapped IPv4 address.\<close>

definition short_ip :: "bytes \<Rightarrow> bytes" where
  "short_ip ip = (case To4 ip of Some p \<Rightarrow> p | None \<Rightarrow> ip)"

lemma To4_short [simp]: "To4 (short_ip ip) = To4 ip"
  using To4_idem by (simp add: short_ip_def split: option.split)

lemma short_ip_idem [simp]: "short_ip (short_ip ip) = short_ip ip"
  unfolding short_ip_def [of "short_ip ip"] To4_short by (simp add: short_ip_def split: option.split)

lemma short_ip_bytes: "ip_bytes ip \<Longrightarrow> ip_bytes (short_ip ip)"
  by (auto simp: ip_bytes_def short_ip_def dest: To4_length split: option.split)

lemma IP_String_short: "ip_bytes ip \<Longrightarrow> IP_String (short_ip ip) = IP_String ip"
proof -
  assume "ip_bytes ip"
  then have "ip \<noteq> []" "short_ip ip \<noteq> []" using short_ip_bytes [of ip] by (auto simp: ip_bytes_def)
  then show ?thesis by (cases "To4 ip") (simp_all add: IP_String_def, simp add: short_ip_def)
qed

lemma IP_String_chars:
  assumes "ip_bytes ip" and "c \<in> set (IP_String ip)"
  shows "is_hex c \<or> c = colon \<or> c = CHR ''.''"
proof (cases "To4 ip")
  case None
  then have "IP_String ip = ipv6_String ip" using assms(1) by (auto simp: ip_bytes_def IP_String_def)
  then show ?thesis using assms(2) ipv6_String_chars [of ip] by (auto simp: list_all_iff)
next
  case (Some p)
  have d: "is_hex c" if "c \<in> set (strconv_Itoa n)" for n
  proof -
    have "is_digit c" using that Itoa_digits [of n] by (simp add: list_all_iff)
    then show ?thesis by (simp add: is_digit_def is_hex_def hex_val_def Let_def)
  qed
  have "ip \<noteq> []" using assms(1) by (auto simp: ip_bytes_def)
  then show ?thesis using assms(2) Some d by (auto simp: IP_String_def)
qed

text \<open>What \<^verbatim>\<open>ParseIP\<close> reads of a printed address is the same address, in sixteen bytes.\<close>

lemma ParseIP_String:
  assumes "ip_bytes ip"
  shows "\<exists>ip'. ParseIP (IP_String ip) = Some ip' \<and> To4 ip' = To4 ip \<and> short_ip ip' = short_ip ip"
proof (cases "To4 ip")
  case None
  then show ?thesis using assms ParseIP_IP_String_v6 by (auto simp: ip_bytes_def)
next
  case (Some p)
  then obtain w x y z where p: "p = [w, x, y, z]"
    using To4_length [OF Some] by (auto simp: length_Suc_conv numeral_eq_Suc)
  have "IP_String ip = IP_String [w, x, y, z]" using IP_String_short [OF assms] Some p by (simp add: short_ip_def)
  then show ?thesis using ParseIP_IP_String_v4 [of w x y z] Some p by (simp add: short_ip_def)
qed

lemma IP_String_mark: "ip_bytes ip \<Longrightarrow> \<exists>c\<in>set (IP_String ip). c = colon \<or> c = CHR ''.''"
proof -
  assume a: "ip_bytes ip"
  obtain ip' where "ParseIP (IP_String ip) = Some ip'" using ParseIP_String [OF a] by blast
  then have "find (\<lambda>c. c = CHR ''.'' \<or> c = colon) (IP_String ip) \<noteq> None" by (auto simp: ParseIP_def split: option.splits)
  then show ?thesis by (auto simp: find_None_iff)
qed

end
