(* ===== verification/JsonDns.thy ===== *)
theory JsonDns
  imports DnsMsg Http GoTime GoIPText
begin

text \<open>
  The package \<^verbatim>\<open>json-dns\<close>: the JSON form of a DNS message (\<^verbatim>\<open>response.go\<close>), error replies (\<^verbatim>\<open>error.go\<close>),
  the translation from wire messages (\<^verbatim>\<open>marshal.go\<close>) and back (\<^verbatim>\<open>unmarshal.go\<close>). The clock is an
  argument \<open>now\<close>; JSON encoding, time layouts, the text of EDNS0 options and the zone-text parser
  \<^verbatim>\<open>dns.NewRR\<close> are parameters.
\<close>

section \<open>response.go\<close>

record JQuestion =
  jq_Name :: string
  jq_Type :: u16

record JRR =
  jr_Name :: string
  jr_Type :: u16
  jr_TTL :: u32
  jr_Expires :: int
  jr_ExpiresStr :: string
  jr_Data :: string

record Response =
  rs_Status :: u32
  rs_TC :: bool
  rs_RD :: bool
  rs_RA :: bool
  rs_AD :: bool
  rs_CD :: bool
  rs_Question :: "JQuestion list"
  rs_Answer :: "JRR list"
  rs_Authority :: "JRR list"
  rs_Additional :: "JRR list"
  rs_Comment :: string
  rs_EdnsClientSubnet :: string
  rs_HaveTTL :: bool
  rs_LeastTTL :: u32
  rs_EarliestExpires :: int

definition new_Response :: Response where
  "new_Response =
     \<lparr>rs_Status = 0, rs_TC = False, rs_RD = False, rs_RA = False, rs_AD = False, rs_CD = False,
      rs_Question = [], rs_Answer = [], rs_Authority = [], rs_Additional = [], rs_Comment = [],
      rs_EdnsClientSubnet = [], rs_HaveTTL = False, rs_LeastTTL = 0, rs_EarliestExpires = 0\<rparr>"

section \<open>error.go\<close>

record dnsError =
  err_Status :: u32
  err_Comment :: string

definition FormatError ::
    "(dnsError \<Rightarrow> bytes) \<Rightarrow> string \<Rightarrow> nat \<Rightarrow> http_writer \<Rightarrow> http_writer" where
  "FormatError json comment errcode w =
     Write (json \<lparr>err_Status = word_of_int RcodeServerFailure, err_Comment = comment\<rparr>)
       (WriteHeader errcode (Header_Set ''Content-Type'' ''application/json; charset=UTF-8'' w))"

section \<open>marshal.go\<close>

definition marshalRR :: "timelib \<Rightarrow> (EDNS0 \<Rightarrow> string) \<Rightarrow> RR \<Rightarrow> int \<Rightarrow> JRR" where
  "marshalRR tm opt_text rr now =
     (let h = Header rr;
          expires = now + int (unat (hdr_Ttl h)) * Second;
          data = strings_SplitN tab 5 (RR_String opt_text rr)
      in \<lparr>jr_Name = hdr_Name h, jr_Type = hdr_Rrtype h, jr_TTL = hdr_Ttl h, jr_Expires = expires,
          jr_ExpiresStr = fmt_RFC1123 tm expires,
          jr_Data = (if length data \<ge> 5 then data ! 4 else [])\<rparr>)"

text \<open>The statement the three section loops share: remember the least TTL seen so far.\<close>

definition note_ttl :: "JRR \<Rightarrow> Response \<Rightarrow> Response" where
  "note_ttl j resp =
     (if \<not> rs_HaveTTL resp \<or> jr_TTL j < rs_LeastTTL resp
      then resp\<lparr>rs_HaveTTL := True, rs_LeastTTL := jr_TTL j, rs_EarliestExpires := jr_Expires j\<rparr>
      else resp)"

fun marshal_answer :: "timelib \<Rightarrow> (EDNS0 \<Rightarrow> string) \<Rightarrow> int \<Rightarrow> RR list \<Rightarrow> Response \<Rightarrow> Response" where
  "marshal_answer tm ot now [] resp = resp"
| "marshal_answer tm ot now (rr # rrs) resp =
     (let j = marshalRR tm ot rr now; resp1 = note_ttl j resp
      in marshal_answer tm ot now rrs (resp1\<lparr>rs_Answer := rs_Answer resp1 @ [j]\<rparr>))"

fun marshal_authority :: "timelib \<Rightarrow> (EDNS0 \<Rightarrow> string) \<Rightarrow> int \<Rightarrow> RR list \<Rightarrow> Response \<Rightarrow> Response" where
  "marshal_authority tm ot now [] resp = resp"
| "marshal_authority tm ot now (rr # rrs) resp =
     (let j = marshalRR tm ot rr now; resp1 = note_ttl j resp
      in marshal_authority tm ot now rrs (resp1\<lparr>rs_Authority := rs_Authority resp1 @ [j]\<rparr>))"

text \<open>The loop over the options of an OPT record.\<close>

definition ecs_text :: "EDNS0_SUBNET \<Rightarrow> string" where
  "ecs_text s =
     (let clientAddress =
            (case sub_Address s of
               None \<Rightarrow> [0, 0, 0, 0]
             | Some a \<Rightarrow> (case To4 a of Some ipv4 \<Rightarrow> ipv4 | None \<Rightarrow> a))
      in IP_String clientAddress @ ''/'' @ strconv_Itoa (unat (sub_SourceScope s)))"

fun marshal_options :: "EDNS0 list \<Rightarrow> Response \<Rightarrow> Response go" where
  "marshal_options [] resp = Ret resp"
| "marshal_options (e # es) resp =
     (if EDNS0_Option e = EDNS0SUBNET
      then (case e of
              Opt_SUBNET s \<Rightarrow> marshal_options es (resp\<lparr>rs_EdnsClientSubnet := ecs_text s\<rparr>)
            | _ \<Rightarrow> Panic ''interface conversion: dns.EDNS0 is not *dns.EDNS0_SUBNET'')
      else marshal_options es resp)"

definition extended_status :: "u32 \<Rightarrow> u32 \<Rightarrow> u32" where
  "extended_status ttl status = drop_bit 20 (ttl AND 0xff000000) OR (status AND 0xff)"

fun marshal_extra :: "timelib \<Rightarrow> (EDNS0 \<Rightarrow> string) \<Rightarrow> int \<Rightarrow> RR list \<Rightarrow> Response \<Rightarrow> Response go" where
  "marshal_extra tm ot now [] resp = Ret resp"
| "marshal_extra tm ot now (rr # rrs) resp =
     (let j = marshalRR tm ot rr now in
      if hdr_Rrtype (Header rr) = TypeOPT then
        (case rr of
           RR_OPT h os \<Rightarrow>
             go_bind
               (marshal_options os (resp\<lparr>rs_Status := extended_status (hdr_Ttl h) (rs_Status resp)\<rparr>))
               (marshal_extra tm ot now rrs)
         | _ \<Rightarrow> Panic ''interface conversion: dns.RR is not *dns.OPT'')
      else
        let resp1 = note_ttl j resp
        in marshal_extra tm ot now rrs (resp1\<lparr>rs_Additional := rs_Additional resp1 @ [j]\<rparr>))"

definition Marshal :: "timelib \<Rightarrow> (EDNS0 \<Rightarrow> string) \<Rightarrow> int \<Rightarrow> Msg \<Rightarrow> Response go" where
  "Marshal tm ot now m =
     (let resp0 = new_Response
            \<lparr>rs_Status := word_of_int (msg_Rcode m), rs_TC := msg_Truncated m,
             rs_RD := msg_RecursionDesired m, rs_RA := msg_RecursionAvailable m,
             rs_AD := msg_AuthenticatedData m, rs_CD := msg_CheckingDisabled m,
             rs_Question :=
               map (\<lambda>q. \<lparr>jq_Name = q_Name q, jq_Type = q_Qtype q\<rparr>) (msg_Question m)\<rparr>;
          resp1 = marshal_answer tm ot now (msg_Answer m) resp0;
          resp2 = marshal_authority tm ot now (msg_Ns m) resp1
      in marshal_extra tm ot now (msg_Extra m) resp2)"

section \<open>unmarshal.go\<close>

definition PrepareReply :: "Msg \<Rightarrow> Msg" where
  "PrepareReply req =
     (let reply = new_Msg in
      reply\<lparr>msg_Id := msg_Id req, msg_Response := True, msg_Opcode := msg_Opcode reply,
        msg_RecursionDesired := msg_RecursionDesired req,
        msg_RecursionAvailable := msg_RecursionDesired req,
        msg_CheckingDisabled := msg_CheckingDisabled req, msg_Rcode := RcodeServerFailure,
        msg_Compress := True, msg_Question := msg_Question req\<rparr>)"

definition bad_name_chars :: string where
  "bad_name_chars = [tab, CHR 0x0D, CHR 0x0A, CHR '' '', CHR 0x22, CHR ''('', CHR '')'', CHR '';'', backslash]"

definition zone_text :: "string \<Rightarrow> u32 \<Rightarrow> string \<Rightarrow> string \<Rightarrow> string" where
  "zone_text name ttl typ data =
     name @ '' '' @ strconv_Itoa (unat ttl) @ '' IN '' @ typ @ '' '' @ data"

datatype UnmarshalError = UnmarshalError string

primrec UnmarshalError_Error :: "UnmarshalError \<Rightarrow> string" where
  "UnmarshalError_Error (UnmarshalError err) = ''json-dns: '' @ err"

text \<open>The TTL that an absolute expiry time stands for; out of range it leaves the given one.\<close>

definition expiry_ttl :: "int \<Rightarrow> int \<Rightarrow> u32 \<Rightarrow> u32" where
  "expiry_ttl expires now ttl0 =
     (let ttl = go_quot (time_Sub expires now) Second
      in if 0 \<le> ttl \<and> ttl \<le> 0xffffffff then word_of_int ttl else ttl0)"

text \<open>
  The line handed to \<^verbatim>\<open>NewRR\<close> is never blank or a comment, so the library gives a record or an error for it.
\<close>

definition unmarshalRR ::
    "golib \<Rightarrow> timelib \<Rightarrow> (string \<Rightarrow> string + RR) \<Rightarrow> int \<Rightarrow> JRR \<Rightarrow> string + RR" where
  "unmarshalRR lib tm newRR now rr =
     (if strings_ContainsAny (jr_Name rr) bad_name_chars
      then Inl (UnmarshalError_Error (UnmarshalError (''Record name contains space: '' @ fmt_q lib (jr_Name rr))))
      else
        case (if jr_ExpiresStr rr \<noteq> []
              then (case parse_RFC1123 tm (jr_ExpiresStr rr) of
                      None \<Rightarrow> Inl (UnmarshalError_Error (UnmarshalError (''Invalid expire time: '' @ fmt_q lib (jr_ExpiresStr rr))))
                    | Some expires \<Rightarrow> Inr (expiry_ttl expires now (jr_TTL rr)))
              else Inr (jr_TTL rr)) of
          Inl e \<Rightarrow> Inl e
        | Inr ttl \<Rightarrow>
            (case map_of TypeToString (jr_Type rr) of
               None \<Rightarrow> Inl (UnmarshalError_Error (UnmarshalError (''Unknown record type: '' @ strconv_Itoa (unat (jr_Type rr)))))
             | Some rrType \<Rightarrow>
                 if strings_ContainsAny (jr_Data rr) [CHR 0x0D, CHR 0x0A]
                 then Inl (UnmarshalError_Error (UnmarshalError (''Record data contains newline: '' @ fmt_q lib (jr_Data rr))))
                 else newRR (zone_text (jr_Name rr) ttl rrType (jr_Data rr))))"

text \<open>The loops that keep the records that parse and log the others.\<close>

fun unmarshal_section ::
    "golib \<Rightarrow> timelib \<Rightarrow> (string \<Rightarrow> string + RR) \<Rightarrow> int \<Rightarrow> JRR list \<Rightarrow> RR list" where
  "unmarshal_section lib tm newRR now [] = []"
| "unmarshal_section lib tm newRR now (j # js) =
     (case unmarshalRR lib tm newRR now j of
        Inl _ \<Rightarrow> unmarshal_section lib tm newRR now js
      | Inr rr \<Rightarrow> rr # unmarshal_section lib tm newRR now js)"

text \<open>The client-subnet text of a response: family, address and scope.\<close>

definition parse_ecs :: "string \<Rightarrow> u16 \<times> net_IP \<times> u8" where
  "parse_ecs s =
     (if s = [] then (0, None, 255)
      else case strings_IndexByte CHR ''/'' s of
             None \<Rightarrow> (0, None, 255)
           | Some slash \<Rightarrow>
               let (fam, addr) =
                     (case ParseIP (take slash s) of
                        None \<Rightarrow> (0, None)
                      | Some ip \<Rightarrow> (case To4 ip of Some ipv4 \<Rightarrow> (1, Some ipv4) | None \<Rightarrow> (2, Some ip)));
                   (scope, err) = strconv_ParseUint (drop (slash + 1) s) 8
               in (fam, addr, if err = None then of_nat scope else 255))"

definition Unmarshal ::
    "golib \<Rightarrow> timelib \<Rightarrow> (string \<Rightarrow> string + RR) \<Rightarrow> int \<Rightarrow> Msg \<Rightarrow> Response \<Rightarrow> u16 \<Rightarrow> u8 \<Rightarrow> Msg" where
  "Unmarshal lib tm newRR now m resp udpSize ednsClientNetmask =
     (let h0 = new_OPT_header\<lparr>hdr_Name := ''.'', hdr_Rrtype := TypeOPT\<rparr>;
          h1 = (if udpSize \<ge> 512 then OPT_SetUDPSize udpSize h0 else OPT_SetUDPSize 512 h0);
          h2 = OPT_SetDo False h1;
          (ednsClientFamily, ednsClientAddress, ednsClientScope) = parse_ecs (rs_EdnsClientSubnet resp);
          netmask = (if ednsClientNetmask = 255
                     then (if ednsClientFamily = 1 then 24 else 56) else ednsClientNetmask);
          options = (case ednsClientAddress of
                       None \<Rightarrow> []
                     | Some a \<Rightarrow>
                         [Opt_SUBNET \<lparr>sub_Code = EDNS0SUBNET, sub_Family = ednsClientFamily,
                            sub_SourceNetmask = netmask, sub_SourceScope = ednsClientScope,
                            sub_Address = Some a\<rparr>]);
          h3 = h2\<lparr>hdr_Ttl := (hdr_Ttl h2 AND 0x00ffffff) OR push_bit 20 (rs_Status resp AND 0xff0)\<rparr>
      in (Msg_Copy m)
           \<lparr>msg_Truncated := rs_TC resp, msg_AuthenticatedData := rs_AD resp,
            msg_CheckingDisabled := rs_CD resp,
            msg_Rcode := uint (rs_Status resp AND 0xf),
            msg_Answer := unmarshal_section lib tm newRR now (rs_Answer resp),
            msg_Ns := unmarshal_section lib tm newRR now (rs_Authority resp),
            msg_Extra := RR_OPT h3 options # unmarshal_section lib tm newRR now (rs_Additional resp)\<rparr>)"

section \<open>Lemmas\<close>

subsection \<open>The least TTL\<close>

lemma marshalRR_sel [simp]:
  "jr_Name (marshalRR tm ot rr now) = hdr_Name (Header rr)"
  "jr_Type (marshalRR tm ot rr now) = hdr_Rrtype (Header rr)"
  "jr_TTL (marshalRR tm ot rr now) = hdr_Ttl (Header rr)"
  "jr_Expires (marshalRR tm ot rr now) = now + int (unat (hdr_Ttl (Header rr))) * Second"
  "jr_ExpiresStr (marshalRR tm ot rr now) =
     fmt_RFC1123 tm (now + int (unat (hdr_Ttl (Header rr))) * Second)"
  by (simp_all add: marshalRR_def Let_def)

text \<open>What the response says about expiry after records with the TTLs \<open>ts\<close> have been seen.\<close>

definition ttl_inv :: "int \<Rightarrow> u32 list \<Rightarrow> Response \<Rightarrow> bool" where
  "ttl_inv now ts resp \<longleftrightarrow>
     (rs_HaveTTL resp \<longleftrightarrow> ts \<noteq> []) \<and>
     (ts \<noteq> [] \<longrightarrow>
        rs_LeastTTL resp \<in> set ts \<and> (\<forall>t\<in>set ts. rs_LeastTTL resp \<le> t) \<and>
        rs_EarliestExpires resp = now + int (unat (rs_LeastTTL resp)) * Second)"

lemma ttl_inv_note:
  assumes "ttl_inv now ts resp" and "jr_Expires j = now + int (unat (jr_TTL j)) * Second"
  shows "ttl_inv now (ts @ [jr_TTL j]) (note_ttl j resp)"
  using assms by (auto simp: ttl_inv_def note_ttl_def not_less intro: order.strict_trans2 less_imp_le)

lemma ttl_inv_sections [simp]:
  "ttl_inv now ts (resp\<lparr>rs_Answer := x\<rparr>) = ttl_inv now ts resp"
  "ttl_inv now ts (resp\<lparr>rs_Authority := x\<rparr>) = ttl_inv now ts resp"
  "ttl_inv now ts (resp\<lparr>rs_Additional := x\<rparr>) = ttl_inv now ts resp"
  "ttl_inv now ts (resp\<lparr>rs_Status := st\<rparr>) = ttl_inv now ts resp"
  "ttl_inv now ts (resp\<lparr>rs_EdnsClientSubnet := ecs\<rparr>) = ttl_inv now ts resp"
  by (simp_all add: ttl_inv_def)

text \<open>The fields of a response that no section loop of \<^verbatim>\<open>Marshal\<close> touches.\<close>

definition resp_head ::
    "Response \<Rightarrow> bool \<times> bool \<times> bool \<times> bool \<times> bool \<times> JQuestion list \<times> string" where
  "resp_head r = (rs_TC r, rs_RD r, rs_RA r, rs_AD r, rs_CD r, rs_Question r, rs_Comment r)"

lemma note_ttl_sel [simp]:
  "rs_Answer (note_ttl j r) = rs_Answer r" "rs_Authority (note_ttl j r) = rs_Authority r"
  "rs_Additional (note_ttl j r) = rs_Additional r" "rs_Status (note_ttl j r) = rs_Status r"
  "rs_EdnsClientSubnet (note_ttl j r) = rs_EdnsClientSubnet r"
  "resp_head (note_ttl j r) = resp_head r"
  by (simp_all add: note_ttl_def resp_head_def)

lemma resp_head_upd [simp]:
  "resp_head (r\<lparr>rs_Answer := x\<rparr>) = resp_head r" "resp_head (r\<lparr>rs_Authority := x\<rparr>) = resp_head r"
  "resp_head (r\<lparr>rs_Additional := x\<rparr>) = resp_head r" "resp_head (r\<lparr>rs_Status := st\<rparr>) = resp_head r"
  "resp_head (r\<lparr>rs_EdnsClientSubnet := ecs\<rparr>) = resp_head r"
  by (simp_all add: resp_head_def)

lemma marshal_answer_sel [simp]:
  "rs_Answer (marshal_answer tm ot now rrs r) = rs_Answer r @ map (\<lambda>rr. marshalRR tm ot rr now) rrs"
  "rs_Authority (marshal_answer tm ot now rrs r) = rs_Authority r"
  "rs_Additional (marshal_answer tm ot now rrs r) = rs_Additional r"
  "rs_Status (marshal_answer tm ot now rrs r) = rs_Status r"
  "rs_EdnsClientSubnet (marshal_answer tm ot now rrs r) = rs_EdnsClientSubnet r"
  "resp_head (marshal_answer tm ot now rrs r) = resp_head r"
  by (induction rrs arbitrary: r) (simp_all add: Let_def)

lemma marshal_authority_sel [simp]:
  "rs_Authority (marshal_authority tm ot now rrs r) = rs_Authority r @ map (\<lambda>rr. marshalRR tm ot rr now) rrs"
  "rs_Answer (marshal_authority tm ot now rrs r) = rs_Answer r"
  "rs_Additional (marshal_authority tm ot now rrs r) = rs_Additional r"
  "rs_Status (marshal_authority tm ot now rrs r) = rs_Status r"
  "rs_EdnsClientSubnet (marshal_authority tm ot now rrs r) = rs_EdnsClientSubnet r"
  "resp_head (marshal_authority tm ot now rrs r) = resp_head r"
  by (induction rrs arbitrary: r) (simp_all add: Let_def)

abbreviation ttls :: "RR list \<Rightarrow> u32 list" where
  "ttls rrs \<equiv> map (\<lambda>rr. hdr_Ttl (Header rr)) rrs"

lemma ttl_inv_rr:
  "ttl_inv now ts r \<Longrightarrow> ttl_inv now (ts @ [hdr_Ttl (Header rr)]) (note_ttl (marshalRR tm ot rr now) r)"
  using ttl_inv_note [of now ts r "marshalRR tm ot rr now"] by simp

lemma ttl_inv_answer:
  "ttl_inv now ts r \<Longrightarrow> ttl_inv now (ts @ ttls rrs) (marshal_answer tm ot now rrs r)"
proof (induction rrs arbitrary: r ts)
  case (Cons rr rrs)
  show ?case using Cons.IH [of "ts @ [hdr_Ttl (Header rr)]"] ttl_inv_rr [OF Cons.prems] by (simp add: Let_def)
qed simp

lemma ttl_inv_authority:
  "ttl_inv now ts r \<Longrightarrow> ttl_inv now (ts @ ttls rrs) (marshal_authority tm ot now rrs r)"
proof (induction rrs arbitrary: r ts)
  case (Cons rr rrs)
  show ?case using Cons.IH [of "ts @ [hdr_Ttl (Header rr)]"] ttl_inv_rr [OF Cons.prems] by (simp add: Let_def)
qed simp

subsection \<open>The additional section\<close>

abbreviation not_OPT :: "RR \<Rightarrow> bool" where
  "not_OPT rr \<equiv> hdr_Rrtype (Header rr) \<noteq> TypeOPT"

text \<open>The client-subnet options of a list, in order; the last one is reported.\<close>

definition subnets :: "EDNS0 list \<Rightarrow> EDNS0_SUBNET list" where
  "subnets os = concat (map (\<lambda>e. case e of Opt_SUBNET s \<Rightarrow> [s] | _ \<Rightarrow> []) os)"

definition report_ecs :: "EDNS0_SUBNET list \<Rightarrow> string \<Rightarrow> string" where
  "report_ecs ss old = (if ss = [] then old else ecs_text (last ss))"

lemma marshal_options_typed:
  "list_all (\<lambda>e. EDNS0_Option e = EDNS0SUBNET \<longrightarrow> (\<exists>s. e = Opt_SUBNET s)) os \<Longrightarrow>
     marshal_options os r = Ret (r\<lparr>rs_EdnsClientSubnet := report_ecs (subnets os) (rs_EdnsClientSubnet r)\<rparr>)"
proof (induction os arbitrary: r)
  case Nil
  then show ?case by (simp add: report_ecs_def subnets_def)
next
  case (Cons e es)
  then show ?case
    by (cases "EDNS0_Option e = EDNS0SUBNET") (auto simp: report_ecs_def subnets_def split: EDNS0.splits)
qed

definition opt_options :: "RR \<Rightarrow> EDNS0 list" where
  "opt_options rr = (case rr of RR_OPT _ os \<Rightarrow> os | _ \<Rightarrow> [])"

text \<open>The client-subnet options of a message, in order.\<close>

abbreviation msg_subnets :: "Msg \<Rightarrow> EDNS0_SUBNET list" where
  "msg_subnets m \<equiv> concat (map (\<lambda>rr. subnets (opt_options rr)) (msg_Extra m))"

text \<open>What the loop over the additional section computes when it does not panic.\<close>

lemma marshal_extra_typed:
  assumes "list_all opt_typed rrs" and "ttl_inv now ts r"
  shows "\<exists>r'. marshal_extra tm ot now rrs r = Ret r' \<and>
    rs_Answer r' = rs_Answer r \<and> rs_Authority r' = rs_Authority r \<and> resp_head r' = resp_head r \<and>
    rs_Additional r' = rs_Additional r @ map (\<lambda>rr. marshalRR tm ot rr now) (filter not_OPT rrs) \<and>
    rs_Status r' = foldl (\<lambda>s rr. extended_status (hdr_Ttl (Header rr)) s) (rs_Status r)
                     (filter (\<lambda>rr. \<not> not_OPT rr) rrs) \<and>
    rs_EdnsClientSubnet r' = report_ecs (concat (map (\<lambda>rr. subnets (opt_options rr)) rrs)) (rs_EdnsClientSubnet r) \<and>
    ttl_inv now (ts @ ttls (filter not_OPT rrs)) r'"
  using assms
proof (induction rrs arbitrary: r ts)
  case Nil
  then show ?case by (simp add: report_ecs_def)
next
  case (Cons rr rrs)
  show ?case
  proof (cases "not_OPT rr")
    case True
    have "opt_options rr = []" using Cons.prems(1) True by (auto simp: opt_typed_def opt_options_def split: RR.splits)
    with True Cons.IH [OF _ ttl_inv_sections(3) [THEN iffD2, OF ttl_inv_rr [OF Cons.prems(2), of rr tm ot]]]
    show ?thesis using Cons.prems(1) by (fastforce simp: Let_def subnets_def)
  next
    case False
    then obtain h os where rr: "rr = RR_OPT h os"
      and os: "list_all (\<lambda>e. EDNS0_Option e = EDNS0SUBNET \<longrightarrow> (\<exists>s. e = Opt_SUBNET s)) os"
      using Cons.prems(1) by (auto simp: opt_typed_def split: RR.splits)
    let ?r1 = "r\<lparr>rs_Status := extended_status (hdr_Ttl h) (rs_Status r),
      rs_EdnsClientSubnet := report_ecs (subnets os) (rs_EdnsClientSubnet r)\<rparr>"
    have "ttl_inv now ts ?r1" using Cons.prems(2) by simp
    from Cons.IH [OF _ this] Cons.prems(1) show ?thesis
      using False by (fastforce simp: rr Let_def marshal_options_typed [OF os] report_ecs_def opt_options_def)
  qed
qed

subsection \<open>The whole message\<close>

text \<open>The records whose TTL counts: all but the OPT records of the additional section.\<close>

definition ttl_records :: "Msg \<Rightarrow> RR list" where
  "ttl_records m = msg_Answer m @ msg_Ns m @ filter not_OPT (msg_Extra m)"

lemma Marshal_typed:
  assumes "msg_typed m"
  shows "\<exists>r. Marshal tm ot now m = Ret r \<and>
    rs_Answer r = map (\<lambda>rr. marshalRR tm ot rr now) (msg_Answer m) \<and>
    rs_Authority r = map (\<lambda>rr. marshalRR tm ot rr now) (msg_Ns m) \<and>
    rs_Additional r = map (\<lambda>rr. marshalRR tm ot rr now) (filter not_OPT (msg_Extra m)) \<and>
    resp_head r = (msg_Truncated m, msg_RecursionDesired m, msg_RecursionAvailable m,
      msg_AuthenticatedData m, msg_CheckingDisabled m,
      map (\<lambda>q. \<lparr>jq_Name = q_Name q, jq_Type = q_Qtype q\<rparr>) (msg_Question m), []) \<and>
    rs_Status r = foldl (\<lambda>s rr. extended_status (hdr_Ttl (Header rr)) s) (word_of_int (msg_Rcode m))
                    (filter (\<lambda>rr. \<not> not_OPT rr) (msg_Extra m)) \<and>
    rs_EdnsClientSubnet r = report_ecs (msg_subnets m) [] \<and>
    ttl_inv now (ttls (ttl_records m)) r"
proof -
  define r0 where "r0 = new_Response
    \<lparr>rs_Status := word_of_int (msg_Rcode m), rs_TC := msg_Truncated m,
     rs_RD := msg_RecursionDesired m, rs_RA := msg_RecursionAvailable m,
     rs_AD := msg_AuthenticatedData m, rs_CD := msg_CheckingDisabled m,
     rs_Question := map (\<lambda>q. \<lparr>jq_Name = q_Name q, jq_Type = q_Qtype q\<rparr>) (msg_Question m)\<rparr>"
  have r0: "ttl_inv now [] r0" by (simp add: r0_def ttl_inv_def new_Response_def)
  let ?r2 = "marshal_authority tm ot now (msg_Ns m) (marshal_answer tm ot now (msg_Answer m) r0)"
  have r2: "ttl_inv now (ttls (msg_Answer m) @ ttls (msg_Ns m)) ?r2"
    using ttl_inv_authority [OF ttl_inv_answer [OF r0]] by simp
  have "Marshal tm ot now m = marshal_extra tm ot now (msg_Extra m) ?r2"
    by (simp add: Marshal_def r0_def)
  moreover have "rs_Answer r0 = []" "rs_Authority r0 = []" "rs_Additional r0 = []"
    "rs_Status r0 = word_of_int (msg_Rcode m)" "rs_EdnsClientSubnet r0 = []"
    "resp_head r0 = (msg_Truncated m, msg_RecursionDesired m, msg_RecursionAvailable m,
      msg_AuthenticatedData m, msg_CheckingDisabled m,
      map (\<lambda>q. \<lparr>jq_Name = q_Name q, jq_Type = q_Qtype q\<rparr>) (msg_Question m), [])"
    by (simp_all add: r0_def new_Response_def resp_head_def)
  moreover have "list_all opt_typed (msg_Extra m)" using assms by (simp add: msg_typed_def)
  note marshal_extra_typed [OF this r2, of tm ot]
  ultimately show ?thesis by (fastforce simp: ttl_records_def)
qed

lemma ttl_inv_Min:
  "ttl_inv now ts r \<Longrightarrow> ts \<noteq> [] \<Longrightarrow> rs_LeastTTL r = Min (set ts)"
  by (auto simp: ttl_inv_def intro!: Min_eqI [symmetric])

subsection \<open>The text of a record\<close>

lemma marshalRR_data:
  assumes "hdr_Rrtype h \<noteq> TypeOPT"
  shows "jr_Data (marshalRR tm ot (RR_Other h txt) now) = txt"
proof -
  have "strings_SplitN tab 5 (RR_String ot (RR_Other h txt)) =
      [sprintName (hdr_Name h), strconv_Itoa (unat (hdr_Ttl h)), Class_String (hdr_Class h),
       Type_String (hdr_Rrtype h), txt]"
    using assms SplitN_five_fields [OF no_tab_sprintName no_tab_digits no_tab_Class_String no_tab_Type_String]
    by (simp add: RR_Header_String_def)
  then show ?thesis by (simp add: marshalRR_def Let_def)
qed

lemma marshalRR_data_3597:
  "jr_Data (marshalRR tm ot (RR_RFC3597 h d) now) = RFC3597_text d"
proof -
  have t: "tab \<notin> set (''CLASS'' @ strconv_Itoa (unat (hdr_Class h)))"
    "tab \<notin> set (''TYPE'' @ strconv_Itoa (unat (hdr_Rrtype h)))"
    by (simp_all add: no_tab_digits)
  show ?thesis
    using SplitN_five_fields [OF no_tab_sprintName no_tab_digits t, of "hdr_Name h"]
    by (simp add: marshalRR_def Let_def rfc3597Header_def)
qed

subsection \<open>Expiry times\<close>

text \<open>An instant cut to whole seconds, which is what the layout \<^verbatim>\<open>RFC1123\<close> keeps of it.\<close>

definition whole_seconds :: "int \<Rightarrow> int" where
  "whole_seconds t = t - t mod Second"

lemma whole_seconds_le: "whole_seconds t \<le> t" "t - Second < whole_seconds t"
  by (simp_all add: whole_seconds_def)

lemma time_Sub_exact: "minDuration \<le> t - u \<Longrightarrow> t - u \<le> maxDuration \<Longrightarrow> time_Sub t u = t - u"
  by (simp add: time_Sub_def)

lemma time_Sub_le: "t - u \<le> d \<Longrightarrow> minDuration \<le> d \<Longrightarrow> time_Sub t u \<le> d"
  by (auto simp: time_Sub_def)

lemma minDuration_le: "0 \<le> d \<Longrightarrow> minDuration \<le> d"
  by (simp add: minDuration_def)

lemma word_of_int_le_u32:
  "0 \<le> i \<Longrightarrow> i \<le> int (unat (t :: u32)) \<Longrightarrow> word_of_int i \<le> t"
proof -
  assume a: "0 \<le> i" "i \<le> int (unat t)"
  have "int (unat t) < 2 ^ 32" using unsigned_less [of t, where ?'a = int] by simp
  with a have "uint (word_of_int i :: u32) = i" by (simp add: uint_word_of_int)
  with a show ?thesis by (simp add: word_le_def)
qed

text \<open>A client whose clock is not behind the server's never lengthens the life of a record.\<close>

lemma expiry_ttl_le:
  assumes "now \<le> now'"
  shows "expiry_ttl (whole_seconds (now + int (unat ttl) * Second)) now' ttl \<le> ttl"
proof -
  let ?e = "whole_seconds (now + int (unat ttl) * Second)"
  have "?e - now' \<le> int (unat ttl) * Second" using assms whole_seconds_le(1) [of "now + int (unat ttl) * Second"] by simp
  then have "time_Sub ?e now' \<le> int (unat ttl) * Second" by (rule time_Sub_le) (simp add: minDuration_le Second_def)
  then have "go_quot (time_Sub ?e now') Second \<le> int (unat ttl)" by (intro go_quot_le) simp_all
  then show ?thesis by (auto simp: expiry_ttl_def Let_def intro: word_of_int_le_u32)
qed

text \<open>A record that expired at least a second ago gets its full original TTL again.\<close>

lemma expiry_ttl_expired:
  assumes "expires + Second \<le> now"
  shows "expiry_ttl expires now ttl = ttl"
proof -
  have "time_Sub expires now \<le> - Second" using assms by (intro time_Sub_le) (simp_all add: minDuration_def Second_def)
  then have "1 \<le> (- time_Sub expires now) div Second"
    using zdiv_mono1 [of Second "- time_Sub expires now" Second] by (simp add: Second_def)
  moreover have "time_Sub expires now < 0" using \<open>_ \<le> - Second\<close> Second_pos by linarith
  ultimately have "go_quot (time_Sub expires now) Second < 0" by (simp add: go_quot_neg)
  then show ?thesis by (simp add: expiry_ttl_def)
qed

text \<open>On a live record the client's TTL is what is left of it, up to a second.\<close>

lemma expiry_ttl_live:
  assumes "now' \<le> whole_seconds (now + int (unat ttl) * Second)" and "now \<le> now'"
  shows "int (unat (expiry_ttl (whole_seconds (now + int (unat ttl) * Second)) now' ttl)) =
    (whole_seconds (now + int (unat ttl) * Second) - now') div Second"
proof -
  let ?e = "whole_seconds (now + int (unat ttl) * Second)"
  have t: "int (unat ttl) < 2 ^ 32" using unsigned_less [of ttl, where ?'a = int] by simp
  have le: "?e - now' \<le> int (unat ttl) * Second"
    using assms whole_seconds_le(1) [of "now + int (unat ttl) * Second"] by linarith
  also have "\<dots> \<le> maxDuration" using t by (simp add: Second_def maxDuration_def)
  finally have "time_Sub ?e now' = ?e - now'" using assms by (intro time_Sub_exact) (simp_all add: minDuration_def)
  then have q: "go_quot (time_Sub ?e now') Second = (?e - now') div Second" using assms by (simp add: go_quot_nonneg)
  have "0 \<le> (?e - now') div Second" using assms by (simp add: pos_imp_zdiv_nonneg_iff)
  moreover have "(?e - now') div Second \<le> int (unat ttl)"
    using zdiv_mono1 [OF le Second_pos] by (simp add: Second_def)
  ultimately show ?thesis using q t by (simp add: expiry_ttl_def Let_def uint_word_of_int)
qed

subsection \<open>Records there and back\<close>

text \<open>
  What the code relies on of Go's \<^verbatim>\<open>time\<close> package: an instant between 1970 and the year 9999, printed in
  the layout \<^verbatim>\<open>RFC1123\<close>, is not empty and reads back cut to whole seconds.
\<close>

definition layout_range :: "int \<Rightarrow> bool" where
  "layout_range t \<longleftrightarrow> 0 \<le> t \<and> t < 253402300800 * Second"

definition rfc1123_ok :: "timelib \<Rightarrow> bool" where
  "rfc1123_ok tm \<longleftrightarrow>
     (\<forall>t. layout_range t \<longrightarrow>
        fmt_RFC1123 tm t \<noteq> [] \<and> parse_RFC1123 tm (fmt_RFC1123 tm t) = Some (whole_seconds t))"

text \<open>A clock reading to which every TTL can be added.\<close>

definition clock_ok :: "int \<Rightarrow> bool" where
  "clock_ok now \<longleftrightarrow> 0 \<le> now \<and> layout_range (now + 2 ^ 32 * Second)"

lemma clock_ok_ttl: "clock_ok now \<Longrightarrow> layout_range (now + int (unat (ttl :: u32)) * Second)"
proof -
  assume a: "clock_ok now"
  have "int (unat ttl) < 2 ^ 32" using unsigned_less [of ttl, where ?'a = int] by simp
  with a show ?thesis by (simp add: clock_ok_def layout_range_def Second_def)
qed

text \<open>A record whose text can be carried in JSON: a plain name, a type with a mnemonic, one line.\<close>

definition json_safe :: "RR_Header \<Rightarrow> string \<Rightarrow> bool" where
  "json_safe h rd \<longleftrightarrow>
     \<not> strings_ContainsAny (hdr_Name h) bad_name_chars \<and> hdr_Rrtype h \<noteq> TypeOPT \<and>
     map_of TypeToString (hdr_Rrtype h) \<noteq> None \<and> hdr_Class h = ClassINET \<and>
     \<not> strings_ContainsAny rd [CHR 0x0D, CHR 0x0A]"

definition aged :: "int \<Rightarrow> int \<Rightarrow> u32 \<Rightarrow> u32" where
  "aged now now' ttl = expiry_ttl (whole_seconds (now + int (unat ttl) * Second)) now' ttl"

lemma unmarshal_marshalRR:
  assumes "rfc1123_ok tm" and "clock_ok now" and "json_safe h rd"
  shows "unmarshalRR lib tm newRR now' (marshalRR tm ot (RR_Other h rd) now) =
    newRR (zone_text (hdr_Name h) (aged now now' (hdr_Ttl h)) (Type_String (hdr_Rrtype h)) rd)"
  using assms marshalRR_data [of h tm ot rd now] clock_ok_ttl [OF assms(2), of "hdr_Ttl h"]
  by (auto simp: unmarshalRR_def rfc1123_ok_def json_safe_def aged_def Type_String_def)

text \<open>
  The zone parser reads back the line of a record: the record with the TTL of the line. As its documentation
  says, \<^verbatim>\<open>NewRR\<close> leaves the length of the record data at 0, whatever it was in the record that was printed.
\<close>

definition reads_back :: "(string \<Rightarrow> string + RR) \<Rightarrow> RR \<Rightarrow> bool" where
  "reads_back newRR rr \<longleftrightarrow>
     (case rr of
        RR_Other h rd \<Rightarrow>
          json_safe h rd \<and>
          (\<forall>ttl. newRR (zone_text (hdr_Name h) ttl (Type_String (hdr_Rrtype h)) rd) =
                   Inr (RR_Other (h\<lparr>hdr_Ttl := ttl, hdr_Rdlength := 0\<rparr>) rd))
      | _ \<Rightarrow> False)"

text \<open>A record after the way there and back: the time that is left of its TTL, and no length of its data.\<close>

definition age_RR :: "int \<Rightarrow> int \<Rightarrow> RR \<Rightarrow> RR" where
  "age_RR now now' rr =
     set_Header ((Header rr)\<lparr>hdr_Ttl := aged now now' (hdr_Ttl (Header rr)), hdr_Rdlength := 0\<rparr>) rr"

lemma unmarshal_section_marshal:
  "rfc1123_ok tm \<Longrightarrow> clock_ok now \<Longrightarrow> list_all (reads_back newRR) rrs \<Longrightarrow>
     unmarshal_section lib tm newRR now' (map (\<lambda>rr. marshalRR tm ot rr now) rrs) = map (age_RR now now') rrs"
proof (induction rrs)
  case (Cons rr rrs)
  from Cons.prems(3) obtain h rd where rr: "rr = RR_Other h rd" and safe: "json_safe h rd"
    and rb: "\<And>ttl. newRR (zone_text (hdr_Name h) ttl (Type_String (hdr_Rrtype h)) rd) =
      Inr (RR_Other (h\<lparr>hdr_Ttl := ttl, hdr_Rdlength := 0\<rparr>) rd)"
    by (auto simp: reads_back_def split: RR.splits)
  with Cons show ?case by (simp add: unmarshal_marshalRR rb age_RR_def)
qed simp

subsection \<open>Status\<close>

lemma mask_consts:
  "(0xf :: u32) = mask 4" "(0xff :: u32) = mask 8" "(0xfff :: u32) = mask 12"
  "(0xff0 :: u32) = push_bit 4 (mask 8)" "(0xff000000 :: u32) = push_bit 24 (mask 8)"
  "(0x00ffffff :: u32) = mask 24"
  by (simp_all add: mask_eq_exp_minus_1)

lemma status_round_trip:
  "extended_status ((t AND 0x00ffffff) OR push_bit 20 (s AND 0xff0)) (s AND 0xf) = s AND 0xfff"
  unfolding extended_status_def mask_consts
  by (rule bit_word_eqI) (auto simp: bit_simps)

subsection \<open>Client subnet\<close>

lemma no_slash_digits: "CHR ''/'' \<notin> set (strconv_Itoa n)"
proof -
  have "\<not> is_digit CHR ''/''" by (simp add: is_digit_def)
  then show ?thesis using Itoa_digits [of n] by (auto simp: list_all_iff)
qed

text \<open>The subnet that the client makes of a reported one; \<open>netmask\<close> is the prefix length it asked with, 255 for none.\<close>

definition reported_address :: "EDNS0_SUBNET \<Rightarrow> bytes" where
  "reported_address s = (case sub_Address s of None \<Rightarrow> [0, 0, 0, 0] | Some a \<Rightarrow> a)"

definition read_subnet :: "u8 \<Rightarrow> EDNS0_SUBNET \<Rightarrow> EDNS0_SUBNET" where
  "read_subnet netmask s =
     (let v4 = To4 (reported_address s) \<noteq> None in
      \<lparr>sub_Code = EDNS0SUBNET, sub_Family = (if v4 then 1 else 2),
       sub_SourceNetmask = (if netmask = 255 then (if v4 then 24 else 56) else netmask),
       sub_SourceScope = sub_SourceScope s, sub_Address = Some (short_ip (reported_address s))\<rparr>)"

lemma parse_ecs_Nil [simp]: "parse_ecs [] = (0, None, 255)"
  by (simp add: parse_ecs_def)

lemma parse_ecs_text:
  assumes "ip_bytes (reported_address s)"
  shows "parse_ecs (ecs_text s) =
    (if To4 (reported_address s) = None then 2 else 1, Some (short_ip (reported_address s)), sub_SourceScope s)"
proof -
  let ?a = "reported_address s"
  obtain ip where ip: "ParseIP (IP_String ?a) = Some ip" "To4 ip = To4 ?a" "short_ip ip = short_ip ?a"
    using ParseIP_String [OF assms] by blast
  have "ecs_text s = IP_String (short_ip ?a) @ CHR ''/'' # strconv_Itoa (unat (sub_SourceScope s))"
    by (auto simp: ecs_text_def reported_address_def short_ip_def split: option.split)
  then have ecs: "ecs_text s = IP_String ?a @ CHR ''/'' # strconv_Itoa (unat (sub_SourceScope s))"
    by (simp only: IP_String_short [OF assms])
  have "CHR ''/'' \<notin> set (IP_String ?a)" using IP_String_chars [OF assms, of "CHR ''/''"] is_hex_not by auto
  note slash = IndexByte_append [OF this, of "strconv_Itoa (unat (sub_SourceScope s))"]
  have "strconv_ParseUint (strconv_Itoa (unat (sub_SourceScope s))) 8 = (unat (sub_SourceScope s), None)"
    using unat_byte_lt [of "sub_SourceScope s"] by (intro ParseUint_Itoa) simp
  then show ?thesis
    using slash ip by (auto simp: parse_ecs_def ecs short_ip_def split: option.split)
qed

subsection \<open>Concrete layouts and parser\<close>

text \<open>
  A layout that prints whole seconds in decimal, and a reader of five-field zone lines: they meet the
  assumptions on the library, so the round trips apply to them.
\<close>

definition decimal_timelib :: timelib where
  "decimal_timelib =
     \<lparr>fmt_RFC1123 = (\<lambda>t. itoa_int (t div Second)),
      parse_RFC1123 = (\<lambda>s. case strconv_Atoi s of (i, None) \<Rightarrow> Some (i * Second) | _ \<Rightarrow> None),
      fmt_HTTP = (\<lambda>t. itoa_int (t div Second)),
      parse_HTTP = (\<lambda>s. case strconv_Atoi s of (i, None) \<Rightarrow> Some (i * Second) | _ \<Rightarrow> None)\<rparr>"

lemma decimal_seconds:
  assumes "layout_range t"
  shows "itoa_int (t div Second) \<noteq> []"
    and "strconv_Atoi (itoa_int (t div Second)) = (t div Second, None)"
proof -
  have "0 \<le> t div Second" using assms by (simp add: layout_range_def pos_imp_zdiv_nonneg_iff)
  moreover have "t div Second < 253402300800"
    using assms zdiv_mono1 [of t "253402300800 * Second - 1" Second] by (simp add: layout_range_def Second_def)
  ultimately show "itoa_int (t div Second) \<noteq> []"
    and "strconv_Atoi (itoa_int (t div Second)) = (t div Second, None)"
    by (simp_all add: itoa_int_def Atoi_Itoa)
qed

lemma decimal_rfc1123_ok: "rfc1123_ok decimal_timelib"
  by (auto simp: rfc1123_ok_def decimal_timelib_def decimal_seconds whole_seconds_def
      minus_mod_eq_div_mult)

definition five_field_RR :: "string \<Rightarrow> string + RR" where
  "five_field_RR z =
     (case strings_SplitN CHR '' '' 5 z of
        [n, t, c, ty, d] \<Rightarrow>
          (case StringToType ty of
             Some rrtype \<Rightarrow>
               Inr (RR_Other \<lparr>hdr_Name = n, hdr_Rrtype = rrtype, hdr_Class = ClassINET,
                      hdr_Ttl = of_nat (fst (strconv_ParseUint t 32)), hdr_Rdlength = 0\<rparr> d)
           | None \<Rightarrow> Inl ''dns: unknown type'')
      | _ \<Rightarrow> Inl ''dns: bad line'')"

lemma five_field_reads_back:
  assumes "json_safe h rd" and "CHR '' '' \<notin> set (Type_String (hdr_Rrtype h))"
    and "StringToType (Type_String (hdr_Rrtype h)) = Some (hdr_Rrtype h)"
  shows "reads_back five_field_RR (RR_Other h rd)"
proof -
  have n: "CHR '' '' \<notin> set (hdr_Name h)"
    using assms(1) by (auto simp: json_safe_def strings_ContainsAny_def bad_name_chars_def list_ex_iff)
  have d: "CHR '' '' \<notin> set (strconv_Itoa k)" for k
    using Itoa_digits [of k] by (auto simp: list_all_iff is_digit_def)
  have "five_field_RR (zone_text (hdr_Name h) ttl (Type_String (hdr_Rrtype h)) rd) =
      Inr (RR_Other (h\<lparr>hdr_Ttl := ttl, hdr_Rdlength := 0\<rparr>) rd)" for ttl :: u32
  proof -
    have "strings_SplitN CHR '' '' 5 (zone_text (hdr_Name h) ttl (Type_String (hdr_Rrtype h)) rd) =
        [hdr_Name h, strconv_Itoa (unat ttl), ''IN'', Type_String (hdr_Rrtype h), rd]"
      using SplitN_five_fields [OF n d _ assms(2), of "''IN''" "unat ttl" rd] by (simp add: zone_text_def)
    moreover have "strconv_ParseUint (strconv_Itoa (unat ttl)) 32 = (unat ttl, None)"
      using unsigned_less [of ttl, where ?'a = nat] by (intro ParseUint_Itoa) simp
    ultimately show ?thesis using assms by (simp add: five_field_RR_def json_safe_def)
  qed
  with assms(1) show ?thesis by (simp add: reads_back_def)
qed

definition example_RR :: RR where
  "example_RR =
     RR_Other \<lparr>hdr_Name = ''a.example.'', hdr_Rrtype = 1, hdr_Class = 1, hdr_Ttl = 300, hdr_Rdlength = 4\<rparr>
       ''192.0.2.1''"

lemma example_RR_back: "reads_back five_field_RR example_RR"
proof -
  have t: "Type_String 1 = ''A''" "StringToType ''A'' = Some 1" "map_of TypeToString 1 = Some ''A''" by code_simp+
  show ?thesis unfolding example_RR_def
    by (rule five_field_reads_back)
       (auto simp: json_safe_def t strings_ContainsAny_def bad_name_chars_def dns_consts)
qed

subsection \<open>Unmarshal\<close>

text \<open>The OPT record that heads the additional section of an unmarshalled reply.\<close>

definition reply_OPT :: "Response \<Rightarrow> u16 \<Rightarrow> u8 \<Rightarrow> RR_Header \<times> EDNS0 list" where
  "reply_OPT resp udpSize netmask =
     (\<lparr>hdr_Name = ''.'', hdr_Rrtype = TypeOPT, hdr_Class = max 512 udpSize,
       hdr_Ttl = push_bit 20 (rs_Status resp AND 0xff0), hdr_Rdlength = 0\<rparr>,
      case parse_ecs (rs_EdnsClientSubnet resp) of
        (fam, None, scope) \<Rightarrow> []
      | (fam, Some a, scope) \<Rightarrow>
          [Opt_SUBNET \<lparr>sub_Code = EDNS0SUBNET, sub_Family = fam,
             sub_SourceNetmask = (if netmask = 255 then (if fam = 1 then 24 else 56) else netmask),
             sub_SourceScope = scope, sub_Address = Some a\<rparr>])"

lemma Unmarshal_Extra:
  "msg_Extra (Unmarshal lib tm newRR now m resp udpSize netmask) =
     RR_OPT (fst (reply_OPT resp udpSize netmask)) (snd (reply_OPT resp udpSize netmask))
       # unmarshal_section lib tm newRR now (rs_Additional resp)"
  by (auto simp: Unmarshal_def reply_OPT_def Let_def new_OPT_header_def OPT_SetUDPSize_def OPT_SetDo_def
      max_def not_le split: prod.splits option.splits)

lemma Unmarshal_sel:
  "msg_Answer (Unmarshal lib tm newRR now m resp u nm) = unmarshal_section lib tm newRR now (rs_Answer resp)"
  "msg_Ns (Unmarshal lib tm newRR now m resp u nm) = unmarshal_section lib tm newRR now (rs_Authority resp)"
  "msg_Rcode (Unmarshal lib tm newRR now m resp u nm) = uint (rs_Status resp AND 0xf)"
  "msg_Id (Unmarshal lib tm newRR now m resp u nm) = msg_Id m"
  "msg_Response (Unmarshal lib tm newRR now m resp u nm) = msg_Response m"
  "msg_Opcode (Unmarshal lib tm newRR now m resp u nm) = msg_Opcode m"
  "msg_Question (Unmarshal lib tm newRR now m resp u nm) = msg_Question m"
  by (simp_all add: Unmarshal_def Let_def split: prod.splits)

text \<open>A message through JSON and back.\<close>

lemma unmarshal_marshal:
  assumes "msg_typed m" and "list_all (reads_back newRR) (ttl_records m)"
    and "rfc1123_ok tm" and "clock_ok now" and "Marshal tm ot now m = Ret resp"
  shows "let reply = Unmarshal lib tm newRR now' (PrepareReply req) resp udpSize netmask in
    msg_Answer reply = map (age_RR now now') (msg_Answer m) \<and>
    msg_Ns reply = map (age_RR now now') (msg_Ns m) \<and>
    (\<exists>opt os. msg_Extra reply = RR_OPT opt os # map (age_RR now now') (filter not_OPT (msg_Extra m))) \<and>
    msg_Id reply = msg_Id req \<and> msg_Response reply \<and> msg_Question reply = msg_Question req"
proof -
  obtain r where "Marshal tm ot now m = Ret r"
    "rs_Answer r = map (\<lambda>rr. marshalRR tm ot rr now) (msg_Answer m)"
    "rs_Authority r = map (\<lambda>rr. marshalRR tm ot rr now) (msg_Ns m)"
    "rs_Additional r = map (\<lambda>rr. marshalRR tm ot rr now) (filter not_OPT (msg_Extra m))"
    using Marshal_typed [OF assms(1), of tm ot now] by blast
  with assms show ?thesis
    by (simp add: Unmarshal_sel Unmarshal_Extra unmarshal_section_marshal ttl_records_def PrepareReply_def
        new_Msg_def)
qed

section \<open>Properties\<close>

text \<open>C20: Marshalling a well-typed message does not panic, and the response reports a TTL exactly when
  some record other than an OPT record is present; it then is the least TTL of those records, and the
  earliest expiry time is the current time plus that TTL.\<close>

theorem Marshal_least_ttl:
  assumes "msg_typed m"
  shows "\<exists>r. Marshal tm ot now m = Ret r \<and>
    (rs_HaveTTL r \<longleftrightarrow> ttl_records m \<noteq> []) \<and>
    (ttl_records m \<noteq> [] \<longrightarrow>
       rs_LeastTTL r = Min (set (ttls (ttl_records m))) \<and>
       rs_EarliestExpires r = now + int (unat (rs_LeastTTL r)) * Second)"
proof -
  obtain r where r: "Marshal tm ot now m = Ret r" "ttl_inv now (ttls (ttl_records m)) r"
    using Marshal_typed [OF assms, of tm ot now] by blast
  with ttl_inv_Min [OF r(2)] show ?thesis by (auto simp: ttl_inv_def)
qed

definition example_msg :: Msg where
  "example_msg =
     new_Msg\<lparr>msg_Answer := [example_RR, set_Header (Header example_RR\<lparr>hdr_Ttl := 60\<rparr>) example_RR],
       msg_Extra := [RR_OPT (new_OPT_header\<lparr>hdr_Rrtype := TypeOPT, hdr_Ttl := 0\<rparr>) []]\<rparr>"

lemma example_msg_typed: "msg_typed example_msg"
  by (simp add: example_msg_def msg_typed_def opt_typed_def)

lemma example_msg_records:
  "ttl_records example_msg = [example_RR, set_Header (Header example_RR\<lparr>hdr_Ttl := 60\<rparr>) example_RR]"
  by (simp add: example_msg_def ttl_records_def new_Msg_def)

theorem Marshal_least_ttl_witness:
  "\<exists>r. Marshal decimal_timelib (\<lambda>_. []) 0 example_msg = Ret r \<and> rs_HaveTTL r \<and> rs_LeastTTL r = 60"
  using Marshal_least_ttl [OF example_msg_typed, of decimal_timelib "\<lambda>_. []" 0]
  by (auto simp: example_msg_records example_RR_def)

text \<open>C8: A message that the server turns into a JSON response and the client turns back keeps its answer
  and authority sections and its additional section (less the OPT records, and behind a fresh OPT
  record), record for record and in order, with each TTL replaced by the time that is left and the length of the
  record data, which packing computes anew, at 0; identifier and question are those of the client's
  request.\<close>

theorem Unmarshal_Marshal:
  assumes "msg_typed m" and "list_all (reads_back newRR) (ttl_records m)"
    and "rfc1123_ok tm" and "clock_ok now" and "Marshal tm ot now m = Ret resp"
  shows "let reply = Unmarshal lib tm newRR now' (PrepareReply req) resp udpSize netmask in
    msg_Answer reply = map (age_RR now now') (msg_Answer m) \<and>
    msg_Ns reply = map (age_RR now now') (msg_Ns m) \<and>
    (\<exists>opt os. msg_Extra reply = RR_OPT opt os # map (age_RR now now') (filter not_OPT (msg_Extra m))) \<and>
    msg_Id reply = msg_Id req \<and> msg_Response reply \<and> msg_Question reply = msg_Question req"
  using assms by (rule unmarshal_marshal)

theorem Unmarshal_Marshal_witness:
  "\<exists>resp. Marshal decimal_timelib (\<lambda>_. []) 0 (new_Msg\<lparr>msg_Answer := [example_RR]\<rparr>) = Ret resp \<and>
     msg_Answer (Unmarshal plain_golib decimal_timelib five_field_RR (100 * Second) (PrepareReply new_Msg) resp 4096 255)
       = [age_RR 0 (100 * Second) example_RR]"
proof -
  have t: "msg_typed (new_Msg\<lparr>msg_Answer := [example_RR]\<rparr>)" by (simp add: msg_typed_def new_Msg_def)
  moreover have "list_all (reads_back five_field_RR) (ttl_records (new_Msg\<lparr>msg_Answer := [example_RR]\<rparr>))"
    by (simp add: ttl_records_def new_Msg_def example_RR_back)
  moreover have "clock_ok 0" by (simp add: clock_ok_def layout_range_def Second_def)
  moreover obtain resp where
    "Marshal decimal_timelib (\<lambda>_. []) 0 (new_Msg\<lparr>msg_Answer := [example_RR]\<rparr>) = Ret resp"
    using Marshal_typed [OF t, of decimal_timelib "\<lambda>_. []" 0] by blast
  ultimately show ?thesis
    using Unmarshal_Marshal [of "new_Msg\<lparr>msg_Answer := [example_RR]\<rparr>" five_field_RR decimal_timelib 0
        "\<lambda>_. []" resp plain_golib "100 * Second" new_Msg 4096 255] decimal_rfc1123_ok
    by (auto simp: Let_def)
qed

text \<open>C31: Reading back a record that was written at time \<open>now\<close>, a client whose clock \<open>now'\<close> is not behind
  never asks for a longer TTL than the record had. While the record is alive the client's TTL is the
  number of whole seconds left. Once it has been expired for a second, the client uses the original TTL
  again.\<close>

theorem client_ttl:
  assumes "rfc1123_ok tm" and "clock_ok now" and "json_safe h rd" and "now \<le> now'"
  shows "\<exists>ttl. unmarshalRR lib tm newRR now' (marshalRR tm ot (RR_Other h rd) now) =
      newRR (zone_text (hdr_Name h) ttl (Type_String (hdr_Rrtype h)) rd) \<and>
    ttl \<le> hdr_Ttl h \<and>
    (let expires = whole_seconds (now + int (unat (hdr_Ttl h)) * Second) in
     (now' \<le> expires \<longrightarrow> int (unat ttl) = (expires - now') div Second) \<and>
     (expires + Second \<le> now' \<longrightarrow> ttl = hdr_Ttl h))"
  using unmarshal_marshalRR [OF assms(1-3), of lib newRR now' ot] expiry_ttl_le [OF assms(4)]
    expiry_ttl_live [OF _ assms(4)] expiry_ttl_expired
  by (simp add: aged_def Let_def) blast

theorem client_ttl_witness:
  "\<exists>ttl. unmarshalRR plain_golib decimal_timelib five_field_RR (100 * Second)
       (marshalRR decimal_timelib (\<lambda>_. []) example_RR 0) =
     five_field_RR (zone_text ''a.example.'' ttl (Type_String 1) ''192.0.2.1'') \<and> int (unat ttl) = 200"
proof -
  have j: "json_safe (Header example_RR) ''192.0.2.1''"
    using example_RR_back by (simp add: reads_back_def example_RR_def)
  moreover have "clock_ok 0" by (simp add: clock_ok_def layout_range_def Second_def)
  ultimately show ?thesis
    using client_ttl [OF decimal_rfc1123_ok, of 0 "Header example_RR" "''192.0.2.1''" "100 * Second"
        plain_golib five_field_RR "\<lambda>_. []"]
    by (auto simp: example_RR_def Let_def whole_seconds_def Second_def)
qed

text \<open>The twelve bits of an extended response code survive the way through a reply: marshalling the
  unmarshalled reply gives the low twelve bits of the status, and the client's OPT record announces at
  least 512 bytes.\<close>

lemma status_survives:
  assumes "list_all (\<lambda>j. \<forall>rr. unmarshalRR lib tm newRR now j = Inr rr \<longrightarrow> not_OPT rr \<and> opt_typed rr)
      (rs_Additional resp)"
  shows "\<exists>r. Marshal tm ot now2 (Unmarshal lib tm newRR now m resp udpSize netmask) = Ret r \<and>
      rs_Status r = rs_Status resp AND 0xfff \<and>
      512 \<le> OPT_UDPSize (fst (reply_OPT resp udpSize netmask))"
proof -
  let ?m = "Unmarshal lib tm newRR now m resp udpSize netmask"
  have sec: "list_all (\<lambda>rr. not_OPT rr \<and> opt_typed rr) (unmarshal_section lib tm newRR now js)"
    if "list_all (\<lambda>j. \<forall>rr. unmarshalRR lib tm newRR now j = Inr rr \<longrightarrow> not_OPT rr \<and> opt_typed rr) js" for js
    using that by (induction js) (auto split: sum.splits)
  have opt: "opt_typed (RR_OPT (fst (reply_OPT resp udpSize netmask)) (snd (reply_OPT resp udpSize netmask)))"
    by (auto simp: opt_typed_def reply_OPT_def split: option.splits prod.splits)
  have typed: "msg_typed ?m"
    using sec [OF assms] opt by (auto simp: msg_typed_def Unmarshal_Extra list_all_iff)
  have "filter (\<lambda>rr. \<not> not_OPT rr) (msg_Extra ?m) =
      [RR_OPT (fst (reply_OPT resp udpSize netmask)) (snd (reply_OPT resp udpSize netmask))]"
    using sec [OF assms] by (auto simp: Unmarshal_Extra reply_OPT_def list_all_iff filter_empty_conv)
  with Marshal_typed [OF typed, of tm ot now2] status_round_trip [of 0 "rs_Status resp"] show ?thesis
    by (auto simp: reply_OPT_def Unmarshal_sel OPT_UDPSize_def)
qed

text \<open>C30: The client subnet that the server reports in its JSON response, the last of the client-subnet options of the
  message, is read back by the client as one option with the same address, its family (IPv4 or
  IPv6) and the same scope; the prefix length is the one the client asked with, or 24 or 56 after the family if it
  asked with none. An option without an address is reported as 0.0.0.0, and without an option nothing
  is reported.\<close>

theorem ecs_round_trip:
  assumes "msg_typed m" and "ss = msg_subnets m"
    and "ss \<noteq> [] \<Longrightarrow> ip_bytes (reported_address (last ss))"
  shows "\<exists>resp opt rrs. Marshal tm ot now m = Ret resp \<and>
      msg_Extra (Unmarshal lib tm newRR now' reply resp udpSize netmask) =
        RR_OPT opt (if ss = [] then [] else [Opt_SUBNET (read_subnet netmask (last ss))]) # rrs"
proof -
  obtain resp where r: "Marshal tm ot now m = Ret resp" "rs_EdnsClientSubnet resp = report_ecs ss []"
    using Marshal_typed [OF assms(1), of tm ot now] assms(2) by blast
  then show ?thesis
    using assms(3) parse_ecs_text [of "last ss"]
    by (cases "ss = []") (auto simp: Unmarshal_Extra reply_OPT_def report_ecs_def read_subnet_def Let_def)
qed

definition example_subnet :: EDNS0_SUBNET where
  "example_subnet = \<lparr>sub_Code = EDNS0SUBNET, sub_Family = 1, sub_SourceNetmask = 24, sub_SourceScope = 20,
     sub_Address = Some (net_IPv4 198 51 100 0)\<rparr>"

definition example_subnet6 :: EDNS0_SUBNET where
  "example_subnet6 = \<lparr>sub_Code = 0, sub_Family = 2, sub_SourceNetmask = 56, sub_SourceScope = 48,
     sub_Address = Some ([0x20, 0x01, 0x0d, 0xb8, 0, 0, 0xab] @ replicate 9 0)\<rparr>"

theorem ecs_round_trip_witness:
  "\<exists>resp opt rrs. Marshal decimal_timelib (\<lambda>_. []) 0
       (new_Msg\<lparr>msg_Extra := [RR_OPT (new_OPT_header\<lparr>hdr_Rrtype := TypeOPT\<rparr>) [Opt_SUBNET example_subnet, Opt_SUBNET example_subnet6]]\<rparr>) = Ret resp \<and>
     msg_Extra (Unmarshal plain_golib decimal_timelib five_field_RR 0 new_Msg resp 4096 255) =
       RR_OPT opt [Opt_SUBNET \<lparr>sub_Code = EDNS0SUBNET, sub_Family = 2, sub_SourceNetmask = 56,
          sub_SourceScope = 48, sub_Address = sub_Address example_subnet6\<rparr>] # rrs"
proof -
  let ?m = "new_Msg\<lparr>msg_Extra := [RR_OPT (new_OPT_header\<lparr>hdr_Rrtype := TypeOPT\<rparr>) [Opt_SUBNET example_subnet, Opt_SUBNET example_subnet6]]\<rparr>"
  have t: "msg_typed ?m" by (simp add: msg_typed_def opt_typed_def new_Msg_def)
  have ss: "[example_subnet, example_subnet6] = msg_subnets ?m"
    by (simp add: opt_options_def subnets_def)
  have "To4 ([0x20, 0x01, 0x0d, 0xb8, 0, 0, 0xab] @ replicate 9 0) = None" by (simp add: To4_def v4InV6Prefix_def numeral_eq_Suc)
  then have s6: "ip_bytes (reported_address example_subnet6)"
    "read_subnet 255 example_subnet6 = \<lparr>sub_Code = EDNS0SUBNET, sub_Family = 2, sub_SourceNetmask = 56,
       sub_SourceScope = 48, sub_Address = sub_Address example_subnet6\<rparr>"
    by (simp_all add: ip_bytes_def reported_address_def example_subnet6_def read_subnet_def short_ip_def)
  show ?thesis
    using ecs_round_trip [OF t ss, of decimal_timelib "\<lambda>_. []" 0 plain_golib five_field_RR 0 new_Msg 4096 255] s6 by simp
qed

end
