(* ===== verification/GoUrl.thy ===== *)
theory GoUrl
  imports GoNet
begin

text \<open>
  \<^verbatim>\<open>url.QueryEscape\<close> as the client uses it, and the reading of a query on the other side: \<^verbatim>\<open>url.ParseQuery\<close> and
  \<^verbatim>\<open>FormValue\<close> of \<^verbatim>\<open>net/http\<close>. Escaped values come back unchanged.
\<close>

section \<open>Escaping\<close>

definition unreserved :: "char \<Rightarrow> bool" where
  "unreserved c \<longleftrightarrow>
     (let n = (of_char c :: nat) in
      (97 \<le> n \<and> n \<le> 122) \<or> (65 \<le> n \<and> n \<le> 90) \<or> (48 \<le> n \<and> n \<le> 57) \<or> n \<in> {45, 95, 46, 126})"

definition upper_hex :: "nat \<Rightarrow> char" where
  "upper_hex d = (if d < 10 then char_of (48 + d) else char_of (55 + d))"

definition escape_char :: "char \<Rightarrow> string" where
  "escape_char c =
     (if unreserved c then [c] else if c = CHR '' '' then ''+''
      else let n = (of_char c :: nat) in [CHR ''%'', upper_hex (n div 16), upper_hex (n mod 16)])"

definition QueryEscape :: "string \<Rightarrow> string" where
  "QueryEscape s = concat (map escape_char s)"

section \<open>Reading a query\<close>

fun QueryUnescape :: "string \<Rightarrow> string option" where
  "QueryUnescape [] = Some []"
| "QueryUnescape (c # cs) =
     (if c = CHR ''%'' then
        (case cs of
           a # b # ds \<Rightarrow>
             (case (hex_val a, hex_val b) of
                (Some x, Some y) \<Rightarrow> map_option ((#) (char_of (x * 16 + y))) (QueryUnescape ds)
              | _ \<Rightarrow> None)
         | _ \<Rightarrow> None)
      else if c = CHR ''+'' then map_option ((#) CHR '' '') (QueryUnescape cs)
      else map_option ((#) c) (QueryUnescape cs))"

text \<open>The pieces of a query are separated by an ampersand or a semicolon.\<close>

fun split_query :: "string \<Rightarrow> string list" where
  "split_query [] = [[]]"
| "split_query (x # xs) =
     (if x = CHR ''&'' \<or> x = CHR '';'' then [] # split_query xs
      else (case split_query xs of [] \<Rightarrow> [[x]] | y # ys \<Rightarrow> (x # y) # ys))"

definition parse_piece :: "string \<Rightarrow> (string \<times> string) option" where
  "parse_piece p =
     (if p = [] then None
      else case (QueryUnescape (takeWhile (\<lambda>c. c \<noteq> CHR ''='') p),
                 QueryUnescape (tl (dropWhile (\<lambda>c. c \<noteq> CHR ''='') p))) of
             (Some k, Some v) \<Rightarrow> Some (k, v)
           | _ \<Rightarrow> None)"

definition ParseQuery :: "string \<Rightarrow> (string \<times> string) list" where
  "ParseQuery q = List.map_filter parse_piece (split_query q)"

definition FormValue :: "string \<Rightarrow> string \<Rightarrow> string" where
  "FormValue q k = (case map_of (ParseQuery q) k of Some v \<Rightarrow> v | None \<Rightarrow> [])"

text \<open>The query of a URL.\<close>

definition url_query :: "string \<Rightarrow> string" where
  "url_query u = tl (dropWhile (\<lambda>c. c \<noteq> CHR ''?'') u)"

section \<open>Lemmas\<close>

lemma hex_val_upper_hex: "d < 16 \<Longrightarrow> hex_val (upper_hex d) = Some d"
  by (auto simp: hex_val_def upper_hex_def Let_def)

lemma unescape_escape_char:
  "QueryUnescape (escape_char c @ cs) = map_option ((#) c) (QueryUnescape cs)"
proof (cases "unreserved c")
  case True
  then have "c \<noteq> CHR ''%''" "c \<noteq> CHR ''+''" by (auto simp: unreserved_def)
  with True show ?thesis by (simp add: escape_char_def)
next
  case False
  have "(of_char c :: nat) div 16 < 16" using of_char_lt_256 [of c] by linarith
  moreover have "char_of ((of_char c :: nat) div 16 * 16 + of_char c mod 16) = c" by (simp only: div_mult_mod_eq char_of_char)
  ultimately show ?thesis using False by (simp add: escape_char_def Let_def hex_val_upper_hex)
qed

lemma QueryUnescape_Escape: "QueryUnescape (QueryEscape s) = Some s"
  by (induction s) (simp_all add: QueryEscape_def unescape_escape_char)

definition query_safe :: "char \<Rightarrow> bool" where
  "query_safe c \<longleftrightarrow> c \<notin> {CHR ''&'', CHR '';'', CHR ''='', CHR ''?''}"

lemma upper_hex_safe: "d < 16 \<Longrightarrow> query_safe (upper_hex d)"
proof -
  assume "d < 16"
  then have "hex_val (upper_hex d) \<noteq> None" by (simp add: hex_val_upper_hex)
  then show ?thesis by (auto simp: query_safe_def hex_val_def)
qed

lemma escape_char_safe: "list_all query_safe (escape_char c)"
proof (cases "unreserved c")
  case True
  then show ?thesis by (auto simp: escape_char_def unreserved_def query_safe_def)
next
  case False
  have "(of_char c :: nat) div 16 < 16" using of_char_lt_256 [of c] by linarith
  with False show ?thesis by (auto simp: escape_char_def Let_def upper_hex_safe) (simp_all add: query_safe_def)
qed

lemma QueryEscape_safe: "list_all query_safe (QueryEscape s)"
  using escape_char_safe by (induction s) (auto simp: QueryEscape_def)

lemma split_query_single: "list_all (\<lambda>c. c \<noteq> CHR ''&'' \<and> c \<noteq> CHR '';'') a \<Longrightarrow> split_query a = [a]"
  by (induction a) auto

lemma split_query_append:
  "list_all (\<lambda>c. c \<noteq> CHR ''&'' \<and> c \<noteq> CHR '';'') a \<Longrightarrow> split_query (a @ CHR ''&'' # b) = a # split_query b"
  by (induction a) auto

text \<open>A list of fields, written and read.\<close>

fun join_fields :: "(string \<times> string) list \<Rightarrow> string" where
  "join_fields [] = []"
| "join_fields [(k, v)] = k @ CHR ''='' # v"
| "join_fields ((k, v) # kvs) = k @ CHR ''='' # v @ CHR ''&'' # join_fields kvs"

definition field_ok :: "string \<times> string \<Rightarrow> bool" where
  "field_ok kv \<longleftrightarrow>
     list_all query_safe (fst kv) \<and> list_all query_safe (snd kv) \<and> QueryUnescape (fst kv) = Some (fst kv)"

lemma parse_piece_field:
  assumes "field_ok (k, v)" and "QueryUnescape v = Some v'"
  shows "parse_piece (k @ CHR ''='' # v) = Some (k, v')"
proof -
  have "\<forall>c\<in>set k. c \<noteq> CHR ''=''" using assms(1) by (auto simp: field_ok_def query_safe_def list_all_iff)
  then have "takeWhile (\<lambda>c. c \<noteq> CHR ''='') (k @ CHR ''='' # v) = k"
    "dropWhile (\<lambda>c. c \<noteq> CHR ''='') (k @ CHR ''='' # v) = CHR ''='' # v"
    by (simp_all add: takeWhile_append_stop dropWhile_append_stop)
  with assms show ?thesis by (simp add: parse_piece_def field_ok_def)
qed

lemma field_no_sep:
  "field_ok (k, v) \<Longrightarrow> list_all (\<lambda>c. c \<noteq> CHR ''&'' \<and> c \<noteq> CHR '';'') (k @ CHR ''='' # v)"
  by (auto simp: field_ok_def query_safe_def list_all_iff)

lemma split_query_fields:
  "kvs \<noteq> [] \<Longrightarrow> list_all field_ok kvs \<Longrightarrow> split_query (join_fields kvs) = map (\<lambda>(k, v). k @ CHR ''='' # v) kvs"
proof (induction kvs rule: join_fields.induct)
  case (2 k v)
  then have "field_ok (k, v)" by simp
  from split_query_single [OF field_no_sep [OF this]] show ?case by simp
next
  case (3 k v kv kvs)
  then have "field_ok (k, v)" by simp
  from split_query_append [OF field_no_sep [OF this], of "join_fields (kv # kvs)"]
  have "split_query (join_fields ((k, v) # kv # kvs)) = (k @ CHR ''='' # v) # split_query (join_fields (kv # kvs))"
    by simp
  also have "split_query (join_fields (kv # kvs)) = map (\<lambda>(k, v). k @ CHR ''='' # v) (kv # kvs)"
    using 3(1) 3(3) by simp
  finally show ?case by simp
qed simp

lemma ParseQuery_fields:
  assumes "kvs \<noteq> []" and "list_all field_ok kvs"
  shows "ParseQuery (join_fields kvs) =
    List.map_filter (\<lambda>(k, v). map_option (Pair k) (QueryUnescape v)) kvs"
proof -
  have p: "parse_piece (k @ CHR ''='' # v) = map_option (Pair k) (QueryUnescape v)" if "field_ok (k, v)" for k v
  proof (cases "QueryUnescape v")
    case None
    have "\<forall>c\<in>set k. c \<noteq> CHR ''=''" using that by (auto simp: field_ok_def query_safe_def list_all_iff)
    with None show ?thesis by (simp add: parse_piece_def dropWhile_append_stop split: option.splits)
  next
    case (Some v')
    with parse_piece_field [OF that Some] show ?thesis by simp
  qed
  have "List.map_filter parse_piece (map (\<lambda>(k, v). k @ CHR ''='' # v) kvs) =
      List.map_filter (\<lambda>(k, v). map_option (Pair k) (QueryUnescape v)) kvs"
    using assms(2) by (induction kvs) (auto simp: List.map_filter_simps p split: option.splits)
  then show ?thesis using split_query_fields [OF assms] by (simp add: ParseQuery_def)
qed

lemma url_query_of: "CHR ''?'' \<notin> set u \<Longrightarrow> url_query (u @ CHR ''?'' # q) = q"
  unfolding url_query_def by (subst dropWhile_append_stop) auto

end
