(* ===== verification/GoUrlParse.thy ===== *)
theory GoUrlParse
  imports GoUrl
begin

text \<open>
  \<^verbatim>\<open>url.Parse\<close> and \<^verbatim>\<open>URL.Hostname\<close> of \<^verbatim>\<open>net/url\<close> (as of Go 1.13), which the server applies to its update
  endpoint and the updater to the entries of a feed. Error texts leave out the quoted input. The lemmas
  compute the result for URLs of the usual shape, a scheme, a host with an optional port, and a path.
\<close>

section \<open>Escapes\<close>

datatype encoding = encodePath | encodeHost | encodeZone | encodeUserPassword | encodeFragment

definition is_alnum :: "char \<Rightarrow> bool" where
  "is_alnum c \<longleftrightarrow>
     (let n = (of_char c :: nat) in (97 \<le> n \<and> n \<le> 122) \<or> (65 \<le> n \<and> n \<le> 90) \<or> (48 \<le> n \<and> n \<le> 57))"

text \<open>\<^verbatim>\<open>shouldEscape\<close> for hosts and zones, the only modes in which reading asks for it.\<close>

definition shouldEscapeHost :: "char \<Rightarrow> bool" where
  "shouldEscapeHost c \<longleftrightarrow> \<not> is_alnum c \<and> c \<notin> set ''!$&()*+,;=:[]<>-_.~'' \<and> c \<noteq> CHR 0x27 \<and> c \<noteq> CHR 0x22"

fun url_unescape :: "encoding \<Rightarrow> string \<Rightarrow> string + string" where
  "url_unescape mode [] = Inr []"
| "url_unescape mode (c # cs) =
     (if c = CHR ''%'' then
        (case cs of
           a # b # ds \<Rightarrow>
             (case (hex_val a, hex_val b) of
                (Some x, Some y) \<Rightarrow>
                  let v = char_of (x * 16 + y) in
                  if mode = encodeHost \<and> x < 8 \<and> [a, b] \<noteq> ''25'' then Inl ''invalid URL escape''
                  else if mode = encodeZone \<and> [a, b] \<noteq> ''25'' \<and> v \<noteq> CHR '' '' \<and> shouldEscapeHost v
                  then Inl ''invalid URL escape''
                  else (case url_unescape mode ds of Inl err \<Rightarrow> Inl err | Inr s \<Rightarrow> Inr (v # s))
              | _ \<Rightarrow> Inl ''invalid URL escape'')
         | _ \<Rightarrow> Inl ''invalid URL escape'')
      else if (mode = encodeHost \<or> mode = encodeZone) \<and> c \<noteq> CHR ''+'' \<and> is_ascii c \<and> shouldEscapeHost c
      then Inl ''invalid character in host name''
      else (case url_unescape mode cs of Inl err \<Rightarrow> Inl err | Inr s \<Rightarrow> Inr (c # s)))"

section \<open>Authority\<close>

text \<open>\<^verbatim>\<open>strings.LastIndexByte\<close> and \<^verbatim>\<open>strings.Index\<close>.\<close>

definition strings_LastIndexByte :: "char \<Rightarrow> string \<Rightarrow> nat option" where
  "strings_LastIndexByte c s = last_index (\<lambda>x. x = c) s"

fun strings_Index :: "string \<Rightarrow> string \<Rightarrow> nat option" where
  "strings_Index sub [] = (if sub = [] then Some 0 else None)"
| "strings_Index sub (x # xs) =
     (if prefix sub (x # xs) then Some 0 else map_option Suc (strings_Index sub xs))"

definition validOptionalPort :: "string \<Rightarrow> bool" where
  "validOptionalPort port \<longleftrightarrow> port = [] \<or> hd port = CHR '':'' \<and> list_all is_digit (tl port)"

definition parseHost :: "string \<Rightarrow> string + string" where
  "parseHost host =
     (if strings_HasPrefix host ''['' then
        (case strings_LastIndexByte CHR '']'' host of
           None \<Rightarrow> Inl ''missing ']' in host''
         | Some i \<Rightarrow>
             if \<not> validOptionalPort (drop (i + 1) host) then Inl ''invalid port after host''
             else case strings_Index ''%25'' (take i host) of
                    None \<Rightarrow> url_unescape encodeHost host
                  | Some zone \<Rightarrow>
                      (case url_unescape encodeHost (take zone host) of
                         Inl err \<Rightarrow> Inl err
                       | Inr host1 \<Rightarrow>
                           (case url_unescape encodeZone (drop zone (take i host)) of
                              Inl err \<Rightarrow> Inl err
                            | Inr host2 \<Rightarrow>
                                (case url_unescape encodeHost (drop i host) of
                                   Inl err \<Rightarrow> Inl err
                                 | Inr host3 \<Rightarrow> Inr (host1 @ host2 @ host3)))))
      else if (case strings_LastIndexByte CHR '':'' host of
                 None \<Rightarrow> False | Some i \<Rightarrow> \<not> validOptionalPort (drop i host))
      then Inl ''invalid port after host''
      else url_unescape encodeHost host)"

definition validUserinfo :: "string \<Rightarrow> bool" where
  "validUserinfo s \<longleftrightarrow> list_all (\<lambda>c. is_alnum c \<or> c \<in> set ''-._:~!$&()*+,;=%@'' \<or> c = CHR 0x27) s"

text \<open>\<^verbatim>\<open>parseAuthority\<close>: the host; user and password are checked and not kept.\<close>

definition parseAuthority :: "string \<Rightarrow> string + string" where
  "parseAuthority authority =
     (case strings_LastIndexByte CHR ''@'' authority of
        None \<Rightarrow> parseHost authority
      | Some i \<Rightarrow>
          (case parseHost (drop (i + 1) authority) of
             Inl err \<Rightarrow> Inl err
           | Inr host \<Rightarrow>
               let userinfo = take i authority in
               if \<not> validUserinfo userinfo then Inl ''net/url: invalid userinfo''
               else if list_ex (\<lambda>p. isl (url_unescape encodeUserPassword p)) (strings_SplitN CHR '':'' 2 userinfo)
               then Inl ''invalid URL escape''
               else Inr host))"

section \<open>URLs\<close>

record URL =
  url_Scheme :: string
  url_Opaque :: string
  url_Host :: string
  url_Path :: string

text \<open>\<^verbatim>\<open>getscheme\<close> with the number of characters read so far.\<close>

fun getscheme :: "string \<Rightarrow> string \<Rightarrow> string \<Rightarrow> string + (string \<times> string)" where
  "getscheme rawurl done [] = Inr ([], rawurl)"
| "getscheme rawurl done (c # cs) =
     (if is_alnum c \<and> \<not> is_digit c then getscheme rawurl (done @ [c]) cs
      else if is_digit c \<or> c \<in> set ''+-.'' then
        (if done = [] then Inr ([], rawurl) else getscheme rawurl (done @ [c]) cs)
      else if c = CHR '':'' then
        (if done = [] then Inl ''missing protocol scheme'' else Inr (done, cs))
      else Inr ([], rawurl))"

definition ctl_byte :: "char \<Rightarrow> bool" where
  "ctl_byte c \<longleftrightarrow> (of_char c :: nat) < 32 \<or> (of_char c :: nat) = 127"

text \<open>\<^verbatim>\<open>split(s, c, true)\<close> and \<^verbatim>\<open>split(s, c, false)\<close>.\<close>

definition before_sep :: "char \<Rightarrow> string \<Rightarrow> string" where
  "before_sep c s = takeWhile (\<lambda>x. x \<noteq> c) s"

definition from_sep :: "char \<Rightarrow> string \<Rightarrow> string" where
  "from_sep c s = dropWhile (\<lambda>x. x \<noteq> c) s"

definition url_parse :: "string \<Rightarrow> string + URL" where
  "url_parse rawurl =
     (if list_ex ctl_byte rawurl then Inl ''net/url: invalid control character in URL''
      else if rawurl = ''*'' then Inr \<lparr>url_Scheme = [], url_Opaque = [], url_Host = [], url_Path = ''*''\<rparr>
      else case getscheme rawurl [] rawurl of
        Inl err \<Rightarrow> Inl err
      | Inr (scheme0, rest0) \<Rightarrow>
          let scheme = map lower_char scheme0;
              rest = before_sep CHR ''?'' rest0 in
          if \<not> strings_HasPrefix rest ''/'' \<and> scheme \<noteq> []
          then Inr \<lparr>url_Scheme = scheme, url_Opaque = rest, url_Host = [], url_Path = []\<rparr>
          else if \<not> strings_HasPrefix rest ''/'' \<and> CHR '':'' \<in> set (before_sep CHR ''/'' rest)
          then Inl ''first path segment in URL cannot contain colon''
          else
            let (host, path) =
                  (if (scheme \<noteq> [] \<or> \<not> strings_HasPrefix rest ''///'') \<and> strings_HasPrefix rest ''//''
                   then (parseAuthority (before_sep CHR ''/'' (drop 2 rest)), from_sep CHR ''/'' (drop 2 rest))
                   else (Inr [], rest)) in
            (case host of
               Inl err \<Rightarrow> Inl err
             | Inr h \<Rightarrow>
                 (case url_unescape encodePath path of
                    Inl err \<Rightarrow> Inl err
                  | Inr p \<Rightarrow> Inr \<lparr>url_Scheme = scheme, url_Opaque = [], url_Host = h, url_Path = p\<rparr>)))"

definition url_Parse :: "string \<Rightarrow> string + URL" where
  "url_Parse rawurl =
     (let u = before_sep CHR ''#'' rawurl; frag = tl (from_sep CHR ''#'' rawurl) in
      case url_parse u of
        Inl err \<Rightarrow> Inl (''parse '' @ u @ '': '' @ err)
      | Inr v \<Rightarrow>
          if frag = [] then Inr v
          else (case url_unescape encodeFragment frag of
                  Inl err \<Rightarrow> Inl (''parse '' @ rawurl @ '': '' @ err)
                | Inr _ \<Rightarrow> Inr v))"

definition splitHostPort :: "string \<Rightarrow> string" where
  "splitHostPort hostport =
     (let host = (case strings_LastIndexByte CHR '':'' hostport of
                    None \<Rightarrow> hostport
                  | Some colon \<Rightarrow> if validOptionalPort (drop colon hostport) then take colon hostport else hostport)
      in if strings_HasPrefix host ''['' \<and> suffix '']'' host then butlast (tl host) else host)"

definition Hostname :: "URL \<Rightarrow> string" where
  "Hostname u = splitHostPort (url_Host u)"

section \<open>URLs of the usual shape\<close>

definition host_char :: "char \<Rightarrow> bool" where
  "host_char c \<longleftrightarrow> is_alnum c \<or> c \<in> set ''-._~''"

definition path_text :: "string \<Rightarrow> bool" where
  "path_text p \<longleftrightarrow> (p = [] \<or> hd p = CHR ''/'') \<and> list_all (\<lambda>c. host_char c \<or> c = CHR ''/'') p"

definition query_text :: "string \<Rightarrow> bool" where
  "query_text q \<longleftrightarrow> (q = [] \<or> hd q = CHR ''?'') \<and> list_all (\<lambda>c. \<not> ctl_byte c \<and> c \<noteq> CHR ''#'') q"

definition scheme_text :: "string \<Rightarrow> bool" where
  "scheme_text s \<longleftrightarrow> s = ''http'' \<or> s = ''https''"

lemma host_char_not: "host_char c \<Longrightarrow> \<not> ctl_byte c \<and> c \<notin> set ''/?#@%:[]''"
  by (auto simp: host_char_def is_alnum_def ctl_byte_def Let_def)

lemma digit_host_char: "is_digit c \<Longrightarrow> host_char c"
  by (auto simp: host_char_def is_alnum_def is_digit_def Let_def)

lemma port_chars:
  assumes "validOptionalPort port"
  shows "list_all (\<lambda>c. host_char c \<or> c = CHR '':'') port"
  using assms digit_host_char by (cases port) (auto simp: validOptionalPort_def list_all_iff)

lemma shouldEscapeHost_plain: "host_char c \<or> c = CHR '':'' \<Longrightarrow> \<not> shouldEscapeHost c"
  by (auto simp: shouldEscapeHost_def host_char_def)

lemma url_unescape_plain:
  "list_all (\<lambda>c. c \<noteq> CHR ''%'' \<and> (mode = encodeHost \<or> mode = encodeZone \<longrightarrow> \<not> shouldEscapeHost c)) s \<Longrightarrow>
     url_unescape mode s = Inr s"
  by (induction s) auto

lemma last_index_append:
  "last_index P (xs @ ys) =
     (case last_index P ys of Some i \<Rightarrow> Some (length xs + i) | None \<Rightarrow> last_index P xs)"
  by (induction xs) (auto split: option.splits)

lemma last_colon:
  assumes "list_all host_char h" and "validOptionalPort port"
  shows "strings_LastIndexByte CHR '':'' (h @ port) = (if port = [] then None else Some (length h))"
proof -
  have n: "last_index (\<lambda>x. x = CHR '':'') xs = None" if "list_all host_char xs" for xs
    using that host_char_not by (auto simp: last_index_None list_all_iff)
  have "last_index (\<lambda>x. x = CHR '':'') port = (if port = [] then None else Some 0)"
    using assms(2) n [of "tl port"] digit_host_char by (cases port) (auto simp: validOptionalPort_def list_all_iff)
  then show ?thesis using n [OF assms(1)] by (simp add: strings_LastIndexByte_def last_index_append)
qed

lemma no_bracket: "list_all host_char h \<Longrightarrow> h \<noteq> [] \<Longrightarrow> \<not> strings_HasPrefix (h @ port) ''[''"
  using host_char_not by (cases h) (auto simp: strings_HasPrefix_def)

lemma parseAuthority_plain:
  assumes "list_all host_char h" and "h \<noteq> []" and "validOptionalPort port"
  shows "parseAuthority (h @ port) = Inr (h @ port)"
proof -
  have c: "list_all (\<lambda>c. host_char c \<or> c = CHR '':'') (h @ port)"
    using assms(1) port_chars [OF assms(3)] by (auto simp: list_all_iff)
  then have "strings_LastIndexByte CHR ''@'' (h @ port) = None"
    using host_char_not by (auto simp: strings_LastIndexByte_def last_index_None list_all_iff)
  moreover have "list_all (\<lambda>c. c \<noteq> CHR ''%'' \<and> (encodeHost = encodeHost \<or> encodeHost = encodeZone \<longrightarrow> \<not> shouldEscapeHost c)) (h @ port)"
    using c host_char_not shouldEscapeHost_plain by (auto simp: list_all_iff)
  then have "url_unescape encodeHost (h @ port) = Inr (h @ port)" by (rule url_unescape_plain)
  ultimately show ?thesis
    using assms last_colon [OF assms(1,3)] no_bracket [OF assms(1,2), of port]
    by (simp add: parseAuthority_def parseHost_def)
qed

lemma before_sep_append:
  "list_all (\<lambda>x. x \<noteq> c) a \<Longrightarrow> b = [] \<or> hd b = c \<Longrightarrow> before_sep c (a @ b) = a \<and> from_sep c (a @ b) = b"
  by (cases b) (auto simp: before_sep_def from_sep_def list_all_iff)

lemma usual_plain:
  assumes "host_char c \<or> c = CHR '':'' \<or> c = CHR ''/''"
  shows "\<not> ctl_byte c \<and> c \<noteq> CHR ''#'' \<and> c \<noteq> CHR ''?''"
  using assms host_char_not [of c] by (auto simp: ctl_byte_def)

lemma usual_plain_list:
  assumes "list_all (\<lambda>c. host_char c \<or> c = CHR '':'' \<or> c = CHR ''/'') xs"
  shows "list_all (\<lambda>c. \<not> ctl_byte c \<and> c \<noteq> CHR ''#'') xs" and "list_all (\<lambda>c. c \<noteq> CHR ''?'') xs"
  using assms by (induction xs) (simp_all add: usual_plain)

lemma getscheme_usual: "scheme_text s \<Longrightarrow> getscheme rawurl [] (s @ CHR '':'' # rest) = Inr (s, rest)"
  by (auto simp: scheme_text_def is_alnum_def is_digit_def)

lemma url_Parse_usual:
  assumes s: "scheme_text s" and h: "list_all host_char h" "h \<noteq> []" and port: "validOptionalPort port"
    and p: "path_text p" and q: "query_text q"
  shows "url_Parse (s @ ''://'' @ h @ port @ p @ q) =
    Inr \<lparr>url_Scheme = s, url_Opaque = [], url_Host = h @ port, url_Path = p\<rparr>"
proof -
  let ?rest = "''//'' @ h @ port @ p"
  let ?u = "s @ CHR '':'' # ?rest @ q"
  have sc: "list_all host_char s" using s by (auto simp: scheme_text_def host_char_def is_alnum_def)
  have hp: "list_all (\<lambda>c. host_char c \<or> c = CHR '':'') (h @ port)" using h(1) port_chars [OF port] by (auto simp: list_all_iff)
  have ph: "list_all (\<lambda>c. host_char c \<or> c = CHR ''/'') p" using p by (simp add: path_text_def)
  let ?P = "\<lambda>c. \<not> ctl_byte c \<and> c \<noteq> CHR ''#''"
  have "list_all (\<lambda>c. host_char c \<or> c = CHR '':'' \<or> c = CHR ''/'') (s @ h @ port @ p)"
    using sc hp ph by (auto simp: list_all_iff)
  note plain = usual_plain_list [OF this]
  have "list_all ?P s" "list_all ?P h" "list_all ?P port" "list_all ?P p" using plain(1) by simp_all
  moreover have "list_all ?P q" using q by (simp add: query_text_def)
  ultimately have safe: "list_all ?P ?u" by (simp add: ctl_byte_def)
  then have nctl: "\<not> list_ex ctl_byte ?u" and nhash: "CHR ''#'' \<notin> set ?u"
    unfolding list_all_iff list_ex_iff by blast+
  have "list_all (\<lambda>c. c \<noteq> CHR ''?'') ?rest" using plain(2) by simp
  then have bq: "before_sep CHR ''?'' (?rest @ q) = ?rest"
    using before_sep_append [of "CHR ''?''" ?rest q] q unfolding query_text_def by blast
  have "c \<noteq> CHR ''/''" if "host_char c \<or> c = CHR '':''" for c using that host_char_not [of c] by auto
  then have slash: "list_all (\<lambda>c. c \<noteq> CHR ''/'') (h @ port)" using hp unfolding list_all_iff by blast
  have bs: "before_sep CHR ''/'' ((h @ port) @ p) = h @ port" "from_sep CHR ''/'' ((h @ port) @ p) = p"
    using slash p before_sep_append [of "CHR ''/''" "h @ port" p] unfolding path_text_def by blast+
  have un: "url_unescape encodePath p = Inr p"
    using ph host_char_not by (intro url_unescape_plain) (fastforce simp: list_all_iff)
  have low: "map lower_char s = s" and ne: "s \<noteq> []" using s by (auto simp: scheme_text_def lower_char_def)
  have g: "getscheme ?u [] ?u = Inr (s, ?rest @ q)" by (rule getscheme_usual [OF s])
  have star: "?u \<noteq> ''*''" using ne by (cases s) auto
  have "url_parse ?u = Inr \<lparr>url_Scheme = s, url_Opaque = [], url_Host = h @ port, url_Path = p\<rparr>"
    unfolding url_parse_def if_not_P [OF nctl] if_not_P [OF star] g sum.case prod.case bq Let_def low
    using ne bs un parseAuthority_plain [OF h port] by (simp add: strings_HasPrefix_def)
  moreover have "before_sep CHR ''#'' ?u = ?u" "from_sep CHR ''#'' ?u = []"
    using nhash before_sep_append [of "CHR ''#''" ?u "[]"] by (auto simp: list_all_iff)
  ultimately have "url_Parse ?u = Inr \<lparr>url_Scheme = s, url_Opaque = [], url_Host = h @ port, url_Path = p\<rparr>"
    by (simp add: url_Parse_def)
  then show ?thesis by simp
qed

lemma Hostname_usual:
  assumes "list_all host_char h" and "h \<noteq> []" and "validOptionalPort port" and "url_Host u = h @ port"
  shows "Hostname u = h"
  using assms last_colon [OF assms(1,3)] no_bracket [OF assms(1,2), of "[]"]
  by (simp add: Hostname_def splitHostPort_def)

end
