(* ===== verification/Filtering.thy ===== *)
theory Filtering
  imports ServerConfig Tracker GoIO JsonDns GoUrlParse
begin

text \<open>
  \<^verbatim>\<open>doh-server/filtering.go\<close>, with the records \<^verbatim>\<open>Server\<close> and \<^verbatim>\<open>DNSRequest\<close> of \<^verbatim>\<open>server.go\<close>: reading the domain
  lists, the checks before a lookup, the filter on the answer, and reloading the lists while requests
  are served. Reloads and requests interleave: \<open>lists_run\<close> is the step relation of reloading
  goroutines over the three lists.
\<close>

section \<open>Server state and requests\<close>

record Server =
  srv_conf :: config
  srv_whitelist :: boolmap
  srv_blacklist :: boolmap
  srv_adsList :: boolmap
  srv_tracker :: "Tracker option"

record DNSRequest =
  rq_request :: "Msg option"
  rq_response :: "Msg option"
  rq_transactionID :: u16
  rq_currentUpstream :: string
  rq_isTailored :: bool
  rq_errcode :: int
  rq_errtext :: string
  rq_filterCategories :: u64
  rq_dnt :: bool

definition new_DNSRequest :: DNSRequest where
  "new_DNSRequest =
     \<lparr>rq_request = None, rq_response = None, rq_transactionID = 0, rq_currentUpstream = [],
      rq_isTailored = False, rq_errcode = 0, rq_errtext = [], rq_filterCategories = 0, rq_dnt = False\<rparr>"

text \<open>Following a pointer.\<close>

definition deref :: "'a option \<Rightarrow> 'a go" where
  "deref p = (case p of None \<Rightarrow> Panic ''invalid memory address or nil pointer dereference'' | Some x \<Rightarrow> Ret x)"

lemma deref_simps [simp]: "deref (Some x) = Ret x" "no_panic (deref p) \<longleftrightarrow> p \<noteq> None"
  by (simp_all add: deref_def split: option.splits)

text \<open>\<^verbatim>\<open>HandleFunc\<close> of a \<^verbatim>\<open>http.ServeMux\<close> panics on an empty pattern.\<close>

definition HandleFunc :: "string \<Rightarrow> unit go" where
  "HandleFunc pattern = (if pattern = [] then Panic ''http: invalid pattern'' else Ret ())"

text \<open>The state that \<^verbatim>\<open>NewServer\<close> builds; the registration of the handler stands in \<open>server_main\<close>, which calls it.\<close>

definition NewServer :: "config \<Rightarrow> Server" where
  "NewServer conf =
     \<lparr>srv_conf = conf, srv_whitelist = Map.empty, srv_blacklist = Map.empty, srv_adsList = Map.empty,
      srv_tracker = None\<rparr>"

section \<open>Reading a list\<close>

definition CategoryAds :: u64 where
  "CategoryAds = 1"

text \<open>
  The loop of \<^verbatim>\<open>parseList\<close>. Its post statement empties \<open>line\<close> after every round, also after a round that
  saw only a part of a line.
\<close>

function parseList_loop ::
    "golib \<Rightarrow> string option \<Rightarrow> string \<Rightarrow> boolmap \<Rightarrow> string \<Rightarrow> string + boolmap" where
  "parseList_loop lib ioerr line result s =
     (case ReadLine s of
        None \<Rightarrow> (case ioerr of None \<Rightarrow> Inr result | Some err \<Rightarrow> Inl err)
      | Some (chunk, isPrefix, rest) \<Rightarrow>
          let line1 = line @ chunk in
          if isPrefix then parseList_loop lib ioerr (take 0 line1) result rest
          else
            let domain = strings_ToLower lib (strings_TrimSpace lib line1) in
            if domain = [] then parseList_loop lib ioerr (take 0 line1) result rest
            else parseList_loop lib ioerr (take 0 line1) (result(Fqdn domain \<mapsto> True)) rest)"
  by pat_completeness auto
termination
  by (relation "measure (\<lambda>(lib, ioerr, line, result, s). length s)") (auto dest: ReadLine_shorter)

declare parseList_loop.simps [simp del]

definition parseList :: "golib \<Rightarrow> osfs \<Rightarrow> string \<Rightarrow> string + boolmap" where
  "parseList lib fs filepath =
     (case fs_file fs filepath of
        Inl err \<Rightarrow> Inl err
      | Inr (contents, ioerr) \<Rightarrow> parseList_loop lib ioerr [] Map.empty contents)"

text \<open>
  A compiled expression with one group: its text, and what the group matches. The expressions in use
  are \<^verbatim>\<open>^NAME\.(\d+)\.txt$\<close>.
\<close>

record regexp =
  re_String :: string
  re_Submatch :: "string \<Rightarrow> string option"

definition number_group :: "string \<Rightarrow> string \<Rightarrow> string option" where
  "number_group base filename =
     (let pre = base @ ''.'';
          ds = takeWhile is_digit (drop (length pre) filename)
      in if prefix pre filename \<and> ds \<noteq> [] \<and> drop (length pre + length ds) filename = ''.txt''
         then Some ds else None)"

definition list_RE :: "string \<Rightarrow> regexp" where
  "list_RE base =
     \<lparr>re_String = ''^'' @ base @ [backslash] @ ''.('' @ [backslash] @ ''d+)'' @ [backslash] @ ''.txt$'',
      re_Submatch = number_group base\<rparr>"

fun max_number_loop ::
    "regexp \<Rightarrow> string list \<Rightarrow> int \<Rightarrow> (int \<rightharpoonup> string) \<Rightarrow> int \<times> (int \<rightharpoonup> string)" where
  "max_number_loop selector [] maxFileNumber numberToFilename = (maxFileNumber, numberToFilename)"
| "max_number_loop selector (filename # names) maxFileNumber numberToFilename =
     (case re_Submatch selector filename of
        None \<Rightarrow> max_number_loop selector names maxFileNumber numberToFilename
      | Some ds \<Rightarrow>
          (case strconv_Atoi ds of
             (_, Some err) \<Rightarrow> max_number_loop selector names maxFileNumber numberToFilename
           | (number, None) \<Rightarrow>
               max_number_loop selector names
                 (if maxFileNumber < number then number else maxFileNumber)
                 (numberToFilename(number \<mapsto> filename))))"

definition getMaxNumberFilenameForRE ::
    "osfs \<Rightarrow> string \<Rightarrow> regexp \<Rightarrow> string + string" where
  "getMaxNumberFilenameForRE fs workDir selector =
     (case fs_names fs workDir of
        Inl err \<Rightarrow> Inl err
      | Inr names \<Rightarrow>
          let (maxFileNumber, numberToFilename) = max_number_loop selector names (-1) Map.empty
          in if maxFileNumber = -1 then Inl (''no files are found for RE ('' @ re_String selector @ '')'')
             else Inr (case numberToFilename maxFileNumber of Some f \<Rightarrow> f | None \<Rightarrow> []))"

definition readList :: "golib \<Rightarrow> osfs \<Rightarrow> string \<Rightarrow> regexp \<Rightarrow> string + boolmap" where
  "readList lib fs dir selector =
     (case getMaxNumberFilenameForRE fs dir selector of
        Inl err \<Rightarrow> Inl err
      | Inr listName \<Rightarrow>
          (case parseList lib fs (path_Join dir listName) of
             Inl err \<Rightarrow> Inl (''Can't read whitelist: '' @ err)
           | Inr list \<Rightarrow> Inr list))"

text \<open>\<^verbatim>\<open>readLists\<close>: the error, if any, and the server with the lists that were published before it.\<close>

definition readLists :: "golib \<Rightarrow> osfs \<Rightarrow> Server \<Rightarrow> string option \<times> Server" where
  "readLists lib fs s =
     (let dir = conf_ListsDirectory (srv_conf s) in
      if dir = [] then (None, s)
      else case readList lib fs dir (list_RE ''whitelist'') of
        Inl err \<Rightarrow> (Some (''can't read whitelist: '' @ err), s)
      | Inr whitelist \<Rightarrow>
          let s1 = s\<lparr>srv_whitelist := whitelist\<rparr> in
          (case readList lib fs dir (list_RE ''blacklist'') of
             Inl err \<Rightarrow> (Some (''Can't read blacklist: '' @ err), s1)
           | Inr blacklist \<Rightarrow>
               let s2 = s1\<lparr>srv_blacklist := blacklist\<rparr> in
               (case readList lib fs dir (list_RE ''adslist'') of
                  Inl err \<Rightarrow> (Some (''Can't read ads list: '' @ err), s2)
                | Inr adsList \<Rightarrow> (None, s2\<lparr>srv_adsList := adsList\<rparr>))))"

section \<open>Checks and filter\<close>

definition preLookup :: "DNSRequest \<Rightarrow> DNSRequest go" where
  "preLookup req =
     go_bind (deref (rq_request req)) (\<lambda>m.
       let req1 = (if length (msg_Question m) \<noteq> 1
                   then req\<lparr>rq_errcode := 400, rq_errtext := ''Request with many questions is unsupported''\<rparr>
                   else req);
           req2 = (if msg_Opcode m \<noteq> OpcodeQuery
                   then req1\<lparr>rq_errcode := 400, rq_errtext := ''Non-query opcodes are unsupported''\<rparr>
                   else req1)
       in Ret req2)"

definition isRestricted :: "golib \<Rightarrow> Server \<Rightarrow> string \<Rightarrow> u64 \<Rightarrow> bool" where
  "isRestricted lib s domain categories =
     (let normalized = strings_ToLower lib (Fqdn domain) in
      if categories AND CategoryAds \<noteq> 0 \<and> lookup_bool (srv_adsList s) normalized then True
      else if lookup_bool (srv_whitelist s) normalized then False
      else lookup_bool (srv_blacklist s) normalized)"

text \<open>
  The two loops of \<^verbatim>\<open>postLookup\<close>. Every call of \<^verbatim>\<open>isRestricted\<close> takes the lock anew, so each record is
  judged by the lists of its own moment: the loop takes one list state for each record.
\<close>

fun keep_unrestricted :: "(Server \<Rightarrow> string \<Rightarrow> bool) \<Rightarrow> (nat \<Rightarrow> Server) \<Rightarrow> nat \<Rightarrow> RR list \<Rightarrow> RR list" where
  "keep_unrestricted restricted at i [] = []"
| "keep_unrestricted restricted at i (rr # rrs) =
     (if restricted (at i) (hdr_Name (Header rr)) then keep_unrestricted restricted at (Suc i) rrs
      else rr # keep_unrestricted restricted at (Suc i) rrs)"

definition postLookup :: "golib \<Rightarrow> (nat \<Rightarrow> Server) \<Rightarrow> DNSRequest \<Rightarrow> DNSRequest go" where
  "postLookup lib at resp =
     go_bind (deref (rq_response resp)) (\<lambda>m.
       let restricted = (\<lambda>s domain. isRestricted lib s domain (rq_filterCategories resp));
           answer = keep_unrestricted restricted at 0 (msg_Answer m);
           additional = keep_unrestricted restricted at (length (msg_Answer m)) (msg_Extra m)
       in Ret (resp\<lparr>rq_response := Some (m\<lparr>msg_Authoritative := False, msg_Answer := answer,
                 msg_Extra := additional, msg_Ns := []\<rparr>)\<rparr>))"

text \<open>
  The handler of the update endpoint: the reply, and whether it starts a reload in the background.
\<close>

definition listsUpdateHandler :: "http_request \<Rightarrow> http_writer \<Rightarrow> http_writer \<times> bool" where
  "listsUpdateHandler r w =
     (if r_Method r \<noteq> ''POST'' then (Write (bytes_of_string ''Bad request'') (WriteHeader 400 w), False)
      else (Write (bytes_of_string ''Ok'') w, True))"

text \<open>
  \<^verbatim>\<open>startListsUpdateEndpoint\<close>: without an endpoint nothing is registered; otherwise the handler is
  registered under the path of the URL and the host is served.
\<close>

definition startListsUpdateEndpoint :: "Server \<Rightarrow> (string + (string \<times> string) option) go" where
  "startListsUpdateEndpoint s =
     (let ep = conf_ListsUpdateEndpoint (srv_conf s) in
      if ep = [] then Ret (Inr None)
      else case url_Parse ep of
             Inl err \<Rightarrow> Ret (Inl err)
           | Inr theURL \<Rightarrow>
               go_bind (HandleFunc (url_Path theURL)) (\<lambda>_. Ret (Inr (Some (url_Host theURL, url_Path theURL)))))"

section \<open>Reloads in progress\<close>

text \<open>
  Where a reloading goroutine stands: about to read a list, or holding one that it has read and has
  yet to publish.
\<close>

datatype reload = ReadWhite | PubWhite boolmap | ReadBlack | PubBlack boolmap | ReadAds | PubAds boolmap
  | Finished | Failed

definition reload_start :: "Server \<Rightarrow> reload" where
  "reload_start s = (if conf_ListsDirectory (srv_conf s) = [] then Finished else ReadWhite)"

definition reload_step :: "golib \<Rightarrow> osfs \<Rightarrow> reload \<times> Server \<Rightarrow> reload \<times> Server" where
  "reload_step lib fs ps =
     (let (p, s) = ps; rd = (\<lambda>base. readList lib fs (conf_ListsDirectory (srv_conf s)) (list_RE base)) in
      case p of
        ReadWhite \<Rightarrow> (case rd ''whitelist'' of Inl _ \<Rightarrow> (Failed, s) | Inr l \<Rightarrow> (PubWhite l, s))
      | PubWhite l \<Rightarrow> (ReadBlack, s\<lparr>srv_whitelist := l\<rparr>)
      | ReadBlack \<Rightarrow> (case rd ''blacklist'' of Inl _ \<Rightarrow> (Failed, s) | Inr l \<Rightarrow> (PubBlack l, s))
      | PubBlack l \<Rightarrow> (ReadAds, s\<lparr>srv_blacklist := l\<rparr>)
      | ReadAds \<Rightarrow> (case rd ''adslist'' of Inl _ \<Rightarrow> (Failed, s) | Inr l \<Rightarrow> (PubAds l, s))
      | PubAds l \<Rightarrow> (Finished, s\<lparr>srv_adsList := l\<rparr>)
      | Finished \<Rightarrow> (Finished, s)
      | Failed \<Rightarrow> (Failed, s))"

text \<open>
  Any number of goroutines reload at the same time while the files change under them; \<open>fss\<close> is the set of
  states that the directory goes through.
\<close>

inductive lists_run :: "golib \<Rightarrow> osfs set \<Rightarrow> Server \<Rightarrow> reload list \<times> Server \<Rightarrow> bool"
  for lib :: golib and fss :: "osfs set" and s0 :: Server where
  idle: "lists_run lib fss s0 ([], s0)"
| post: "lists_run lib fss s0 (gs, s) \<Longrightarrow> lists_run lib fss s0 (gs @ [reload_start s], s)"
| step: "lists_run lib fss s0 (gs, s) \<Longrightarrow> i < length gs \<Longrightarrow> fs \<in> fss \<Longrightarrow>
     reload_step lib fs (gs ! i, s) = (g', s') \<Longrightarrow> lists_run lib fss s0 (gs[i := g'], s')"

declare lists_run.intros [step_intros]

section \<open>Lemmas\<close>

subsection \<open>File names and numbers\<close>

lemma number_group_iff:
  "number_group base f = Some ds \<longleftrightarrow> f = base @ ''.'' @ ds @ ''.txt'' \<and> ds \<noteq> [] \<and> list_all is_digit ds"
proof
  assume a: "number_group base f = Some ds"
  then have pre: "prefix (base @ ''.'') f" and ds: "ds = takeWhile is_digit (drop (length (base @ ''.'')) f)"
    "ds \<noteq> []" and tl: "drop (length (base @ ''.'') + length ds) f = ''.txt''"
    by (auto simp: number_group_def Let_def split: if_splits)
  from pre obtain r where r: "f = base @ ''.'' @ r" by (auto simp: prefix_def)
  with ds tl have "ds = takeWhile is_digit r" "drop (length ds) r = ''.txt''" by auto
  moreover from this have "r = ds @ ''.txt''" by (metis append_take_drop_id takeWhile_eq_take length_takeWhile_le append_eq_conv_conj)
  ultimately show "f = base @ ''.'' @ ds @ ''.txt'' \<and> ds \<noteq> [] \<and> list_all is_digit ds"
    using r ds(2) by (metis list_all_iff set_takeWhileD)
next
  assume a: "f = base @ ''.'' @ ds @ ''.txt'' \<and> ds \<noteq> [] \<and> list_all is_digit ds"
  then have "takeWhile is_digit (ds @ ''.txt'') = ds"
    using takeWhile_append_stop [of ds is_digit "CHR ''.''" "''txt''"] by (auto simp: list_all_iff is_digit_def)
  with a show "number_group base f = Some ds" by (simp add: number_group_def)
qed

text \<open>The number of a file name, where the expression matches and the number fits.\<close>

definition file_number :: "regexp \<Rightarrow> string \<Rightarrow> int option" where
  "file_number sel f =
     (case re_Submatch sel f of
        None \<Rightarrow> None
      | Some ds \<Rightarrow> (case strconv_Atoi ds of (n, None) \<Rightarrow> Some n | (_, Some _) \<Rightarrow> None))"

lemma max_number_loop_step:
  "max_number_loop sel (f # fs) mx m =
     (case file_number sel f of
        None \<Rightarrow> max_number_loop sel fs mx m
      | Some n \<Rightarrow> max_number_loop sel fs (max mx n) (m(n \<mapsto> f)))"
  by (auto simp: file_number_def max_def split: option.splits prod.splits)

declare max_number_loop.simps(2) [simp del]

lemma max_number_loop_ge: "mx \<le> fst (max_number_loop sel fs mx m)"
proof (induction fs arbitrary: mx m)
  case (Cons f fs)
  show ?case
    by (auto simp: max_number_loop_step intro: Cons.IH order_trans [OF max.cobounded1 Cons.IH]
        split: option.splits)
qed simp

lemma max_number_loop_all:
  "f \<in> set fs \<Longrightarrow> file_number sel f = Some n \<Longrightarrow> n \<le> fst (max_number_loop sel fs mx m)"
proof (induction fs arbitrary: mx m)
  case (Cons g fs)
  show ?case
    using Cons.IH Cons.prems
    by (auto simp: max_number_loop_step intro: order_trans [OF max.cobounded2 max_number_loop_ge]
        split: option.splits)
qed simp

lemma max_number_loop_in:
  "fst (max_number_loop sel fs mx m) = mx \<or>
   (\<exists>f\<in>set fs. file_number sel f = Some (fst (max_number_loop sel fs mx m)))"
proof (induction fs arbitrary: mx m)
  case (Cons f fs)
  show ?case
  proof (cases "file_number sel f")
    case None
    then show ?thesis using Cons.IH by (auto simp: max_number_loop_step)
  next
    case (Some n)
    let ?r = "fst (max_number_loop sel fs (max mx n) (m(n \<mapsto> f)))"
    have "?r = max mx n \<or> (\<exists>f\<in>set fs. file_number sel f = Some ?r)" by (rule Cons.IH)
    moreover have "max mx n = mx \<or> max mx n = n" by (simp add: max_def)
    ultimately show ?thesis using Some by (simp add: max_number_loop_step) metis
  qed
qed simp

lemma max_number_loop_map:
  "snd (max_number_loop sel fs mx m) n =
     (let hits = filter (\<lambda>f. file_number sel f = Some n) fs in if hits = [] then m n else Some (last hits))"
proof (induction fs arbitrary: mx m)
  case (Cons f fs)
  show ?case using Cons.IH by (auto simp: max_number_loop_step Let_def split: option.splits)
qed simp

lemma getMax_Inr:
  assumes "fs_names fs dir = Inr names" and "getMaxNumberFilenameForRE fs dir sel = Inr f"
  shows "\<exists>n. f \<in> set names \<and> file_number sel f = Some n \<and>
    (\<forall>g\<in>set names. \<forall>k. file_number sel g = Some k \<longrightarrow> k \<le> n) \<and>
    f = last (filter (\<lambda>g. file_number sel g = Some n) names)"
proof -
  define n where "n = fst (max_number_loop sel names (-1) Map.empty)"
  define hits where "hits = filter (\<lambda>g. file_number sel g = Some n) names"
  have n1: "n \<noteq> -1" and f: "f = (case snd (max_number_loop sel names (-1) Map.empty) n of Some f \<Rightarrow> f | None \<Rightarrow> [])"
    using assms by (auto simp: getMaxNumberFilenameForRE_def n_def split: prod.splits if_splits)
  with max_number_loop_in [of sel names "-1" Map.empty] have "hits \<noteq> []"
    by (auto simp: n_def hits_def filter_empty_conv)
  then have "f = last hits" "last hits \<in> set hits"
    using f max_number_loop_map [of sel names "-1" Map.empty n] unfolding hits_def [symmetric] by simp_all
  moreover from this(2) have "last hits \<in> set names" "file_number sel (last hits) = Some n"
    by (auto simp: hits_def)
  ultimately show ?thesis
    using max_number_loop_all [of _ names sel _ "-1" Map.empty] by (auto simp: n_def hits_def)
qed

lemma file_number_list_RE:
  "file_number (list_RE base) f = Some n \<longleftrightarrow>
     (\<exists>ds. f = base @ ''.'' @ ds @ ''.txt'' \<and> ds \<noteq> [] \<and> list_all is_digit ds \<and>
           n = int (dec_from 0 ds) \<and> dec_from 0 ds < 2 ^ 63)"
proof -
  have "file_number (list_RE base) f = Some n \<longleftrightarrow>
      (\<exists>ds. number_group base f = Some ds \<and> strconv_Atoi ds = (n, None))"
    by (auto simp: file_number_def list_RE_def split: option.splits prod.splits)
  also have "\<dots> \<longleftrightarrow> (\<exists>ds. (f = base @ ''.'' @ ds @ ''.txt'' \<and> ds \<noteq> [] \<and> list_all is_digit ds) \<and>
      n = int (dec_from 0 ds) \<and> dec_from 0 ds < 2 ^ 63)"
    by (auto simp: number_group_iff Atoi_digits simp del: append.simps split: if_splits)
  finally show ?thesis by simp
qed

lemma file_number_nonneg: "file_number (list_RE base) f = Some n \<Longrightarrow> 0 \<le> n"
  by (auto simp: file_number_list_RE)

lemma getMax_total:
  assumes "fs_names fs dir = Inr names" and "g \<in> set names" and "file_number (list_RE base) g = Some k"
  shows "\<exists>f. getMaxNumberFilenameForRE fs dir (list_RE base) = Inr f"
proof -
  have "0 \<le> fst (max_number_loop (list_RE base) names (-1) Map.empty)"
    using max_number_loop_all [OF assms(2,3), of "-1" Map.empty] file_number_nonneg [OF assms(3)] by simp
  then show ?thesis using assms(1) by (auto simp: getMaxNumberFilenameForRE_def split: prod.splits)
qed

subsection \<open>Lists of domains\<close>

text \<open>A file of lines that fit the buffer, and the name a line stands for.\<close>

definition file_of_lines :: "string list \<Rightarrow> string" where
  "file_of_lines ls = concat (map (\<lambda>l. l @ [LF]) ls)"

definition short_line :: "string \<Rightarrow> bool" where
  "short_line l \<longleftrightarrow> LF \<notin> set l \<and> length l < bufsize"

definition line_domain :: "golib \<Rightarrow> string \<Rightarrow> string" where
  "line_domain lib l = strings_ToLower lib (strings_TrimSpace lib (strip_CR l))"

text \<open>Whether a file with these lines lists the normalised name.\<close>

definition listed :: "golib \<Rightarrow> string list \<Rightarrow> string \<Rightarrow> bool" where
  "listed lib ls name \<longleftrightarrow> list_ex (\<lambda>l. line_domain lib l \<noteq> [] \<and> Fqdn (line_domain lib l) = name) ls"

lemma parseList_loop_line:
  assumes "short_line l"
  shows "parseList_loop lib ioerr [] result (l @ LF # rest) =
    parseList_loop lib ioerr []
      (if line_domain lib l = [] then result else result(Fqdn (line_domain lib l) \<mapsto> True)) rest"
  using assms
  by (subst parseList_loop.simps) (simp add: short_line_def ReadLine_line line_domain_def)

lemma parseList_loop_lines:
  "list_all short_line ls \<Longrightarrow>
     \<exists>m. parseList_loop lib None [] result (file_of_lines ls) = Inr m \<and>
         (\<forall>k. lookup_bool m k \<longleftrightarrow> listed lib ls k \<or> lookup_bool result k)"
proof (induction ls arbitrary: result)
  case Nil
  then show ?case by (subst parseList_loop.simps) (simp add: file_of_lines_def ReadLine_def listed_def)
next
  case (Cons l ls)
  let ?r = "if line_domain lib l = [] then result else result(Fqdn (line_domain lib l) \<mapsto> True)"
  have "parseList_loop lib None [] result (file_of_lines (l # ls)) =
      parseList_loop lib None [] ?r (file_of_lines ls)"
    using parseList_loop_line [of l lib None result "file_of_lines ls"] Cons.prems
    by (simp add: file_of_lines_def)
  with Cons.IH [of ?r] Cons.prems show ?case by (fastforce simp: listed_def)
qed

lemma parseList_lines:
  assumes "fs_file fs path = Inr (file_of_lines ls, None)" and "list_all short_line ls"
  shows "\<exists>m. parseList lib fs path = Inr m \<and> (\<forall>k. lookup_bool m k \<longleftrightarrow> listed lib ls k)"
  using parseList_loop_lines [OF assms(2), of lib Map.empty] assms(1) by (simp add: parseList_def)

text \<open>Of a line longer than the buffer only what follows the last full buffer counts.\<close>

lemma parseList_loop_long:
  assumes "length c = bufsize" and "LF \<notin> set c" and "last c \<noteq> CR"
  shows "parseList_loop lib ioerr [] result (c @ rest) = parseList_loop lib ioerr [] result rest"
proof -
  have "c \<noteq> []" using assms(1) by (auto simp: bufsize_def)
  then have "(c @ rest) ! (bufsize - 1) \<noteq> CR"
    using assms(1,3) by (simp add: nth_append last_conv_nth bufsize_def)
  then have "ReadLine (c @ rest) = Some (c, True, rest)" using assms ReadLine_long [of "c @ rest"] by simp
  then show ?thesis by (subst parseList_loop.simps) simp
qed

subsection \<open>The filter\<close>

lemma keep_unrestricted_mem:
  "set (keep_unrestricted restricted at i rrs) \<subseteq> set rrs"
  by (induction restricted at i rrs rule: keep_unrestricted.induct) auto

lemma keep_unrestricted_subseq:
  "subseq (keep_unrestricted restricted at i rrs) rrs"
  by (induction restricted at i rrs rule: keep_unrestricted.induct) auto

text \<open>A record that every list state in play restricts never passes; one that none restricts stays.\<close>

lemma keep_unrestricted_drops:
  "rr \<in> set (keep_unrestricted restricted at i rrs) \<Longrightarrow> \<exists>j. \<not> restricted (at j) (hdr_Name (Header rr))"
  by (induction restricted at i rrs rule: keep_unrestricted.induct) (auto split: if_splits)

lemma keep_unrestricted_keeps:
  "rr \<in> set rrs \<Longrightarrow> \<forall>j. \<not> restricted (at j) (hdr_Name (Header rr)) \<Longrightarrow>
     rr \<in> set (keep_unrestricted restricted at i rrs)"
  by (induction restricted at i rrs rule: keep_unrestricted.induct) auto

lemma keep_unrestricted_stable:
  "(\<And>j. at j = s) \<Longrightarrow>
     keep_unrestricted restricted at i rrs = filter (\<lambda>rr. \<not> restricted s (hdr_Name (Header rr))) rrs"
  by (induction restricted at i rrs rule: keep_unrestricted.induct) auto

lemma isRestricted_iff:
  "isRestricted lib s d cats \<longleftrightarrow>
     (let n = strings_ToLower lib (Fqdn d) in
      cats AND CategoryAds \<noteq> 0 \<and> lookup_bool (srv_adsList s) n \<or>
      \<not> lookup_bool (srv_whitelist s) n \<and> lookup_bool (srv_blacklist s) n)"
  by (auto simp: isRestricted_def Let_def)

lemma postLookup_passed:
  assumes "postLookup lib at req = Ret req'" and "rq_response req' = Some m'"
    and "rr \<in> set (msg_Answer m' @ msg_Ns m' @ msg_Extra m')"
  shows "\<exists>j. \<not> isRestricted lib (at j) (hdr_Name (Header rr)) (rq_filterCategories req)"
proof -
  let ?keep = "keep_unrestricted (\<lambda>s d. isRestricted lib s d (rq_filterCategories req)) at"
  obtain m where m: "deref (rq_response req) = Ret m"
    using assms(1) by (auto simp: postLookup_def go_bind_eq_Ret)
  have "rr \<in> set (?keep 0 (msg_Answer m)) \<union> set (?keep (length (msg_Answer m)) (msg_Extra m))"
    using assms by (auto simp: postLookup_def m Let_def)
  then show ?thesis
    using keep_unrestricted_drops [of rr "\<lambda>s d. isRestricted lib s d (rq_filterCategories req)" at] by blast
qed

text \<open>Neither letter case nor a final dot of an ASCII name matters.\<close>

lemma ToLower_Fqdn_ascii:
  "list_all is_ascii d \<Longrightarrow> strings_ToLower lib (Fqdn d) = Fqdn (map lower_char d)"
  by (simp add: strings_ToLower_def map_lower_Fqdn)

subsection \<open>Reloading\<close>

text \<open>A goroutine that runs alone does what \<^verbatim>\<open>readLists\<close> does.\<close>

lemma reload_alone:
  "(reload_step lib fs ^^ 6) (reload_start s, s) =
     ((if fst (readLists lib fs s) = None then Finished else Failed), snd (readLists lib fs s))"
  by (simp add: numeral_eq_Suc reload_start_def reload_step_def readLists_def Let_def split: sum.splits)

definition lists_all :: "(boolmap \<Rightarrow> bool) \<Rightarrow> (boolmap \<Rightarrow> bool) \<Rightarrow> (boolmap \<Rightarrow> bool) \<Rightarrow> Server \<Rightarrow> bool" where
  "lists_all W B A s \<longleftrightarrow> W (srv_whitelist s) \<and> B (srv_blacklist s) \<and> A (srv_adsList s)"

definition holds :: "(boolmap \<Rightarrow> bool) \<Rightarrow> (boolmap \<Rightarrow> bool) \<Rightarrow> (boolmap \<Rightarrow> bool) \<Rightarrow> reload \<Rightarrow> bool" where
  "holds W B A g \<longleftrightarrow>
     (case g of PubWhite l \<Rightarrow> W l | PubBlack l \<Rightarrow> B l | PubAds l \<Rightarrow> A l | _ \<Rightarrow> True)"

text \<open>What every readable version of a list satisfies.\<close>

definition versions :: "golib \<Rightarrow> osfs set \<Rightarrow> string \<Rightarrow> string \<Rightarrow> (boolmap \<Rightarrow> bool) \<Rightarrow> bool" where
  "versions lib fss dir base P \<longleftrightarrow> (\<forall>fs\<in>fss. \<forall>l. readList lib fs dir (list_RE base) = Inr l \<longrightarrow> P l)"

lemma reload_step_inv:
  assumes "reload_step lib fs (g, s) = (g', s')" and "fs \<in> fss"
    and "versions lib fss (conf_ListsDirectory (srv_conf s)) ''whitelist'' W"
    and "versions lib fss (conf_ListsDirectory (srv_conf s)) ''blacklist'' B"
    and "versions lib fss (conf_ListsDirectory (srv_conf s)) ''adslist'' A"
    and "lists_all W B A s" and "holds W B A g"
  shows "lists_all W B A s' \<and> holds W B A g' \<and> srv_conf s' = srv_conf s \<and> srv_tracker s' = srv_tracker s"
  using assms
  by (cases g) (auto simp: reload_step_def Let_def versions_def lists_all_def holds_def split: sum.splits)

lemma lists_run_inv:
  assumes "lists_run lib fss s0 (gs, s)"
    and "versions lib fss (conf_ListsDirectory (srv_conf s0)) ''whitelist'' W"
    and "versions lib fss (conf_ListsDirectory (srv_conf s0)) ''blacklist'' B"
    and "versions lib fss (conf_ListsDirectory (srv_conf s0)) ''adslist'' A"
    and "lists_all W B A s0"
  shows "lists_all W B A s \<and> list_all (holds W B A) gs \<and> srv_conf s = srv_conf s0 \<and> srv_tracker s = srv_tracker s0"
  using assms(1)
proof (induction "(gs, s)" arbitrary: gs s rule: lists_run.induct)
  case idle
  then show ?case using assms(5) by simp
next
  case (post gs s)
  then show ?case by (simp add: reload_start_def holds_def)
next
  case (step gs s i fs g' s')
  then have "holds W B A (gs ! i)" by (simp add: list_all_length)
  with reload_step_inv [OF step(5,4)] step(2) assms(2-4)
  have "lists_all W B A s' \<and> holds W B A g' \<and> srv_conf s' = srv_conf s \<and> srv_tracker s' = srv_tracker s"
    by simp
  with step(2,3) show ?case by (auto simp: list_all_length nth_list_update)
qed

section \<open>Properties\<close>

text \<open>C4: When the directory has a newest file for each of the three lists and their lines fit the read buffer,
  reading the lists succeeds, and from then on a name is restricted exactly when it is listed as an
  advertiser and the request asks for that category, or when it is blacklisted and not whitelisted.\<close>

theorem readLists_isRestricted:
  assumes "conf_ListsDirectory (srv_conf s) = dir" and "dir \<noteq> []"
    and "getMaxNumberFilenameForRE fs dir (list_RE ''whitelist'') = Inr wfile"
    and "getMaxNumberFilenameForRE fs dir (list_RE ''blacklist'') = Inr bfile"
    and "getMaxNumberFilenameForRE fs dir (list_RE ''adslist'') = Inr afile"
    and "fs_file fs (path_Join dir wfile) = Inr (file_of_lines wl, None)"
    and "fs_file fs (path_Join dir bfile) = Inr (file_of_lines bl, None)"
    and "fs_file fs (path_Join dir afile) = Inr (file_of_lines al, None)"
    and "list_all short_line (wl @ bl @ al)"
  shows "\<exists>s'. readLists lib fs s = (None, s') \<and>
    (\<forall>d cats. isRestricted lib s' d cats \<longleftrightarrow>
       (let n = strings_ToLower lib (Fqdn d) in
        cats AND CategoryAds \<noteq> 0 \<and> listed lib al n \<or> \<not> listed lib wl n \<and> listed lib bl n))"
proof -
  have sh: "list_all short_line wl" "list_all short_line bl" "list_all short_line al" using assms(9) by auto
  from parseList_lines [OF assms(6) sh(1), of lib] obtain w where
    w: "parseList lib fs (path_Join dir wfile) = Inr w" "\<And>k. lookup_bool w k \<longleftrightarrow> listed lib wl k" by blast
  from parseList_lines [OF assms(7) sh(2), of lib] obtain b where
    b: "parseList lib fs (path_Join dir bfile) = Inr b" "\<And>k. lookup_bool b k \<longleftrightarrow> listed lib bl k" by blast
  from parseList_lines [OF assms(8) sh(3), of lib] obtain a where
    a: "parseList lib fs (path_Join dir afile) = Inr a" "\<And>k. lookup_bool a k \<longleftrightarrow> listed lib al k" by blast
  have "readLists lib fs s = (None, s\<lparr>srv_whitelist := w, srv_blacklist := b, srv_adsList := a\<rparr>)"
    using assms w b a by (simp add: readLists_def readList_def)
  then show ?thesis using w(2) b(2) a(2) by (auto simp: isRestricted_iff Let_def)
qed

definition example_config :: config where
  "example_config =
     \<lparr>conf_Listen = [''127.0.0.1:8053''], conf_Cert = [], conf_Key = [], conf_Path = ''/dns-query'',
      conf_Upstream = [''8.8.8.8:53'', ''8.8.4.4:53''], conf_Timeout = 10, conf_Tries = 2, conf_TCPOnly = False,
      conf_Verbose = False, conf_ListsDirectory = ''/l'', conf_ListsUpdateEndpoint = [], conf_RequestsLog = []\<rparr>"

definition example_lists :: osfs where
  "example_lists =
     \<lparr>fs_names = (\<lambda>_. Inr [''blacklist.9.txt'', ''whitelist.1.txt'', ''blacklist.10.txt'', ''adslist.3.txt'',
        ''README'']),
      fs_file = (\<lambda>f. if f = ''/l/blacklist.10.txt'' then Inr (file_of_lines ['' Bad.example '', ''x.y''], None)
                      else if f = ''/l/whitelist.1.txt'' then Inr (file_of_lines [''x.y''], None)
                      else if f = ''/l/adslist.3.txt'' then Inr (file_of_lines [''ads.example''], None)
                      else Inl ''no such file'')\<rparr>"

lemma example_lists_max:
  "getMaxNumberFilenameForRE example_lists ''/l'' (list_RE ''whitelist'') = Inr ''whitelist.1.txt''"
  "getMaxNumberFilenameForRE example_lists ''/l'' (list_RE ''blacklist'') = Inr ''blacklist.10.txt''"
  "getMaxNumberFilenameForRE example_lists ''/l'' (list_RE ''adslist'') = Inr ''adslist.3.txt''"
  by (simp_all add: getMaxNumberFilenameForRE_def example_lists_def list_RE_def number_group_def
      max_number_loop.simps is_digit_def Atoi_digits digit_val_def)

lemma example_lists_join:
  "path_Join ''/l'' ''whitelist.1.txt'' = ''/l/whitelist.1.txt''"
  "path_Join ''/l'' ''blacklist.10.txt'' = ''/l/blacklist.10.txt''"
  "path_Join ''/l'' ''adslist.3.txt'' = ''/l/adslist.3.txt''"
  by code_simp+

theorem readLists_isRestricted_witness:
  "\<exists>s'. readLists plain_golib example_lists (NewServer example_config) = (None, s') \<and>
     isRestricted plain_golib s' ''BAD.example.'' 0 \<and> \<not> isRestricted plain_golib s' ''x.y'' 0"
proof -
  have "listed plain_golib ['' Bad.example '', ''x.y''] (strings_ToLower plain_golib (Fqdn ''BAD.example.''))"
    "\<not> listed plain_golib [''x.y''] (strings_ToLower plain_golib (Fqdn ''BAD.example.''))"
    "listed plain_golib [''x.y''] (strings_ToLower plain_golib (Fqdn ''x.y''))"
    "\<not> listed plain_golib [''ads.example''] (strings_ToLower plain_golib (Fqdn ''x.y''))" by code_simp+
  then show ?thesis
    using readLists_isRestricted [of "NewServer example_config" "''/l''" example_lists "''whitelist.1.txt''"
        "''blacklist.10.txt''" "''adslist.3.txt''" "[''x.y'']" "['' Bad.example '', ''x.y'']" "[''ads.example'']"
        plain_golib]
    by (simp add: example_lists_max example_lists_join NewServer_def example_config_def Let_def)
       (auto simp: example_lists_def short_line_def bufsize_def)
qed

text \<open>C25: The file chosen for a list is one of the directory that the pattern matches, no matching file has a
  larger number, and if any file matches with a number that fits an \<^verbatim>\<open>int\<close>, one is chosen.\<close>

theorem newest_list_chosen:
  assumes "fs_names fs dir = Inr names"
  shows "(case getMaxNumberFilenameForRE fs dir (list_RE base) of
      Inr f \<Rightarrow> \<exists>ds. f = base @ ''.'' @ ds @ ''.txt'' \<and> f \<in> set names \<and> list_all is_digit ds \<and>
        (\<forall>es. base @ ''.'' @ es @ ''.txt'' \<in> set names \<and> es \<noteq> [] \<and> list_all is_digit es \<and> dec_from 0 es < 2 ^ 63 \<longrightarrow>
           dec_from 0 es \<le> dec_from 0 ds)
    | Inl _ \<Rightarrow> \<forall>es. base @ ''.'' @ es @ ''.txt'' \<in> set names \<and> es \<noteq> [] \<and> list_all is_digit es \<longrightarrow>
        2 ^ 63 \<le> dec_from 0 es)"
proof (cases "getMaxNumberFilenameForRE fs dir (list_RE base)")
  case (Inl e)
  then show ?thesis using getMax_total [OF assms, of _ base] by (fastforce simp: file_number_list_RE)
next
  case (Inr f)
  from getMax_Inr [OF assms Inr] obtain n where n: "f \<in> set names" "file_number (list_RE base) f = Some n"
    "\<And>g k. g \<in> set names \<Longrightarrow> file_number (list_RE base) g = Some k \<Longrightarrow> k \<le> n" by blast
  from n(2) obtain ds where ds: "f = base @ ''.'' @ ds @ ''.txt''" "list_all is_digit ds" "n = int (dec_from 0 ds)"
    by (auto simp: file_number_list_RE)
  have "dec_from 0 es \<le> dec_from 0 ds"
    if "base @ ''.'' @ es @ ''.txt'' \<in> set names" "es \<noteq> []" "list_all is_digit es" "dec_from 0 es < 2 ^ 63" for es
    using n(3) [OF that(1), of "int (dec_from 0 es)"] that ds(3) by (auto simp: file_number_list_RE)
  with ds n(1) Inr show ?thesis by auto
qed

theorem newest_list_chosen_witness:
  "getMaxNumberFilenameForRE example_lists ''/l'' (list_RE ''blacklist'') = Inr ''blacklist.10.txt'' \<and>
   (\<exists>ds. ''blacklist.10.txt'' = ''blacklist'' @ ''.'' @ ds @ ''.txt'' \<and> dec_from 0 ''9'' \<le> dec_from 0 ds)"
proof -
  have "fs_names example_lists ''/l'' =
      Inr [''blacklist.9.txt'', ''whitelist.1.txt'', ''blacklist.10.txt'', ''adslist.3.txt'', ''README'']"
    by (simp add: example_lists_def)
  from newest_list_chosen [OF this, of "''blacklist''"] obtain ds where
    ds: "''blacklist.10.txt'' = ''blacklist'' @ ''.'' @ ds @ ''.txt''"
    and le: "\<forall>es. ''blacklist'' @ ''.'' @ es @ ''.txt'' \<in> set [''blacklist.9.txt'', ''whitelist.1.txt'',
        ''blacklist.10.txt'', ''adslist.3.txt'', ''README''] \<and> es \<noteq> [] \<and> list_all is_digit es \<and>
        dec_from 0 es < 2 ^ 63 \<longrightarrow> dec_from 0 es \<le> dec_from 0 ds"
    unfolding example_lists_max sum.case by blast
  from le [THEN spec, of "''9''"] have "dec_from 0 ''9'' \<le> dec_from 0 ds"
    by (simp add: is_digit_def digit_val_def)
  with ds show ?thesis by (auto simp: example_lists_max)
qed

text \<open>Filtering an answer while the lists stand still clears the authoritative bit and the authority
  section, and keeps of answer and additional section exactly the records with unrestricted owner names,
  in order; every other field of the message is unchanged.\<close>

lemma postLookup_filters:
  assumes "rq_response req = Some m" and "\<forall>i. at i = s"
  shows "postLookup lib at req = Ret (req\<lparr>rq_response := Some (m\<lparr>msg_Authoritative := False, msg_Ns := [],
      msg_Answer := filter (\<lambda>rr. \<not> isRestricted lib s (hdr_Name (Header rr)) (rq_filterCategories req)) (msg_Answer m),
      msg_Extra := filter (\<lambda>rr. \<not> isRestricted lib s (hdr_Name (Header rr)) (rq_filterCategories req)) (msg_Extra m)\<rparr>)\<rparr>)"
  using assms keep_unrestricted_stable [of at s] by (simp add: postLookup_def Let_def)

text \<open>C5: Whatever the interleaving of reloads with each other, with changes of the files and with the filter, a
  record whose owner name every readable blacklist holds, and no readable whitelist holds, never
  passes; the same goes for the lists in force at the start.\<close>

theorem reload_never_unblocks:
  assumes "\<forall>i. \<exists>gs. lists_run lib fss s0 (gs, at i)"
    and "versions lib fss (conf_ListsDirectory (srv_conf s0)) ''whitelist'' (\<lambda>l. \<not> lookup_bool l n)"
    and "versions lib fss (conf_ListsDirectory (srv_conf s0)) ''blacklist'' (\<lambda>l. lookup_bool l n)"
    and "\<not> lookup_bool (srv_whitelist s0) n" and "lookup_bool (srv_blacklist s0) n"
    and "postLookup lib at req = Ret req'" and "rq_response req' = Some m'"
    and "rr \<in> set (msg_Answer m' @ msg_Ns m' @ msg_Extra m')"
  shows "strings_ToLower lib (Fqdn (hdr_Name (Header rr))) \<noteq> n"
proof
  assume n: "strings_ToLower lib (Fqdn (hdr_Name (Header rr))) = n"
  have "lists_all (\<lambda>l. \<not> lookup_bool l n) (\<lambda>l. lookup_bool l n) (\<lambda>_. True) (at i)" for i
    using assms(1) lists_run_inv [where s = "at i" and A = "\<lambda>_. True", OF _ assms(2,3)] assms(4,5)
    by (auto simp: lists_all_def versions_def)
  then have "isRestricted lib (at i) (hdr_Name (Header rr)) cats" for i cats
    by (simp add: isRestricted_iff n lists_all_def)
  with postLookup_passed [OF assms(6-8)] show False by simp
qed

lemma example_lists_read:
  "\<exists>l. readList plain_golib example_lists ''/l'' (list_RE ''whitelist'') = Inr l \<and> (\<forall>k. lookup_bool l k \<longleftrightarrow> listed plain_golib [''x.y''] k)"
  "\<exists>l. readList plain_golib example_lists ''/l'' (list_RE ''blacklist'') = Inr l \<and>
     (\<forall>k. lookup_bool l k \<longleftrightarrow> listed plain_golib ['' Bad.example '', ''x.y''] k)"
proof -
  have s: "list_all short_line [''x.y'']" "list_all short_line ['' Bad.example '', ''x.y'']"
    by (simp_all add: short_line_def bufsize_def)
  have f: "fs_file example_lists ''/l/whitelist.1.txt'' = Inr (file_of_lines [''x.y''], None)"
    "fs_file example_lists ''/l/blacklist.10.txt'' = Inr (file_of_lines ['' Bad.example '', ''x.y''], None)"
    by (simp_all add: example_lists_def)
  show "\<exists>l. readList plain_golib example_lists ''/l'' (list_RE ''whitelist'') = Inr l \<and> (\<forall>k. lookup_bool l k \<longleftrightarrow> listed plain_golib [''x.y''] k)"
    using parseList_lines [OF f(1) s(1), of plain_golib]
    by (auto simp: readList_def example_lists_max example_lists_join)
  show "\<exists>l. readList plain_golib example_lists ''/l'' (list_RE ''blacklist'') = Inr l \<and>
     (\<forall>k. lookup_bool l k \<longleftrightarrow> listed plain_golib ['' Bad.example '', ''x.y''] k)"
    using parseList_lines [OF f(2) s(2), of plain_golib]
    by (auto simp: readList_def example_lists_max example_lists_join)
qed

text \<open>A reload that publishes its whitelist between the checks of two records.\<close>

theorem reload_never_unblocks_witness:
  "\<exists>w at req m'. readList plain_golib example_lists ''/l'' (list_RE ''whitelist'') = Inr w \<and>
     at = (\<lambda>i :: nat. if i = 0 then (NewServer example_config)\<lparr>srv_blacklist := [''bad.example.'' \<mapsto> True]\<rparr>
       else (NewServer example_config)\<lparr>srv_blacklist := [''bad.example.'' \<mapsto> True], srv_whitelist := w\<rparr>) \<and>
     postLookup plain_golib at (new_DNSRequest\<lparr>rq_response := Some (new_Msg\<lparr>msg_Answer :=
       [set_Header (Header example_RR\<lparr>hdr_Name := ''bad.example.''\<rparr>) example_RR, example_RR]\<rparr>)\<rparr>) = Ret req \<and>
     rq_response req = Some m' \<and> example_RR \<in> set (msg_Answer m') \<and>
     strings_ToLower plain_golib (Fqdn (hdr_Name (Header example_RR))) \<noteq> ''bad.example.''"
proof -
  let ?s = "(NewServer example_config)\<lparr>srv_blacklist := [''bad.example.'' \<mapsto> True]\<rparr>"
  let ?bad = "set_Header (Header example_RR\<lparr>hdr_Name := ''bad.example.''\<rparr>) example_RR"
  let ?req = "new_DNSRequest\<lparr>rq_response := Some (new_Msg\<lparr>msg_Answer := [?bad, example_RR]\<rparr>)\<rparr>"
  let ?out = "new_DNSRequest\<lparr>rq_response := Some (new_Msg\<lparr>msg_Answer := [example_RR]\<rparr>)\<rparr>"
  obtain w where w: "readList plain_golib example_lists ''/l'' (list_RE ''whitelist'') = Inr w"
    "\<forall>k. lookup_bool w k \<longleftrightarrow> listed plain_golib [''x.y''] k" using example_lists_read(1) by blast
  obtain b where b: "readList plain_golib example_lists ''/l'' (list_RE ''blacklist'') = Inr b"
    "\<forall>k. lookup_bool b k \<longleftrightarrow> listed plain_golib ['' Bad.example '', ''x.y''] k" using example_lists_read(2) by blast
  let ?at = "\<lambda>i :: nat. if i = 0 then ?s else ?s\<lparr>srv_whitelist := w\<rparr>"
  have l: "listed plain_golib ['' Bad.example '', ''x.y''] ''bad.example.''" "\<not> listed plain_golib [''x.y''] ''bad.example.''"
    "\<not> listed plain_golib [''x.y''] ''a.example.''" "strings_ToLower plain_golib (Fqdn ''bad.example.'') = ''bad.example.''"
    "strings_ToLower plain_golib (Fqdn ''a.example.'') = ''a.example.''" by code_simp+
  have d: "conf_ListsDirectory (srv_conf ?s) = ''/l''" by (simp add: NewServer_def example_config_def)
  have r0: "lists_run plain_golib {example_lists} ?s ([], ?s)" by (rule idle)
  have r1: "lists_run plain_golib {example_lists} ?s ([ReadWhite], ?s)"
    using lists_run.post [OF r0] d by (simp add: reload_start_def)
  have r2: "lists_run plain_golib {example_lists} ?s ([PubWhite w], ?s)"
    using lists_run.step [OF r1, of 0 example_lists] d w(1) by (simp add: reload_step_def)
  have r3: "lists_run plain_golib {example_lists} ?s ([ReadBlack], ?s\<lparr>srv_whitelist := w\<rparr>)"
    using lists_run.step [OF r2, of 0 example_lists] by (simp add: reload_step_def)
  have run: "\<forall>i. \<exists>gs. lists_run plain_golib {example_lists} ?s (gs, ?at i)" using r0 r3 by auto
  have p: "postLookup plain_golib ?at ?req = Ret ?out"
    using l by (simp add: postLookup_def isRestricted_iff example_RR_def new_DNSRequest_def new_Msg_def NewServer_def Let_def)
  have "strings_ToLower plain_golib (Fqdn (hdr_Name (Header example_RR))) \<noteq> ''bad.example.''"
    by (rule reload_never_unblocks [OF run _ _ _ _ p])
       (use d w b l in \<open>auto simp: versions_def NewServer_def example_config_def new_DNSRequest_def new_Msg_def\<close>)
  with w(1) p show ?thesis by (auto simp: new_DNSRequest_def new_Msg_def)
qed

text \<open>C38: Of a line that is longer than the read buffer only the part after the last full buffer is taken as a
  domain: the list that results from such a line is that of its tail alone.\<close>

theorem parseList_long_line:
  assumes "length c = 4096" and "LF \<notin> set c" and "last c \<noteq> CR" and "fs_file fs path = Inr (c @ rest, ioerr)"
    and "fs_file fs path' = Inr (rest, ioerr)"
  shows "parseList lib fs path = parseList lib fs path'"
  using parseList_loop_long [of c lib ioerr Map.empty rest] assms by (simp add: parseList_def bufsize_def)

theorem parseList_long_line_witness:
  "parseList plain_golib
     \<lparr>fs_names = (\<lambda>_. Inl []), fs_file = (\<lambda>f. if f = ''x'' then Inr (replicate 4096 CHR '' '' @ ''a.b'', None) else Inr (''a.b'', None))\<rparr> ''x'' =
   parseList plain_golib
     \<lparr>fs_names = (\<lambda>_. Inl []), fs_file = (\<lambda>f. if f = ''x'' then Inr (replicate 4096 CHR '' '' @ ''a.b'', None) else Inr (''a.b'', None))\<rparr> ''y''"
  by (rule parseList_long_line [of "replicate 4096 CHR '' ''"]) simp_all

end
