(* ===== verification/GlobalIP.thy ===== *)
theory GlobalIP
  imports GoNet
begin

text \<open>
  \<^verbatim>\<open>json-dns/globalip.go\<close>: the two tables of local networks and \<^verbatim>\<open>IsGlobalIP\<close>, which decides whether a
  client address may be sent upstream in an EDNS client-subnet option. The interface \<open>cidr_nets\<close>
  says that a table of networks is a table of CIDR blocks; it is interpreted on both tables of the
  program, and turns the bytewise membership test of the code into membership in intervals.
\<close>

section \<open>The tables and the test\<close>

definition localIPv4Nets :: "IPNet list" where
  "localIPv4Nets =
     [\<lparr>net_addr = [0, 0, 0, 0], net_mask = [255, 0, 0, 0]\<rparr>,
      \<lparr>net_addr = [10, 0, 0, 0], net_mask = [255, 0, 0, 0]\<rparr>,
      \<lparr>net_addr = [100, 64, 0, 0], net_mask = [255, 192, 0, 0]\<rparr>,
      \<lparr>net_addr = [127, 0, 0, 0], net_mask = [255, 0, 0, 0]\<rparr>,
      \<lparr>net_addr = [169, 254, 0, 0], net_mask = [255, 255, 0, 0]\<rparr>,
      \<lparr>net_addr = [172, 16, 0, 0], net_mask = [255, 240, 0, 0]\<rparr>,
      \<lparr>net_addr = [192, 0, 0, 0], net_mask = [255, 255, 255, 248]\<rparr>,
      \<lparr>net_addr = [192, 88, 99, 0], net_mask = [255, 255, 255, 0]\<rparr>,
      \<lparr>net_addr = [192, 168, 0, 0], net_mask = [255, 255, 0, 0]\<rparr>,
      \<lparr>net_addr = [240, 0, 0, 0], net_mask = [240, 0, 0, 0]\<rparr>]"

definition localIPv6Nets :: "IPNet list" where
  "localIPv6Nets =
     [\<lparr>net_addr = [0, 0, 0, 0, 0, 0, 0, 0, 0, 0, 0, 0, 0, 0, 0, 0],
       net_mask = [255, 255, 255, 255, 255, 255, 255, 255, 255, 255, 255, 255, 255, 255, 255, 254]\<rparr>,
      \<lparr>net_addr = [1, 0, 0, 0, 0, 0, 0, 0, 0, 0, 0, 0, 0, 0, 0, 0],
       net_mask = [255, 255, 255, 255, 255, 255, 255, 255, 0, 0, 0, 0, 0, 0, 0, 0]\<rparr>,
      \<lparr>net_addr = [252, 0, 0, 0, 0, 0, 0, 0, 0, 0, 0, 0, 0, 0, 0, 0],
       net_mask = [254, 0, 0, 0, 0, 0, 0, 0, 0, 0, 0, 0, 0, 0, 0, 0]\<rparr>,
      \<lparr>net_addr = [254, 128, 0, 0, 0, 0, 0, 0, 0, 0, 0, 0, 0, 0, 0, 0],
       net_mask = [255, 192, 0, 0, 0, 0, 0, 0, 0, 0, 0, 0, 0, 0, 0, 0]\<rparr>]"

definition IsGlobalIP :: "net_IP \<Rightarrow> bool" where
  "IsGlobalIP ipo =
     (case ipo of
        None \<Rightarrow> False
      | Some ip \<Rightarrow>
          (case To4 ip of
             Some ipv4 \<Rightarrow> \<not> list_ex (\<lambda>ipnet. IPNet_Contains ipnet ip) localIPv4Nets
           | None \<Rightarrow>
               if length ip = 16 then \<not> list_ex (\<lambda>ipnet. IPNet_Contains ipnet ip) localIPv6Nets
               else True))"

section \<open>Tables of networks as sets of blocks\<close>

text \<open>A CIDR block: its base address and its prefix length, as an interval of numbers.\<close>

definition cidr_block :: "bytes \<times> nat \<Rightarrow> nat set" where
  "cidr_block bk = {be_nat (fst bk) ..< be_nat (fst bk) + 2 ^ (8 * length (fst bk) - snd bk)}"

locale cidr_nets =
  fixes nets :: "IPNet list" and blocks :: "(bytes \<times> nat) list" and w :: nat
  assumes nets_blocks:
      "nets = map (\<lambda>bk. \<lparr>net_addr = fst bk, net_mask = cidr_bytes w (snd bk)\<rparr>) blocks"
    and aligned:
      "bk \<in> set blocks \<Longrightarrow>
         length (fst bk) = w \<and> snd bk \<le> 8 * w \<and> be_nat (fst bk) mod 2 ^ (8 * w - snd bk) = 0"
    and width: "w = 4 \<or> (w = 16 \<and> (\<forall>bk\<in>set blocks. To4 (fst bk) = None))"
begin

lemma network_number:
  assumes "bk \<in> set blocks"
  shows "networkNumberAndMask \<lparr>net_addr = fst bk, net_mask = cidr_bytes w (snd bk)\<rparr> =
    (fst bk, cidr_bytes w (snd bk))"
  using width aligned [OF assms] assms by (auto simp: networkNumberAndMask_def)

lemma contains_block:
  assumes "bk \<in> set blocks" and "length (case To4 ip of Some x \<Rightarrow> x | None \<Rightarrow> ip) = w"
  shows "IPNet_Contains \<lparr>net_addr = fst bk, net_mask = cidr_bytes w (snd bk)\<rparr> ip \<longleftrightarrow>
    be_nat (case To4 ip of Some x \<Rightarrow> x | None \<Rightarrow> ip) \<in> cidr_block bk"
proof -
  let ?x = "case To4 ip of Some x \<Rightarrow> x | None \<Rightarrow> ip"
  note al = aligned [OF assms(1)]
  have "IPNet_Contains \<lparr>net_addr = fst bk, net_mask = cidr_bytes w (snd bk)\<rparr> ip \<longleftrightarrow>
      map2 (AND) (fst bk) (cidr_bytes w (snd bk)) = map2 (AND) ?x (cidr_bytes w (snd bk))"
    using assms al by (simp add: IPNet_Contains_def network_number Let_def)
  also have "\<dots> \<longleftrightarrow> be_nat (fst bk) div 2 ^ (8 * w - snd bk) = be_nat ?x div 2 ^ (8 * w - snd bk)"
    using masked_eq_iff_div [of ?x "fst bk" "snd bk"] assms al by simp
  also have "\<dots> \<longleftrightarrow> be_nat ?x \<in> cidr_block bk"
    using div_eq_iff_interval [of "be_nat (fst bk)" "8 * w - snd bk" "be_nat ?x"] al
    by (auto simp: cidr_block_def)
  finally show ?thesis .
qed

lemma in_some_net_iff:
  assumes "length (case To4 ip of Some x \<Rightarrow> x | None \<Rightarrow> ip) = w"
  shows "list_ex (\<lambda>n. IPNet_Contains n ip) nets \<longleftrightarrow>
    be_nat (case To4 ip of Some x \<Rightarrow> x | None \<Rightarrow> ip) \<in> (\<Union>bk\<in>set blocks. cidr_block bk)"
  using contains_block [OF _ assms] by (auto simp: nets_blocks list_ex_iff)

end

text \<open>The blocks that the two tables list.\<close>

definition local_v4_blocks :: "(bytes \<times> nat) list" where
  "local_v4_blocks =
     [([0, 0, 0, 0], 8), ([10, 0, 0, 0], 8), ([100, 64, 0, 0], 10), ([127, 0, 0, 0], 8),
      ([169, 254, 0, 0], 16), ([172, 16, 0, 0], 12), ([192, 0, 0, 0], 29), ([192, 88, 99, 0], 24),
      ([192, 168, 0, 0], 16), ([240, 0, 0, 0], 4)]"

definition local_v6_blocks :: "(bytes \<times> nat) list" where
  "local_v6_blocks =
     [([0, 0, 0, 0, 0, 0, 0, 0, 0, 0, 0, 0, 0, 0, 0, 0], 127),
      ([1, 0, 0, 0, 0, 0, 0, 0, 0, 0, 0, 0, 0, 0, 0, 0], 64),
      ([252, 0, 0, 0, 0, 0, 0, 0, 0, 0, 0, 0, 0, 0, 0, 0], 7),
      ([254, 128, 0, 0, 0, 0, 0, 0, 0, 0, 0, 0, 0, 0, 0, 0], 10)]"

interpretation v4: cidr_nets localIPv4Nets local_v4_blocks 4
proof (unfold_locales, goal_cases)
  case 1
  show ?case by code_simp
next
  case (2 bk)
  then show ?case by (auto simp: local_v4_blocks_def)
next
  case 3
  show ?case by simp
qed

interpretation v6: cidr_nets localIPv6Nets local_v6_blocks 16
proof (unfold_locales, goal_cases)
  case 1
  show ?case by code_simp
next
  case (2 bk)
  then show ?case by (auto simp: local_v6_blocks_def)
next
  case 3
  show ?case by (auto simp: local_v6_blocks_def To4_def v4InV6Prefix_def)
qed

section \<open>Properties\<close>

lemma IsGlobalIP_nil [simp]: "IsGlobalIP None = False"
  by (simp add: IsGlobalIP_def)

lemma IsGlobalIP_v4_iff:
  assumes "To4 ip = Some p"
  shows "IsGlobalIP (Some ip) \<longleftrightarrow> be_nat p \<notin> (\<Union>bk\<in>set local_v4_blocks. cidr_block bk)"
  using v4.in_some_net_iff [of ip] assms To4_length [OF assms] by (simp add: IsGlobalIP_def)

lemma IsGlobalIP_v6_iff:
  assumes "To4 ip = None" and "length ip = 16"
  shows "IsGlobalIP (Some ip) \<longleftrightarrow> be_nat ip \<notin> (\<Union>bk\<in>set local_v6_blocks. cidr_block bk)"
  using v6.in_some_net_iff [of ip] assms by (simp add: IsGlobalIP_def)

text \<open>C19: The byte-wise test of the code against its tables is membership in intervals: an IPv4 address, in either
  of its representations, is global when its number lies in none of the ten listed blocks, an IPv6
  address when its number lies in none of the four.\<close>

theorem IsGlobalIP_blocks:
  assumes "length ip = 4 \<or> length ip = 16"
  shows "IsGlobalIP (Some ip) \<longleftrightarrow>
    (case To4 ip of
       Some p \<Rightarrow> be_nat p \<notin> (\<Union>bk\<in>set local_v4_blocks. cidr_block bk)
     | None \<Rightarrow> be_nat ip \<notin> (\<Union>bk\<in>set local_v6_blocks. cidr_block bk))"
proof (cases "To4 ip")
  case None
  then have "length ip = 16" using assms by (auto simp: To4_def)
  with None IsGlobalIP_v6_iff [OF None] show ?thesis by simp
next
  case (Some p)
  with IsGlobalIP_v4_iff [OF Some] show ?thesis by simp
qed

theorem IsGlobalIP_blocks_witness:
  "\<not> IsGlobalIP (Some [100, 127, 255, 255]) \<and> IsGlobalIP (Some [100, 128, 0, 0]) \<and>
   \<not> IsGlobalIP (Some [0, 0, 0, 0, 0, 0, 0, 0, 0, 0, 255, 255, 10, 1, 2, 3]) \<and>
   \<not> IsGlobalIP (Some [254, 191, 0, 0, 0, 0, 0, 0, 0, 0, 0, 0, 0, 0, 0, 1]) \<and>
   IsGlobalIP (Some [32, 1, 0, 0, 0, 0, 0, 0, 0, 0, 0, 0, 0, 0, 0, 1])"
proof -
  have t: "To4 [100, 127, 255, 255] = Some [100, 127, 255, 255]" "To4 [100, 128, 0, 0] = Some [100, 128, 0, 0]"
    "To4 [0, 0, 0, 0, 0, 0, 0, 0, 0, 0, 255, 255, 10, 1, 2, 3] = Some [10, 1, 2, 3]"
    "To4 [254, 191, 0, 0, 0, 0, 0, 0, 0, 0, 0, 0, 0, 0, 0, 1] = None"
    "To4 [32, 1, 0, 0, 0, 0, 0, 0, 0, 0, 0, 0, 0, 0, 0, 1] = None"
    by (simp_all add: To4_def v4InV6Prefix_def)
  have "\<not> IsGlobalIP (Some [100, 127, 255, 255])"
    by (subst IsGlobalIP_blocks) (simp_all add: t local_v4_blocks_def cidr_block_def be_nat_def)
  moreover have "IsGlobalIP (Some [100, 128, 0, 0])"
    by (subst IsGlobalIP_blocks) (simp_all add: t local_v4_blocks_def cidr_block_def be_nat_def)
  moreover have "\<not> IsGlobalIP (Some [0, 0, 0, 0, 0, 0, 0, 0, 0, 0, 255, 255, 10, 1, 2, 3])"
    by (subst IsGlobalIP_blocks) (simp_all add: t local_v4_blocks_def cidr_block_def be_nat_def)
  moreover have "\<not> IsGlobalIP (Some [254, 191, 0, 0, 0, 0, 0, 0, 0, 0, 0, 0, 0, 0, 0, 1])"
    by (subst IsGlobalIP_blocks) (simp_all add: t local_v6_blocks_def cidr_block_def be_nat_def)
  moreover have "IsGlobalIP (Some [32, 1, 0, 0, 0, 0, 0, 0, 0, 0, 0, 0, 0, 0, 0, 1])"
    by (subst IsGlobalIP_blocks) (simp_all add: t local_v6_blocks_def cidr_block_def be_nat_def)
  ultimately show ?thesis by blast
qed

end
