(* ===== verification/GoBase64.thy ===== *)
theory GoBase64
  imports GoStrings
begin

text \<open>
  \<^verbatim>\<open>base64.RawURLEncoding\<close>: the URL alphabet without padding. The decoder skips line ends and ignores
  unused trailing bits, as Go's does when it is not strict. Decoding what was encoded gives it back.
\<close>

section \<open>Encoding\<close>

definition b64_char :: "nat \<Rightarrow> char" where
  "b64_char n =
     (if n < 26 then char_of (65 + n) else if n < 52 then char_of (71 + n)
      else if n < 62 then char_of (n - 4) else if n = 62 then CHR ''-'' else CHR ''_'')"

definition b64_val :: "char \<Rightarrow> nat option" where
  "b64_val c =
     (let n = (of_char c :: nat) in
      if 65 \<le> n \<and> n \<le> 90 then Some (n - 65) else if 97 \<le> n \<and> n \<le> 122 then Some (n - 71)
      else if 48 \<le> n \<and> n \<le> 57 then Some (n + 4) else if c = CHR ''-'' then Some 62
      else if c = CHR ''_'' then Some 63 else None)"

fun EncodeToString :: "bytes \<Rightarrow> string" where
  "EncodeToString [] = []"
| "EncodeToString [a] = [b64_char (unat a div 4), b64_char (unat a mod 4 * 16)]"
| "EncodeToString [a, b] =
     [b64_char (unat a div 4), b64_char (unat a mod 4 * 16 + unat b div 16), b64_char (unat b mod 16 * 4)]"
| "EncodeToString (a # b # c # bs) =
     b64_char (unat a div 4) # b64_char (unat a mod 4 * 16 + unat b div 16) #
     b64_char (unat b mod 16 * 4 + unat c div 64) # b64_char (unat c mod 64) # EncodeToString bs"

section \<open>Decoding\<close>

fun b64_digits :: "string \<Rightarrow> nat list option" where
  "b64_digits [] = Some []"
| "b64_digits (c # cs) =
     (if c = CHR 0x0A \<or> c = CHR 0x0D then b64_digits cs
      else case b64_val c of
             None \<Rightarrow> None
           | Some d \<Rightarrow> map_option ((#) d) (b64_digits cs))"

fun b64_bytes :: "nat list \<Rightarrow> bytes option" where
  "b64_bytes [] = Some []"
| "b64_bytes [x] = None"
| "b64_bytes [x, y] = Some [of_nat (x * 4 + y div 16)]"
| "b64_bytes [x, y, z] = Some [of_nat (x * 4 + y div 16), of_nat (y mod 16 * 16 + z div 4)]"
| "b64_bytes (x # y # z # w # ds) =
     map_option (\<lambda>bs. of_nat (x * 4 + y div 16) # of_nat (y mod 16 * 16 + z div 4)
                        # of_nat (z mod 4 * 64 + w) # bs) (b64_bytes ds)"

definition DecodeString :: "string \<Rightarrow> bytes option" where
  "DecodeString s = Option.bind (b64_digits s) b64_bytes"

section \<open>Lemmas\<close>

lemma b64_val_char: "n < 64 \<Longrightarrow> b64_val (b64_char n) = Some n"
  by (auto simp: b64_val_def b64_char_def Let_def)

lemma b64_char_not_eol: "n < 64 \<Longrightarrow> b64_char n \<noteq> CHR 0x0A \<and> b64_char n \<noteq> CHR 0x0D"
proof -
  assume "n < 64"
  then have "b64_val (b64_char n) \<noteq> None" by (simp add: b64_val_char)
  moreover have "b64_val CHR 0x0A = None" "b64_val CHR 0x0D = None" by (simp_all add: b64_val_def)
  ultimately show ?thesis by metis
qed

lemma b64_digits_map: "list_all (\<lambda>n. n < 64) ns \<Longrightarrow> b64_digits (map b64_char ns) = Some ns"
  by (induction ns) (simp_all add: b64_val_char b64_char_not_eol)

text \<open>The digits of an encoding.\<close>

fun sextets :: "nat list \<Rightarrow> nat list" where
  "sextets [] = []"
| "sextets [a] = [a div 4, a mod 4 * 16]"
| "sextets [a, b] = [a div 4, a mod 4 * 16 + b div 16, b mod 16 * 4]"
| "sextets (a # b # c # bs) =
     (a div 4) # (a mod 4 * 16 + b div 16) # (b mod 16 * 4 + c div 64) # (c mod 64) # sextets bs"

lemma Encode_sextets: "EncodeToString bs = map b64_char (sextets (map unat bs))"
  by (induction bs rule: EncodeToString.induct) simp_all

lemma sextets_lt: "list_all (\<lambda>n. n < 256) ns \<Longrightarrow> list_all (\<lambda>n. n < 64) (sextets ns)"
proof (induction ns rule: sextets.induct)
  case (2 a)
  then show ?case by simp
next
  case (3 a b)
  then show ?case by simp linarith
next
  case (4 a b c bs)
  moreover from 4 have "a div 4 < 64" "a mod 4 * 16 + b div 16 < 64" "b mod 16 * 4 + c div 64 < 64"
    by (simp_all, linarith+)
  ultimately show ?case by simp
qed simp

lemma sextets_join:
  "(b :: nat) < 256 \<Longrightarrow> a div 4 * 4 + (a mod 4 * 16 + b div 16) div 16 = a"
  "(b :: nat) < 256 \<Longrightarrow> (c :: nat) < 256 \<Longrightarrow>
     (a mod 4 * 16 + b div 16) mod 16 * 16 + (b mod 16 * 4 + c div 64) div 4 = b"
  "(c :: nat) < 256 \<Longrightarrow> (b mod 16 * 4 + c div 64) mod 4 * 64 + c mod 64 = c"
  by (simp_all add: div_add1_eq mod_add_eq)

lemma b64_bytes_sextets:
  "list_all (\<lambda>n. n < 256) ns \<Longrightarrow> b64_bytes (sextets ns) = Some (map of_nat ns)"
proof (induction ns rule: sextets.induct)
  case (2 a)
  have "a div 4 * 4 + a mod 4 * 16 div 16 = a" by simp
  then show ?case by (simp only: sextets.simps b64_bytes.simps list.map)
next
  case (3 a b)
  then have "b < 256" by simp
  moreover from this have "(a mod 4 * 16 + b div 16) mod 16 * 16 + b mod 16 * 4 div 4 = b"
    using sextets_join(2) [of b 0 a] by simp
  ultimately have j: "a div 4 * 4 + (a mod 4 * 16 + b div 16) div 16 = a"
    "(a mod 4 * 16 + b div 16) mod 16 * 16 + b mod 16 * 4 div 4 = b"
    using sextets_join(1) by blast+
  show ?case by (simp only: sextets.simps b64_bytes.simps list.map j)
next
  case (4 a b c bs)
  then have "b < 256" "c < 256" and "b64_bytes (sextets bs) = Some (map of_nat bs)" by simp_all
  note j = sextets_join(1) [OF this(1)] sextets_join(2) [OF this(1,2)] sextets_join(3) [OF this(2)] this(3)
  show ?case by (simp only: sextets.simps b64_bytes.simps list.map option.map j)
qed simp

lemma DecodeString_Encode: "DecodeString (EncodeToString bs) = Some bs"
proof -
  have "list_all (\<lambda>n. n < 256) (map unat bs)"
    using unsigned_less [where ?'a = nat and ?'b = 8] by (simp add: list_all_iff)
  then show ?thesis
    by (simp add: DecodeString_def Encode_sextets b64_digits_map sextets_lt b64_bytes_sextets comp_def)
qed

lemma EncodeToString_Nil [simp]: "EncodeToString bs = [] \<longleftrightarrow> bs = []"
  by (cases bs rule: EncodeToString.cases) auto

end
