(* ===== verification/DohServer.thy ===== *)
theory DohServer
  imports Filtering GlobalIP GoBase64
begin

text \<open>
  \<^verbatim>\<open>doh-server/server.go\<close>, \<^verbatim>\<open>google.go\<close> and \<^verbatim>\<open>ietf.go\<close>: parsing a request in either protocol, querying an upstream,
  and writing the response. What the server calls outside the repository's own code is a field of
  \<open>server_env\<close>: the clock, random numbers, name resolution, IDNA, the exchange with an upstream, the
  wire codec of messages, and JSON encoding. The handler returns the response writer and the name it
  hands to the tracker.
\<close>

section \<open>Environment\<close>

datatype dns_err = ErrTruncated | ErrOther string

fun dns_err_text :: "dns_err \<Rightarrow> string" where
  "dns_err_text ErrTruncated = ''dns: failed to unpack truncated message''"
| "dns_err_text (ErrOther e) = e"

text \<open>
  The counters tell the calls apart: \<open>env_clock 0\<close> is the reading of \<^verbatim>\<open>Marshal\<close>, \<open>env_clock 1\<close> the reading for the
  \<^verbatim>\<open>Date\<close> field; \<open>env_Intn i n\<close> and the exchanges are those of the try \<open>i\<close>.
\<close>

record server_env =
  env_lib :: golib
  env_time :: timelib
  env_opt_text :: "EDNS0 \<Rightarrow> string"
  env_clock :: "nat \<Rightarrow> int"
  env_Intn :: "nat \<Rightarrow> nat \<Rightarrow> nat"
  env_Id :: u16
  env_ToASCII :: "string \<Rightarrow> string + string"
  env_ResolveTCPAddr :: "string \<Rightarrow> string + net_IP"
  env_udp :: "nat \<Rightarrow> Msg \<Rightarrow> string \<Rightarrow> Msg option \<times> dns_err option"
  env_tcp :: "nat \<Rightarrow> Msg \<Rightarrow> string \<Rightarrow> Msg option \<times> dns_err option"
  env_Pack :: "Msg \<Rightarrow> string + bytes"
  env_Unpack :: "bytes \<Rightarrow> string + Msg"
  env_json_Response :: "Response \<Rightarrow> string + bytes"
  env_json_Error :: "dnsError \<Rightarrow> bytes"

definition USER_AGENT :: string where
  "USER_AGENT = ''DNS-over-QUIC/1.3.11 (+https://github.com/ProfitLabs/quic-dns)''"

section \<open>The client's address\<close>

fun first_global :: "golib \<Rightarrow> string list \<Rightarrow> net_IP" where
  "first_global lib [] = None"
| "first_global lib (addr # addrs) =
     (let ip = ParseIP (strings_TrimSpace lib addr) in
      if IsGlobalIP ip then ip else first_global lib addrs)"

definition findClientIP :: "server_env \<Rightarrow> http_request \<Rightarrow> net_IP" where
  "findClientIP env r =
     (let XForwardedFor = r_Header r ''X-Forwarded-For'';
          ip1 = (if XForwardedFor \<noteq> [] then first_global (env_lib env) (strings_Split CHR '','' XForwardedFor)
                 else None);
          XRealIP = r_Header r ''X-Real-IP'';
          ip2 = (if XRealIP \<noteq> [] then ParseIP (strings_TrimSpace (env_lib env) XRealIP) else None)
      in if ip1 \<noteq> None then ip1
         else if XRealIP \<noteq> [] \<and> IsGlobalIP ip2 then ip2
         else case env_ResolveTCPAddr env (r_RemoteAddr r) of
                Inl err \<Rightarrow> None
              | Inr ip \<Rightarrow> if IsGlobalIP ip then ip else None)"

section \<open>google.go: requests\<close>

definition error_request :: "int \<Rightarrow> string \<Rightarrow> DNSRequest" where
  "error_request code errtext = new_DNSRequest\<lparr>rq_errcode := code, rq_errtext := errtext\<rparr>"

definition parse_categories :: "http_request \<Rightarrow> u64" where
  "parse_categories r = of_nat (fst (strconv_ParseUint (r_Header r ''X-Filter-Categories'') 64))"

definition parse_dnt :: "http_request \<Rightarrow> bool" where
  "parse_dnt r =
     (let splitted = strings_Split CHR '' '' (r_Header r ''DNT'') in
      if length splitted > 0 then splitted ! 0 = ''1'' else False)"

text \<open>The record type from the form value \<^verbatim>\<open>type\<close>; \<^const>\<open>None\<close> is a bad value.\<close>

definition parse_rrtype :: "golib \<Rightarrow> string \<Rightarrow> u16 option" where
  "parse_rrtype lib rrTypeStr =
     (if rrTypeStr = [] then Some 1
      else case strconv_ParseUint rrTypeStr 16 of
             (v, None) \<Rightarrow> Some (of_nat v)
           | (_, Some _) \<Rightarrow> StringToType (strings_ToUpper lib rrTypeStr))"

definition parse_cd :: "string \<Rightarrow> bool option" where
  "parse_cd cdStr =
     (if cdStr = ''1'' \<or> cdStr = ''true'' then Some True
      else if cdStr = ''0'' \<or> cdStr = ''false'' \<or> cdStr = [] then Some False
      else None)"

text \<open>Family, address and prefix length for an address without one.\<close>

definition family_of :: "bytes \<Rightarrow> u16 \<times> bytes \<times> u8" where
  "family_of ip = (case To4 ip of Some ipv4 \<Rightarrow> (1, ipv4, 24) | None \<Rightarrow> (2, ip, 56))"

text \<open>The form value \<^verbatim>\<open>edns_client_subnet\<close>; \<^const>\<open>None\<close> is a bad value.\<close>

definition parse_client_subnet :: "string \<Rightarrow> (u16 \<times> bytes \<times> u8) option" where
  "parse_client_subnet ecs0 =
     (let ecs = (if ecs0 = ''0/0'' then ''0.0.0.0/0'' else ecs0) in
      case strings_IndexByte CHR ''/'' ecs of
        None \<Rightarrow> (case ParseIP ecs of None \<Rightarrow> None | Some ip \<Rightarrow> Some (family_of ip))
      | Some slash \<Rightarrow>
          (case ParseIP (take slash ecs) of
             None \<Rightarrow> None
           | Some ip \<Rightarrow>
               let (fam, addr, _) = family_of ip in
               (case strconv_ParseUint (drop (slash + 1) ecs) 8 of
                  (_, Some _) \<Rightarrow> None
                | (netmask, None) \<Rightarrow> Some (fam, addr, of_nat netmask))))"

definition new_subnet :: "u16 \<times> bytes \<times> u8 \<Rightarrow> EDNS0" where
  "new_subnet fam_addr_mask =
     (case fam_addr_mask of (fam, addr, netmask) \<Rightarrow>
        Opt_SUBNET \<lparr>sub_Code = EDNS0SUBNET, sub_Family = fam, sub_SourceNetmask = netmask,
          sub_SourceScope = 0, sub_Address = Some addr\<rparr>)"

definition new_OPT :: "bool \<Rightarrow> RR_Header" where
  "new_OPT dnssec =
     OPT_SetDo dnssec (OPT_SetUDPSize DefaultMsgSize (new_OPT_header\<lparr>hdr_Name := ''.'', hdr_Rrtype := TypeOPT\<rparr>))"

abbreviation dquote :: char where "dquote \<equiv> CHR 0x22"

definition bad_argument :: "golib \<Rightarrow> string \<Rightarrow> string \<Rightarrow> string" where
  "bad_argument lib arg val =
     ''Invalid argument value: '' @ [dquote] @ arg @ [dquote] @ '' = '' @ fmt_q lib val"

definition parseRequestGoogle :: "server_env \<Rightarrow> http_request \<Rightarrow> DNSRequest" where
  "parseRequestGoogle env r =
     (let lib = env_lib env; name0 = r_Form r ''name'' in
      if name0 = [] then error_request 400 (''Invalid argument value: '' @ [dquote] @ ''name'' @ [dquote])
      else case env_ToASCII env name0 of
        Inl err \<Rightarrow> error_request 400 (bad_argument lib ''name'' name0 @ '' ('' @ err @ '')'')
      | Inr name \<Rightarrow>
          (case parse_rrtype lib (r_Form r ''type'') of
             None \<Rightarrow> error_request 400 (bad_argument lib ''type'' (r_Form r ''type''))
           | Some rrType \<Rightarrow>
               (case parse_cd (r_Form r ''cd'') of
                  None \<Rightarrow> error_request 400 (bad_argument lib ''cd'' (r_Form r ''cd''))
                | Some cd \<Rightarrow>
                    let ecs = r_Form r ''edns_client_subnet'' in
                    (case (if ecs \<noteq> [] then map_option Some (parse_client_subnet ecs)
                           else Some (map_option family_of (findClientIP env r))) of
                       None \<Rightarrow> error_request 400 (bad_argument lib ''edns_client_subnet''
                                  (if ecs = ''0/0'' then ''0.0.0.0/0'' else ecs))
                     | Some sub \<Rightarrow>
                         let msg = SetQuestion (env_Id env) (Fqdn name) rrType new_Msg;
                             opts = (case sub of None \<Rightarrow> [] | Some fam \<Rightarrow> [new_subnet fam])
                         in new_DNSRequest
                              \<lparr>rq_request := Some (msg\<lparr>msg_CheckingDisabled := cd,
                                  msg_Extra := msg_Extra msg @ [RR_OPT (new_OPT True) opts]\<rparr>),
                               rq_isTailored := (ecs = []), rq_filterCategories := parse_categories r,
                               rq_dnt := parse_dnt r\<rparr>))))"

section \<open>Responses\<close>

text \<open>The fields about caching, which both generators set in the same way.\<close>

definition cache_headers :: "timelib \<Rightarrow> bool \<Rightarrow> Response \<Rightarrow> http_writer \<Rightarrow> http_writer" where
  "cache_headers tm isTailored respJSON w =
     (if rs_HaveTTL respJSON
      then Header_Set ''Expires'' (fmt_HTTP tm (rs_EarliestExpires respJSON))
             (Header_Set ''Cache-Control''
                ((if isTailored then ''private, max-age='' else ''public, max-age='')
                 @ strconv_Itoa (unat (rs_LeastTTL respJSON))) w)
      else w)"

definition date_headers :: "string \<Rightarrow> http_writer \<Rightarrow> http_writer" where
  "date_headers now w = Header_Set ''Vary'' ''Accept'' (Header_Set ''Last-Modified'' now (Header_Set ''Date'' now w))"

definition generateResponseGoogle ::
    "server_env \<Rightarrow> http_request \<Rightarrow> DNSRequest \<Rightarrow> http_writer \<Rightarrow> http_writer go" where
  "generateResponseGoogle env r req w =
     go_bind (deref (rq_response req)) (\<lambda>m.
     go_bind (Marshal (env_time env) (env_opt_text env) (env_clock env 0) m) (\<lambda>respJSON.
       case env_json_Response env respJSON of
         Inl err \<Rightarrow>
           Ret (FormatError (env_json_Error env) (''DNS packet parse failure ('' @ err @ '')'') 500 w)
       | Inr respStr \<Rightarrow>
           let w1 = Header_Set ''Content-Type'' ''application/json; charset=UTF-8'' w;
               w2 = date_headers (fmt_HTTP (env_time env) (env_clock env 1)) w1;
               w3 = cache_headers (env_time env) (rq_isTailored req) respJSON w2;
               w4 = (if rs_Status respJSON = word_of_int RcodeServerFailure then WriteHeader 503 w3 else w3)
           in Ret (Write respStr w4)))"

definition patchFirefoxContentType ::
    "http_request \<Rightarrow> DNSRequest \<Rightarrow> http_writer \<Rightarrow> bool \<times> DNSRequest \<times> http_writer" where
  "patchFirefoxContentType r req w =
     (if strings_Contains (UserAgent r) ''Firefox'' \<and>
         strings_Contains (r_Header r ''Accept'') ''application/dns-udpwireformat'' \<and>
         \<not> strings_Contains (r_Header r ''Accept'') ''application/dns-message''
      then (True, req\<lparr>rq_isTailored := True\<rparr>,
            Header_Set ''Vary'' ''Accept, User-Agent''
              (Header_Set ''Content-Type'' ''application/dns-udpwireformat'' w))
      else (False, req, w))"

definition generateResponseIETF ::
    "server_env \<Rightarrow> http_request \<Rightarrow> DNSRequest \<Rightarrow> http_writer \<Rightarrow> http_writer go" where
  "generateResponseIETF env r req w =
     go_bind (deref (rq_response req)) (\<lambda>m.
     go_bind (Marshal (env_time env) (env_opt_text env) (env_clock env 0) m) (\<lambda>respJSON.
       case env_Pack env (m\<lparr>msg_Id := rq_transactionID req\<rparr>) of
         Inl err \<Rightarrow>
           Ret (FormatError (env_json_Error env) (''DNS packet construct failure ('' @ err @ '')'') 500 w)
       | Inr respBytes \<Rightarrow>
           let w1 = Header_Set ''Content-Type'' ''application/dns-message'' w;
               w2 = date_headers (fmt_HTTP (env_time env) (env_clock env 1)) w1;
               (_, req1, w3) = patchFirefoxContentType r req w2;
               w4 = cache_headers (env_time env) (rq_isTailored req1) respJSON w3;
               w5 = (if rs_Status respJSON = word_of_int RcodeServerFailure then WriteHeader 503 w4 else w4)
           in Ret (Write respBytes w5)))"

section \<open>ietf.go: requests\<close>

definition dnscrypt_probe :: bytes where
  "dnscrypt_probe =
     [0xca, 0xfe, 0x01, 0x00, 0x00, 0x01, 0x00, 0x00, 0x00, 0x00, 0x00, 0x01, 0x00, 0x00, 0x02, 0x00, 0x01,
      0x00, 0x00, 0x29, 0x10, 0x00, 0x00, 0x00, 0x80, 0x00, 0x00, 0x00]"

definition dnscrypt_reply :: bytes where
  "dnscrypt_reply =
     [0xca, 0xfe, 0x81, 0x05, 0x00, 0x01, 0x00, 0x01, 0x00, 0x00, 0x00, 0x00, 0x00, 0x00, 0x02, 0x00, 0x01,
      0x00, 0x00, 0x10, 0x00, 0x01, 0x00, 0x00, 0x00, 0x00, 0x00, 0xa8, 0xa7, 0x0d, 0x0a]
     @ bytes_of_string ''Workaround a bug causing DNSCrypt-Proxy to expect a response with TransactionID = 0xcafe''
     @ [0x0d, 0x0a]
     @ bytes_of_string ''Refer to https://github.com/jedisct1/dnscrypt-proxy/issues/526 for details.''"

definition patchDNSCryptProxyReqID ::
    "server_env \<Rightarrow> http_request \<Rightarrow> bytes \<Rightarrow> http_writer \<Rightarrow> bool \<times> http_writer" where
  "patchDNSCryptProxyReqID env r requestBinary w =
     (if strings_Contains (UserAgent r) ''dnscrypt-proxy'' \<and> requestBinary = dnscrypt_probe
      then (True,
            Write dnscrypt_reply
              (Header_Set ''Date'' (fmt_HTTP (env_time env) (env_clock env 1))
                (Header_Set ''Vary'' ''Accept, User-Agent''
                  (Header_Set ''Content-Type'' ''application/dns-message'' w))))
      else (False, w))"

text \<open>The message in the form value or in the body; \<^const>\<open>Inl\<close> is the text of the error.\<close>

definition request_binary :: "golib \<Rightarrow> http_request \<Rightarrow> string + bytes" where
  "request_binary lib r =
     (case DecodeString (r_Form r ''dns'') of
        None \<Rightarrow> Inl (bad_argument lib ''dns'' (r_Form r ''dns''))
      | Some bin \<Rightarrow>
          (case (if length bin = 0 \<and>
                    (r_Header r ''Content-Type'' = ''application/dns-message'' \<or>
                     r_Header r ''Content-Type'' = ''application/dns-udpwireformat'')
                 then (case r_Body r of
                         Inl err \<Rightarrow> Inl (''Failed to read request body ('' @ err @ '')'')
                       | Inr b \<Rightarrow> Inr b)
                 else Inr bin) of
             Inl err \<Rightarrow> Inl err
           | Inr b \<Rightarrow>
               if length b = 0 then Inl (''Invalid argument value: '' @ [dquote] @ ''dns'' @ [dquote])
               else Inr b))"

text \<open>
  The OPT record of the request is updated in place; a request without one gets one in front of its
  additional section. The result carries whether the answer is tailored to the client's address.
\<close>

definition add_client_subnet :: "server_env \<Rightarrow> http_request \<Rightarrow> Msg \<Rightarrow> (Msg \<times> bool) go" where
  "add_client_subnet env r msg =
     go_bind (IsEdns0 msg) (\<lambda>found.
       let (i, h, os, extra) =
             (case found of
                Some (i, h, os) \<Rightarrow> (i, h, os, msg_Extra msg)
              | None \<Rightarrow> (0, new_OPT False, [], RR_OPT (new_OPT False) [] # msg_Extra msg))
       in go_bind (find_SUBNET os) (\<lambda>sub.
            case sub of
              Some _ \<Rightarrow> Ret (msg\<lparr>msg_Extra := extra\<rparr>, False)
            | None \<Rightarrow>
                (case findClientIP env r of
                   None \<Rightarrow> Ret (msg\<lparr>msg_Extra := extra\<rparr>, True)
                 | Some ip \<Rightarrow>
                     Ret (msg\<lparr>msg_Extra := extra[i := RR_OPT h (os @ [new_subnet (family_of ip)])]\<rparr>, True))))"

definition parseRequestIETF ::
    "server_env \<Rightarrow> http_request \<Rightarrow> http_writer \<Rightarrow> (DNSRequest \<times> http_writer) go" where
  "parseRequestIETF env r w =
     (case request_binary (env_lib env) r of
        Inl err \<Rightarrow> Ret (error_request 400 err, w)
      | Inr requestBinary \<Rightarrow>
          let (patched, w1) = patchDNSCryptProxyReqID env r requestBinary w in
          if patched then Ret (error_request 444 [], w1)
          else case env_Unpack env requestBinary of
            Inl err \<Rightarrow> Ret (error_request 400 (''DNS packet parse failure ('' @ err @ '')''), w1)
          | Inr msg \<Rightarrow>
              go_bind (add_client_subnet env r (msg\<lparr>msg_Id := env_Id env\<rparr>)) (\<lambda>(msg1, isTailored).
                Ret (new_DNSRequest
                       \<lparr>rq_request := Some msg1, rq_transactionID := msg_Id msg,
                        rq_isTailored := isTailored, rq_filterCategories := parse_categories r,
                        rq_dnt := parse_dnt r\<rparr>, w1)))"



section \<open>server.go\<close>

definition patchRootRD :: "DNSRequest \<Rightarrow> DNSRequest go" where
  "patchRootRD req =
     go_bind (deref (rq_request req)) (\<lambda>m.
       Ret (req\<lparr>rq_request :=
         Some (if list_ex (\<lambda>q. q_Name q = ''.'') (msg_Question m)
               then m\<lparr>msg_RecursionDesired := True\<rparr> else m)\<rparr>))"

text \<open>One exchange: over UDP first, and again over TCP when the answer was truncated.\<close>

definition exchange :: "server_env \<Rightarrow> config \<Rightarrow> nat \<Rightarrow> Msg \<Rightarrow> string \<Rightarrow> Msg option \<times> dns_err option" where
  "exchange env conf i m up =
     (if \<not> conf_TCPOnly conf
      then (let r = env_udp env i m up in if snd r = Some ErrTruncated then env_tcp env i m up else r)
      else env_tcp env i m up)"

text \<open>The loop of \<^verbatim>\<open>doDNSQuery\<close>: \<open>i\<close> tries have been made, \<open>n\<close> are left.\<close>

fun query_loop ::
    "server_env \<Rightarrow> config \<Rightarrow> Msg \<Rightarrow> nat \<Rightarrow> nat \<Rightarrow> dns_err option \<Rightarrow> DNSRequest \<Rightarrow> (DNSRequest \<times> dns_err option) go" where
  "query_loop env conf m i 0 err req = Ret (req, err)"
| "query_loop env conf m i (Suc n) err req =
     (let numServers = length (conf_Upstream conf) in
      if numServers = 0 then Panic ''invalid argument to Intn''
      else if env_Intn env i numServers \<ge> numServers then Panic ''index out of range''
      else
        let up = conf_Upstream conf ! env_Intn env i numServers;
            (resp, err1) = exchange env conf i m up;
            req1 = req\<lparr>rq_currentUpstream := up, rq_response := resp\<rparr>
        in if err1 = None then Ret (req1, None) else query_loop env conf m (Suc i) n err1 req1)"

definition doDNSQuery :: "server_env \<Rightarrow> config \<Rightarrow> DNSRequest \<Rightarrow> (DNSRequest \<times> dns_err option) go" where
  "doDNSQuery env conf req =
     go_bind (deref (rq_request req)) (\<lambda>m. query_loop env conf m 0 (unat (conf_Tries conf)) None req)"

definition request_type :: "http_request \<Rightarrow> string" where
  "request_type r =
     (let contentType = (if r_Form r ''ct'' \<noteq> [] then r_Form r ''ct'' else r_Header r ''Content-Type'') in
      if contentType = [] then
        (if r_Form r ''name'' \<noteq> [] then ''application/dns-json''
         else if r_Form r ''dns'' \<noteq> [] then ''application/dns-message'' else contentType)
      else contentType)"

text \<open>The loop over the candidates of the \<^verbatim>\<open>Accept\<close> field.\<close>

fun accept_loop :: "string list \<Rightarrow> string" where
  "accept_loop [] = []"
| "accept_loop (c # cs) =
     (let responseCandidate = strings_SplitN CHR '';'' 2 c ! 0 in
      if responseCandidate = ''application/json'' then ''application/json''
      else if responseCandidate = ''application/dns-udpwireformat'' then ''application/dns-message''
      else if responseCandidate = ''application/dns-message'' then ''application/dns-message''
      else accept_loop cs)"

definition response_type :: "http_request \<Rightarrow> string" where
  "response_type r =
     (let responseType = accept_loop (strings_Split CHR '','' (r_Header r ''Accept'')) in
      if responseType = [] then
        (if request_type r = ''application/dns-json'' then ''application/json''
         else if request_type r = ''application/dns-message'' then ''application/dns-message''
         else if request_type r = ''application/dns-udpwireformat'' then ''application/dns-message''
         else responseType)
      else responseType)"

text \<open>
  The part of the handler that follows a parsed request: the checks, the query, the filter and the
  response. \<open>at\<close> gives the lists in force at each check of the filter; the second result is the name
  sent to the tracker.
\<close>

definition serve_request ::
    "server_env \<Rightarrow> Server \<Rightarrow> (nat \<Rightarrow> Server) \<Rightarrow> http_request \<Rightarrow> DNSRequest \<Rightarrow> http_writer \<Rightarrow>
     (http_writer \<times> string option) go" where
  "serve_request env s at r req w =
     (let responseType = response_type r in
      go_bind (patchRootRD req) (\<lambda>req1.
      go_bind (preLookup req1) (\<lambda>req2.
      if rq_errcode req2 \<noteq> 0
      then Ret (FormatError (env_json_Error env) (rq_errtext req2) (nat (rq_errcode req2)) w, None)
      else
        go_bind (if srv_tracker s \<noteq> None \<and> \<not> rq_dnt req2
                 then go_bind (deref (rq_request req2)) (\<lambda>m.
                        case msg_Question m of
                          [] \<Rightarrow> Panic ''index out of range''
                        | q # _ \<Rightarrow> Ret (Some (q_Name q)))
                 else Ret None) (\<lambda>saved.
        go_bind (doDNSQuery env (srv_conf s) req2) (\<lambda>(req3, err).
        case err of
          Some e \<Rightarrow>
            Ret (FormatError (env_json_Error env) (''DNS query failure ('' @ dns_err_text e @ '')'') 503 w, saved)
        | None \<Rightarrow>
            go_bind (postLookup (env_lib env) at req3) (\<lambda>req4.
            go_bind (if responseType = ''application/json'' then generateResponseGoogle env r req4 w
                     else if responseType = ''application/dns-message'' then generateResponseIETF env r req4 w
                     else Panic ''Unknown response Content-Type'') (\<lambda>w2.
            Ret (w2, saved))))))))"

definition handlerFunc ::
    "server_env \<Rightarrow> Server \<Rightarrow> (nat \<Rightarrow> Server) \<Rightarrow> http_request \<Rightarrow> http_writer \<Rightarrow> (http_writer \<times> string option) go" where
  "handlerFunc env s at r w0 =
     (let w = Header_Set ''X-Powered-By'' USER_AGENT (Header_Set ''Server'' USER_AGENT w0);
          contentType = request_type r in
      if contentType \<notin> {''application/dns-json'', ''application/dns-message'', ''application/dns-udpwireformat''}
      then Ret (FormatError (env_json_Error env)
                  (''Invalid argument value: '' @ [dquote] @ ''ct'' @ [dquote] @ '' = ''
                     @ fmt_q (env_lib env) contentType) 415 w, None)
      else
        go_bind (if contentType = ''application/dns-json'' then Ret (parseRequestGoogle env r, w)
                 else parseRequestIETF env r w) (\<lambda>(req, w1).
        if rq_errcode req = 444 then Ret (w1, None)
        else if rq_errcode req \<noteq> 0
        then Ret (FormatError (env_json_Error env) (rq_errtext req) (nat (rq_errcode req)) w1, None)
        else serve_request env s at r req w1))"

section \<open>Starting\<close>

text \<open>
  \<^verbatim>\<open>Start\<close> up to the point where it waits: the server with its lists and tracker, the endpoint for list
  updates, and for each listener its address and whether it serves QUIC and HTTPS.
\<close>

definition Start ::
    "golib \<Rightarrow> osfs \<Rightarrow> (string \<Rightarrow> string + string) \<Rightarrow> Server \<Rightarrow>
     (string + (Server \<times> (string \<times> string) option \<times> (string \<times> bool) list)) go" where
  "Start lib fs OpenAppend s0 =
     (case readLists lib fs s0 of
        (Some err, _) \<Rightarrow> Ret (Inl err)
      | (None, s1) \<Rightarrow>
          go_bind (startListsUpdateEndpoint s1) (\<lambda>started.
           case started of
             Inl err \<Rightarrow> Ret (Inl err)
           | Inr endpoint \<Rightarrow>
               let conf = srv_conf s1;
                   listeners = map (\<lambda>addr. (addr, conf_Cert conf \<noteq> [] \<or> conf_Key conf \<noteq> [])) (conf_Listen conf)
               in if conf_RequestsLog conf \<noteq> [] then
                    (case NewTracker OpenAppend (conf_RequestsLog conf) of
                       Inl err \<Rightarrow> Ret (Inl err)
                     | Inr tracker \<Rightarrow> Ret (Inr (s1\<lparr>srv_tracker := Some tracker\<rparr>, endpoint, listeners)))
                  else Ret (Inr (s1, endpoint, listeners))))"

text \<open>The loop that waits for the listeners: whether it has returned when they have given these results.\<close>

definition Start_wait :: "(string \<times> bool) list \<Rightarrow> string option list \<Rightarrow> string wait" where
  "Start_wait listeners results = wait_results (length listeners) results"

text \<open>\<^verbatim>\<open>main\<close> up to the wait: a failure to load the configuration or to start is fatal.\<close>

definition server_main ::
    "golib \<Rightarrow> (string \<Rightarrow> string + (config \<times> string list)) \<Rightarrow> string \<Rightarrow> bool \<Rightarrow> osfs \<Rightarrow> (string \<Rightarrow> string + string) \<Rightarrow>
     (string + (Server \<times> (string \<times> string) option \<times> (string \<times> bool) list)) go" where
  "server_main lib DecodeFile confPath verbose fs OpenAppend =
     (case loadConfig lib DecodeFile confPath of
        Inl err \<Rightarrow> Ret (Inl err)
      | Inr conf0 \<Rightarrow>
          let conf = (if verbose then conf0\<lparr>conf_Verbose := True\<rparr> else conf0) in
          go_bind (HandleFunc (conf_Path conf)) (\<lambda>_.
          go_bind (Start lib fs OpenAppend (NewServer conf)) (\<lambda>started.
            Ret (case started of
                   Inl err \<Rightarrow> Inl (''Can'' @ [CHR 0x27] @ ''t start server: '' @ err)
                 | Inr running \<Rightarrow> Inr running))))"

section \<open>Lemmas\<close>

subsection \<open>The client's address\<close>

lemma first_global_global: "first_global lib addrs = Some ip \<Longrightarrow> IsGlobalIP (Some ip)"
  by (induction addrs) (auto simp: Let_def split: if_splits)

lemma findClientIP_global: "findClientIP env r = Some ip \<Longrightarrow> IsGlobalIP (Some ip)"
  by (auto simp: findClientIP_def Let_def first_global_global split: if_splits sum.splits)

text \<open>Addresses from the library have 4 or 16 bytes.\<close>

lemma first_global_shape: "first_global lib addrs = Some ip \<Longrightarrow> ip_bytes ip"
  by (induction addrs) (auto simp: Let_def ip_bytes_def ParseIP_length split: if_splits)

lemma findClientIP_shape:
  "\<forall>a ip. env_ResolveTCPAddr env a = Inr (Some ip) \<longrightarrow> ip_bytes ip \<Longrightarrow>
     findClientIP env r = Some ip \<Longrightarrow> ip_bytes ip"
  by (auto simp: findClientIP_def Let_def first_global_shape ip_bytes_def ParseIP_length
      dest: first_global_shape split: if_splits sum.splits)

text \<open>What the upstream sees of an address: family, prefix length, scope and the bytes of the prefix.\<close>

definition subnet_bytes :: "bytes \<Rightarrow> bytes" where
  "subnet_bytes ip = (case To4 ip of Some p \<Rightarrow> [0, 1, 24, 0] @ take 3 p | None \<Rightarrow> [0, 2, 56, 0] @ take 7 ip)"

lemma new_subnet_packed:
  assumes "ip_bytes ip"
  shows "\<exists>s. new_subnet (family_of ip) = Opt_SUBNET s \<and> subnet_pack s = Inr (subnet_bytes ip)"
proof (cases "To4 ip")
  case None
  then have l: "length ip = 16" using assms To4_None_length [OF None] by (simp add: ip_bytes_def)
  have "take 7 (map2 (AND) ip (cidr_bytes 16 56)) = take 7 ip" using and_cidr_prefix [of ip 16 7] l by simp
  with None l show ?thesis
    by (simp add: new_subnet_def family_of_def subnet_pack_def subnet_bytes_def PutUint16_def Let_def)
next
  case (Some p)
  have l: "length p = 4" using Some by (rule To4_length)
  have "take 3 (map2 (AND) p (cidr_bytes 4 24)) = take 3 p" using and_cidr_prefix [of p 4 3] l by simp
  with Some l show ?thesis
    by (simp add: new_subnet_def family_of_def subnet_pack_def subnet_bytes_def PutUint16_def Let_def)
qed

lemma subnets_simps [simp]:
  "subnets [] = []" "subnets (os @ ps) = subnets os @ subnets ps" "subnets [Opt_SUBNET s] = [s]"
  "opt_options (RR_OPT h os) = os"
  by (simp_all add: subnets_def opt_options_def)

lemma find_SUBNET_subnets: "find_SUBNET os = Ret (Some s) \<Longrightarrow> subnets os \<noteq> []"
  by (induction os) (auto simp: subnets_def split: if_splits EDNS0.splits)

lemma concat_map_update:
  "\<forall>x\<in>set xs. f x = [] \<Longrightarrow> i < length xs \<Longrightarrow> concat (map f (xs[i := y])) = f y"
proof (induction xs arbitrary: i)
  case (Cons x xs)
  then show ?case by (cases i) (auto simp: concat_eq_Nil_conv)
qed simp

text \<open>Of a request without a subnet of its own, the forwarded message has the subnet of the client's address if
  one is found, and no other.\<close>

lemma add_client_subnet_subnets:
  assumes "msg_subnets m = []" and "add_client_subnet env r m = Ret (m', t)"
  shows "case findClientIP env r of
      None \<Rightarrow> msg_subnets m' = []
    | Some ip \<Rightarrow> \<forall>s. new_subnet (family_of ip) = Opt_SUBNET s \<longrightarrow> msg_subnets m' = [s]"
proof -
  have none: "\<forall>rr\<in>set (msg_Extra m). subnets (opt_options rr) = []" using assms(1) by simp
  obtain found where f: "IsEdns0 m = Ret found" using assms(2) by (auto simp: add_client_subnet_def go_bind_eq_Ret)
  show ?thesis
  proof (cases found)
    case None
    then show ?thesis using assms(2) f none by (auto simp: add_client_subnet_def split: option.splits)
  next
    case (Some ihos)
    then obtain i h os where i: "IsEdns0 m = Ret (Some (i, h, os))" using f by (cases ihos) auto
    note s = IsEdns0_Some [OF i]
    then have "subnets os = []" using none by (metis nth_mem subnets_simps(4))
    then have "find_SUBNET os = Ret None"
      using assms(2) find_SUBNET_subnets [of os] by (auto simp: add_client_subnet_def i go_bind_eq_Ret split: option.splits)
    then show ?thesis
      using assms(2) none s \<open>subnets os = []\<close> concat_map_update [of "msg_Extra m" "\<lambda>rr. subnets (opt_options rr)" i]
      by (auto simp: add_client_subnet_def i split: option.splits)
  qed
qed

subsection \<open>Queries\<close>

text \<open>The exchange of one try.\<close>

definition try_upstream :: "server_env \<Rightarrow> config \<Rightarrow> nat \<Rightarrow> string" where
  "try_upstream env conf i = conf_Upstream conf ! env_Intn env i (length (conf_Upstream conf))"

definition attempt :: "server_env \<Rightarrow> config \<Rightarrow> Msg \<Rightarrow> nat \<Rightarrow> Msg option \<times> dns_err option" where
  "attempt env conf m i = exchange env conf i m (try_upstream env conf i)"

definition rand_ok :: "server_env \<Rightarrow> bool" where
  "rand_ok env \<longleftrightarrow> (\<forall>i n. 0 < n \<longrightarrow> env_Intn env i n < n)"

lemma query_loop_step:
  assumes "rand_ok env" and "conf_Upstream conf \<noteq> []"
  shows "query_loop env conf m i (Suc n) err req =
    (let req1 = req\<lparr>rq_currentUpstream := try_upstream env conf i, rq_response := fst (attempt env conf m i)\<rparr> in
     if snd (attempt env conf m i) = None then Ret (req1, None)
     else query_loop env conf m (Suc i) n (snd (attempt env conf m i)) req1)"
proof -
  have lt: "\<not> length (conf_Upstream conf) \<le> env_Intn env i (length (conf_Upstream conf))"
    using assms by (simp add: rand_ok_def not_le)
  show ?thesis
    by (simp add: assms(2) lt case_prod_beta try_upstream_def [symmetric] attempt_def Let_def)
qed

declare query_loop.simps(2) [simp del]

lemma query_loop_ok:
  assumes "rand_ok env" and "conf_Upstream conf \<noteq> []"
  shows "\<exists>req' err'. query_loop env conf m i n err req = Ret (req', err') \<and>
    req' = req\<lparr>rq_currentUpstream := rq_currentUpstream req', rq_response := rq_response req'\<rparr> \<and>
    (if \<exists>k<n. snd (attempt env conf m (i + k)) = None
     then err' = None \<and> (\<exists>k<n. attempt env conf m (i + k) = (rq_response req', None) \<and>
            (\<forall>j<k. snd (attempt env conf m (i + j)) \<noteq> None) \<and>
            rq_currentUpstream req' = try_upstream env conf (i + k))
     else err' = (if n = 0 then err else snd (attempt env conf m (i + n - 1))))"
proof (induction n arbitrary: i err req)
  case 0
  then show ?case by simp
next
  case (Suc n)
  let ?a = "attempt env conf m i"
  let ?req1 = "req\<lparr>rq_currentUpstream := try_upstream env conf i, rq_response := fst ?a\<rparr>"
  show ?case
  proof (cases "snd ?a")
    case None
    then have "query_loop env conf m i (Suc n) err req = Ret (?req1, None)"
      by (simp add: query_loop_step [OF assms])
    moreover have "?a = (fst ?a, None)" using None by (metis prod.collapse)
    moreover have "\<exists>k<Suc n. snd (attempt env conf m (i + k)) = None" using None by (intro exI [of _ 0]) simp
    ultimately show ?thesis using None by (auto intro!: exI [of _ "0 :: nat"])
  next
    case (Some e)
    then have q: "query_loop env conf m i (Suc n) err req = query_loop env conf m (Suc i) n (Some e) ?req1"
      by (simp add: query_loop_step [OF assms])
    have shift: "(\<exists>k<Suc n. snd (attempt env conf m (i + k)) = None) \<longleftrightarrow>
        (\<exists>k<n. snd (attempt env conf m (Suc i + k)) = None)"
      using Some by (auto simp: Ex_less_Suc2)
    obtain req' err' where r: "query_loop env conf m (Suc i) n (Some e) ?req1 = Ret (req', err')"
      "req' = ?req1\<lparr>rq_currentUpstream := rq_currentUpstream req', rq_response := rq_response req'\<rparr>"
      "if \<exists>k<n. snd (attempt env conf m (Suc i + k)) = None
       then err' = None \<and> (\<exists>k<n. attempt env conf m (Suc i + k) = (rq_response req', None) \<and>
              (\<forall>j<k. snd (attempt env conf m (Suc i + j)) \<noteq> None) \<and>
              rq_currentUpstream req' = try_upstream env conf (Suc i + k))
       else err' = (if n = 0 then Some e else snd (attempt env conf m (Suc i + n - 1)))"
      using Suc.IH [of "Suc i" "Some e" ?req1] by blast
    show ?thesis
    proof (cases "\<exists>k<n. snd (attempt env conf m (Suc i + k)) = None")
      case True
      with r(3) obtain k where k: "err' = None" "k < n" "attempt env conf m (Suc i + k) = (rq_response req', None)"
        "\<forall>j<k. snd (attempt env conf m (Suc i + j)) \<noteq> None"
        "rq_currentUpstream req' = try_upstream env conf (Suc i + k)" by auto
      have "\<forall>j<Suc k. snd (attempt env conf m (i + j)) \<noteq> None" using k(4) Some by (auto simp: All_less_Suc2)
      with k have "\<exists>k<Suc n. attempt env conf m (i + k) = (rq_response req', None) \<and>
          (\<forall>j<k. snd (attempt env conf m (i + j)) \<noteq> None) \<and> rq_currentUpstream req' = try_upstream env conf (i + k)"
        by (intro exI [of _ "Suc k"]) simp
      with True shift r(1,2) k(1) q show ?thesis by auto
    next
      case False
      with shift r q Some show ?thesis by auto
    qed
  qed
qed

subsection \<open>Parsing\<close>

lemma error_request_sel [simp]:
  "rq_errcode (error_request c t) = c" "rq_errtext (error_request c t) = t" "rq_request (error_request c t) = None"
  by (simp_all add: error_request_def new_DNSRequest_def)

text \<open>A request that passed its parser.\<close>

definition parsed :: "http_request \<Rightarrow> DNSRequest \<Rightarrow> bool" where
  "parsed r req \<longleftrightarrow>
     rq_errcode req = 0 \<and> rq_request req \<noteq> None \<and> rq_dnt req = parse_dnt r \<and>
     rq_filterCategories req = parse_categories r"

lemma parseRequestGoogle_cases:
  "rq_errcode (parseRequestGoogle env r) = 400 \<or>
   parsed r (parseRequestGoogle env r) \<and>
     (\<exists>m q. rq_request (parseRequestGoogle env r) = Some m \<and> msg_Question m = [q] \<and> msg_Opcode m = 0)"
  by (simp add: parseRequestGoogle_def Let_def parsed_def new_DNSRequest_def SetQuestion_def new_Msg_def
      split: sum.splits option.splits)

lemma add_client_subnet_typed:
  assumes "msg_typed m"
  shows "no_panic (add_client_subnet env r m)"
proof -
  obtain found where f: "IsEdns0 m = Ret found" using IsEdns0_typed [OF assms] by (auto simp: no_panic_iff)
  have "no_panic (find_SUBNET os)" if "found = Some (i, h, os)" for i h os
  proof -
    have "RR_OPT h os \<in> set (msg_Extra m)" using IsEdns0_Some f that by (metis nth_mem)
    then show ?thesis using assms find_SUBNET_typed by (auto simp: msg_typed_def list_all_iff opt_typed_def)
  qed
  then have sub: "\<exists>sub. find_SUBNET os = Ret sub" if "found = Some (i, h, os)" for i h os
    using that by (simp add: no_panic_iff)
  show ?thesis
  proof (cases found)
    case None
    then show ?thesis by (cases "findClientIP env r") (simp_all add: add_client_subnet_def f)
  next
    case (Some ihos)
    then obtain i h os where ihos: "found = Some (i, h, os)" by (cases ihos) auto
    with sub obtain sub where "find_SUBNET os = Ret sub" by blast
    then show ?thesis
      by (cases sub; cases "findClientIP env r") (simp_all add: add_client_subnet_def f ihos)
  qed
qed

definition unpack_typed :: "server_env \<Rightarrow> bool" where
  "unpack_typed env \<longleftrightarrow> (\<forall>b m. env_Unpack env b = Inr m \<longrightarrow> msg_typed m)"

lemma msg_typed_Id [simp]: "msg_typed (m\<lparr>msg_Id := i\<rparr>) = msg_typed m"
  by (simp add: msg_typed_def)

text \<open>The three ways in which the parser of the wire protocol ends.\<close>

lemma parseRequestIETF_cases:
  assumes "unpack_typed env" and "w_Sent w = None"
  shows "\<exists>req w'. parseRequestIETF env r w = Ret (req, w') \<and>
    (rq_errcode req = 400 \<and> w' = w \<or> rq_errcode req = 444 \<and> sent_status w' = Some 200 \<or>
     parsed r req \<and> w' = w)"
proof (cases "request_binary (env_lib env) r")
  case (Inl e)
  then show ?thesis by (simp add: parseRequestIETF_def)
next
  case (Inr bin)
  obtain patched w' where p: "patchDNSCryptProxyReqID env r bin w = (patched, w')" by fastforce
  have sent: "if patched then sent_status w' = Some 200 else w' = w"
    using p assms(2) by (auto simp: patchDNSCryptProxyReqID_def sent_status_def split: if_splits)
  show ?thesis
  proof (cases "patched \<or> (\<exists>e. env_Unpack env bin = Inl e)")
    case True
    then show ?thesis using Inr p sent by (auto simp: parseRequestIETF_def)
  next
    case False
    then obtain m where m: "env_Unpack env bin = Inr m" by (meson sumE)
    then have "msg_typed (m\<lparr>msg_Id := env_Id env\<rparr>)" using assms(1) by (auto simp: unpack_typed_def)
    from add_client_subnet_typed [OF this, of env r] obtain m1 b where
      "add_client_subnet env r (m\<lparr>msg_Id := env_Id env\<rparr>) = Ret (m1, b)" by (auto simp: no_panic_iff)
    with False show ?thesis
      using Inr p m sent by (auto simp: parseRequestIETF_def parsed_def new_DNSRequest_def)
  qed
qed

subsection \<open>Answering\<close>

definition upstream_typed :: "server_env \<Rightarrow> bool" where
  "upstream_typed env \<longleftrightarrow>
     (\<forall>i m up resp. env_udp env i m up = (resp, None) \<or> env_tcp env i m up = (resp, None) \<longrightarrow>
        (\<exists>x. resp = Some x \<and> msg_typed x))"

text \<open>What the server relies on of the code it calls.\<close>

definition env_ok :: "server_env \<Rightarrow> bool" where
  "env_ok env \<longleftrightarrow> rand_ok env \<and> unpack_typed env \<and> upstream_typed env"

lemma exchange_typed:
  "upstream_typed env \<Longrightarrow> exchange env conf i m up = (resp, None) \<Longrightarrow> \<exists>x. resp = Some x \<and> msg_typed x"
  unfolding upstream_typed_def exchange_def Let_def by (metis (full_types))

text \<open>The first try that succeeds decides; without one the error of the last try is reported.\<close>

lemma doDNSQuery_cases:
  assumes "rand_ok env" and "config_ok conf" and "rq_request req = Some m"
  obtains (success) k req' where "doDNSQuery env conf req = Ret (req', None)"
      "req' = req\<lparr>rq_currentUpstream := try_upstream env conf k, rq_response := rq_response req'\<rparr>"
      "k < unat (conf_Tries conf)" "attempt env conf m k = (rq_response req', None)"
      "\<forall>j<k. snd (attempt env conf m j) \<noteq> None"
    | (failure) req' e where "doDNSQuery env conf req = Ret (req', Some e)"
      "\<forall>j<unat (conf_Tries conf). snd (attempt env conf m j) \<noteq> None"
      "snd (attempt env conf m (unat (conf_Tries conf) - 1)) = Some e"
proof -
  let ?n = "unat (conf_Tries conf)"
  have up: "conf_Upstream conf \<noteq> []" and t: "?n \<noteq> 0"
    using assms(2) by (auto simp: config_ok_def unat_eq_zero)
  obtain req' err where q: "query_loop env conf m 0 ?n None req = Ret (req', err)"
    and r: "req' = req\<lparr>rq_currentUpstream := rq_currentUpstream req', rq_response := rq_response req'\<rparr>"
    and c: "if \<exists>k<?n. snd (attempt env conf m (0 + k)) = None
     then err = None \<and> (\<exists>k<?n. attempt env conf m (0 + k) = (rq_response req', None) \<and>
            (\<forall>j<k. snd (attempt env conf m (0 + j)) \<noteq> None) \<and>
            rq_currentUpstream req' = try_upstream env conf (0 + k))
     else err = (if ?n = 0 then None else snd (attempt env conf m (0 + ?n - 1)))"
    using query_loop_ok [OF assms(1) up, of m 0 ?n None req] by blast
  have d: "doDNSQuery env conf req = Ret (req', err)" using q assms(3) by (simp add: doDNSQuery_def)
  show thesis
  proof (cases "\<exists>k<?n. snd (attempt env conf m k) = None")
    case True
    with c obtain k where "err = None" "k < ?n" "attempt env conf m k = (rq_response req', None)"
      "\<forall>j<k. snd (attempt env conf m j) \<noteq> None" "rq_currentUpstream req' = try_upstream env conf k" by auto
    with success [of req' k] d r show thesis by simp
  next
    case False
    with c t have e: "err = snd (attempt env conf m (?n - 1))" by simp
    moreover have "snd (attempt env conf m (?n - 1)) \<noteq> None" using False t by simp
    ultimately obtain x where "err = Some x" "snd (attempt env conf m (?n - 1)) = Some x" by auto
    with failure [of req' x] d False show thesis by auto
  qed
qed

lemma doDNSQuery_ok:
  assumes "env_ok env" and "config_ok conf" and "rq_request req = Some m"
  shows "\<exists>req' err. doDNSQuery env conf req = Ret (req', err) \<and>
    (err = None \<longrightarrow> (\<exists>x. rq_response req' = Some x \<and> msg_typed x))"
proof -
  have "rand_ok env" and u: "upstream_typed env" using assms(1) by (auto simp: env_ok_def)
  from this(1) assms(2,3) show ?thesis
  proof (cases rule: doDNSQuery_cases)
    case (success k req')
    then show ?thesis using exchange_typed [OF u] by (auto simp: attempt_def)
  qed simp
qed

lemma msg_typed_filtered:
  "msg_typed m \<Longrightarrow> set x \<subseteq> set (msg_Extra m) \<Longrightarrow> msg_typed (m'\<lparr>msg_Extra := x\<rparr>)"
  by (auto simp: msg_typed_def list_all_iff)

lemma postLookup_typed:
  assumes "rq_response req = Some m" and "msg_typed m"
  shows "\<exists>req' m'. postLookup lib at req = Ret req' \<and> rq_response req' = Some m' \<and> msg_typed m'"
proof -
  have "set (keep_unrestricted rs at i (msg_Extra m)) \<subseteq> set (msg_Extra m)" for rs i
    by (rule keep_unrestricted_mem)
  then show ?thesis using assms by (auto simp: postLookup_def Let_def msg_typed_def list_all_iff)
qed

subsection \<open>Writing\<close>

lemma sent_FormatError: "w_Sent w = None \<Longrightarrow> sent_status (FormatError json c code w) = Some code"
  by (simp add: FormatError_def sent_status_def)

lemma cache_headers_Sent [simp]: "w_Sent (cache_headers tm t resp w) = w_Sent w"
  by (simp add: cache_headers_def)

lemma date_headers_Sent [simp]: "w_Sent (date_headers now w) = w_Sent w"
  by (simp add: date_headers_def)

lemma patchFirefox_Sent [simp]: "w_Sent (snd (snd (patchFirefoxContentType r req w))) = w_Sent w"
  by (simp add: patchFirefoxContentType_def)

lemma generateResponse_typed:
  assumes "rq_response req = Some m" and "msg_typed m" and "w_Sent w = None"
  shows "\<exists>w'. generateResponseGoogle env r req w = Ret w' \<and> (\<exists>c\<in>{200, 500, 503}. sent_status w' = Some c)"
    and "\<exists>w'. generateResponseIETF env r req w = Ret w' \<and> (\<exists>c\<in>{200, 500, 503}. sent_status w' = Some c)"
proof -
  obtain resp where m: "Marshal (env_time env) (env_opt_text env) (env_clock env 0) m = Ret resp"
    using Marshal_typed [OF assms(2)] by blast
  show "\<exists>w'. generateResponseGoogle env r req w = Ret w' \<and> (\<exists>c\<in>{200, 500, 503}. sent_status w' = Some c)"
    using assms m by (auto simp: generateResponseGoogle_def Let_def sent_FormatError sent_status_def FormatError_def
        split: sum.splits)
  obtain b req1 w3 where p: "patchFirefoxContentType r req
      (date_headers (fmt_HTTP (env_time env) (env_clock env 1))
        (Header_Set ''Content-Type'' ''application/dns-message'' w)) = (b, req1, w3)" by (metis prod_cases3)
  then have "w_Sent w3 = None"
    using patchFirefox_Sent [of r req "date_headers (fmt_HTTP (env_time env) (env_clock env 1))
        (Header_Set ''Content-Type'' ''application/dns-message'' w)"] assms(3) by simp
  then show "\<exists>w'. generateResponseIETF env r req w = Ret w' \<and> (\<exists>c\<in>{200, 500, 503}. sent_status w' = Some c)"
    using assms m p by (auto simp: generateResponseIETF_def Let_def sent_status_def FormatError_def split: sum.splits)
qed

subsection \<open>The handler\<close>

lemma accept_loop_cases: "accept_loop cs \<in> {[], ''application/json'', ''application/dns-message''}"
  by (induction cs) (auto simp: Let_def)

lemma response_type_known:
  "request_type r \<in> {''application/dns-json'', ''application/dns-message'', ''application/dns-udpwireformat''} \<Longrightarrow>
     response_type r = ''application/json'' \<or> response_type r = ''application/dns-message''"
  using accept_loop_cases [of "strings_Split CHR '','' (r_Header r ''Accept'')"]
  by (auto simp: response_type_def Let_def)

lemma serve_request_ok:
  assumes "env_ok env" and "config_ok (srv_conf s)" and "parsed r req" and "w_Sent w = None"
    and "response_type r = ''application/json'' \<or> response_type r = ''application/dns-message''"
  shows "\<exists>w' saved. serve_request env s at r req w = Ret (w', saved) \<and>
    (\<exists>c\<in>{200, 400, 500, 503}. sent_status w' = Some c) \<and>
    (saved \<noteq> None \<longrightarrow> srv_tracker s \<noteq> None \<and> \<not> parse_dnt r)"
proof -
  obtain m where m: "rq_request req = Some m" and dnt: "rq_dnt req = parse_dnt r" and e0: "rq_errcode req = 0"
    using assms(3) by (auto simp: parsed_def)
  let ?m1 = "if list_ex (\<lambda>q. q_Name q = ''.'') (msg_Question m) then m\<lparr>msg_RecursionDesired := True\<rparr> else m"
  let ?req1 = "req\<lparr>rq_request := Some ?m1\<rparr>"
  have root: "patchRootRD req = Ret ?req1" by (simp add: patchRootRD_def m)
  have q: "msg_Question ?m1 = msg_Question m" "msg_Opcode ?m1 = msg_Opcode m" by simp_all
  show ?thesis
  proof (cases "length (msg_Question m) = 1 \<and> msg_Opcode m = OpcodeQuery")
    case False
    then have "\<exists>t. preLookup ?req1 = Ret (?req1\<lparr>rq_errcode := 400, rq_errtext := t\<rparr>)"
      using q by (auto simp: preLookup_def Let_def)
    then show ?thesis using root assms(4) by (auto simp: serve_request_def Let_def sent_FormatError)
  next
    case True
    then have pre: "preLookup ?req1 = Ret ?req1" using q by (simp add: preLookup_def)
    obtain q1 where q1: "msg_Question ?m1 = [q1]" using True q by (auto simp: length_Suc_conv)
    obtain req3 err where d: "doDNSQuery env (srv_conf s) ?req1 = Ret (req3, err)"
      "err = None \<longrightarrow> (\<exists>x. rq_response req3 = Some x \<and> msg_typed x)"
      using doDNSQuery_ok [OF assms(1,2), of ?req1 ?m1] by auto
    let ?saved = "if srv_tracker s \<noteq> None \<and> \<not> parse_dnt r then Some (q_Name q1) else None"
    show ?thesis
    proof (cases err)
      case (Some e)
      then have "serve_request env s at r req w =
          Ret (FormatError (env_json_Error env) (''DNS query failure ('' @ dns_err_text e @ '')'') 503 w, ?saved)"
        using root pre d q1 e0 dnt by (simp add: serve_request_def)
      then show ?thesis using assms(4) by (auto simp: sent_FormatError split: if_splits)
    next
      case None
      then obtain req4 m4 where p: "postLookup (env_lib env) at req3 = Ret req4" "rq_response req4 = Some m4" "msg_typed m4"
        using d(2) postLookup_typed by blast
      have "serve_request env s at r req w =
          go_bind (if response_type r = ''application/json'' then generateResponseGoogle env r req4 w
            else generateResponseIETF env r req4 w) (\<lambda>w2. Ret (w2, ?saved))"
        using root pre d q1 e0 dnt None p assms(5) by (auto simp: serve_request_def)
      then show ?thesis using generateResponse_typed [OF p(2,3) assms(4), of env r] by (auto split: if_splits)
    qed
  qed
qed

subsection \<open>Accepted requests in wire format\<close>

lemma parseRequestIETF_Ret:
  assumes "parseRequestIETF env r w = Ret (req, w')" and "rq_errcode req = 0"
  shows "\<exists>bin msg msg1 t. request_binary (env_lib env) r = Inr bin \<and> env_Unpack env bin = Inr msg \<and>
    add_client_subnet env r (msg\<lparr>msg_Id := env_Id env\<rparr>) = Ret (msg1, t) \<and> w' = w \<and>
    req = new_DNSRequest\<lparr>rq_request := Some msg1, rq_transactionID := msg_Id msg, rq_isTailored := t,
      rq_filterCategories := parse_categories r, rq_dnt := parse_dnt r\<rparr>"
proof (cases "request_binary (env_lib env) r")
  case (Inl e)
  then show ?thesis using assms by (auto simp: parseRequestIETF_def)
next
  case (Inr bin)
  obtain patched w1 where p: "patchDNSCryptProxyReqID env r bin w = (patched, w1)" by fastforce
  have np: "\<not> patched" using assms Inr p by (auto simp: parseRequestIETF_def)
  then have w1: "w1 = w" using p by (auto simp: patchDNSCryptProxyReqID_def split: if_splits)
  show ?thesis
  proof (cases "env_Unpack env bin")
    case Inl
    then show ?thesis using assms Inr p np by (auto simp: parseRequestIETF_def)
  next
    case (Inr msg)
    then show ?thesis using assms \<open>request_binary (env_lib env) r = Inr bin\<close> p np w1
      by (auto simp: parseRequestIETF_def go_bind_eq_Ret)
  qed
qed

lemma handler_returns:
  assumes "env_ok env" and "config_ok (srv_conf s)"
  shows "\<exists>w saved. handlerFunc env s at r new_writer = Ret (w, saved) \<and>
    (\<exists>c\<in>{200, 400, 415, 500, 503}. sent_status w = Some c)"
proof -
  let ?w = "Header_Set ''X-Powered-By'' USER_AGENT (Header_Set ''Server'' USER_AGENT new_writer)"
  have w: "w_Sent ?w = None" by simp
  have serve: "\<exists>w' saved. serve_request env s at r req ?w = Ret (w', saved) \<and>
      (\<exists>c\<in>{200, 400, 415, 500, 503}. sent_status w' = Some c)"
    if "parsed r req" and "request_type r \<in> {''application/dns-json'', ''application/dns-message'', ''application/dns-udpwireformat''}" for req
    using serve_request_ok [OF assms that(1) w response_type_known [OF that(2)], of at] by blast
  consider "request_type r = ''application/dns-json''"
    | "request_type r \<in> {''application/dns-message'', ''application/dns-udpwireformat''}"
    | "request_type r \<notin> {''application/dns-json'', ''application/dns-message'', ''application/dns-udpwireformat''}"
    by auto
  then show ?thesis
  proof cases
    case 1
    from parseRequestGoogle_cases [of env r] show ?thesis
    proof
      assume "rq_errcode (parseRequestGoogle env r) = 400"
      then show ?thesis using 1 w by (simp add: handlerFunc_def Let_def sent_FormatError)
    next
      assume a: "parsed r (parseRequestGoogle env r) \<and> (\<exists>m q. rq_request (parseRequestGoogle env r) = Some m \<and>
        msg_Question m = [q] \<and> msg_Opcode m = 0)"
      then have "rq_errcode (parseRequestGoogle env r) = 0" by (simp add: parsed_def)
      then show ?thesis using serve [of "parseRequestGoogle env r"] a 1 by (simp add: handlerFunc_def Let_def)
    qed
  next
    case 2
    have "unpack_typed env" using assms(1) by (simp add: env_ok_def)
    from parseRequestIETF_cases [OF this w, of r] obtain req w' where
      p: "parseRequestIETF env r ?w = Ret (req, w')" and c: "rq_errcode req = 400 \<and> w' = ?w \<or>
        rq_errcode req = 444 \<and> sent_status w' = Some 200 \<or> parsed r req \<and> w' = ?w" by blast
    then have "handlerFunc env s at r new_writer =
        (if rq_errcode req = 444 then Ret (w', None)
         else if rq_errcode req \<noteq> 0
         then Ret (FormatError (env_json_Error env) (rq_errtext req) (nat (rq_errcode req)) w', None)
         else serve_request env s at r req w')"
      using 2 by (auto simp: handlerFunc_def Let_def)
    then show ?thesis using c w serve [of req] 2 by (auto simp: sent_FormatError parsed_def)
  next
    case 3
    then show ?thesis using w by (simp add: handlerFunc_def Let_def sent_FormatError)
  qed
qed

lemma handler_saved:
  assumes "handlerFunc env s at r w0 = Ret (w, Some name)"
  shows "\<not> parse_dnt r \<and> srv_tracker s \<noteq> None"
proof -
  obtain req w1 where req: "serve_request env s at r req w1 = Ret (w, Some name)" "rq_errcode req = 0"
    and src: "req = parseRequestGoogle env r \<or> (\<exists>w2. parseRequestIETF env r w2 = Ret (req, w1))"
    using assms by (auto simp: handlerFunc_def Let_def go_bind_eq_Ret split: if_splits)
  have "rq_dnt req = parse_dnt r"
    using src
  proof
    assume "req = parseRequestGoogle env r"
    then show ?thesis using parseRequestGoogle_cases [of env r] req(2) by (auto simp: parsed_def)
  next
    assume "\<exists>w2. parseRequestIETF env r w2 = Ret (req, w1)"
    then show ?thesis using parseRequestIETF_Ret req(2) by fastforce
  qed
  moreover have "srv_tracker s \<noteq> None \<and> \<not> rq_dnt req"
    using req(1) by (auto simp: serve_request_def go_bind_eq_Ret patchRootRD_def preLookup_def Let_def
        split: if_splits option.splits prod.splits)
  ultimately show ?thesis by simp
qed

section \<open>Properties\<close>

text \<open>C6: With a loaded configuration and well-behaved libraries the handler never panics, whatever the
  request and however the lists change meanwhile: it always writes a response, whose status is 200, 400,
  415, 500 or 503. In particular the response type is always known where the code would panic.\<close>

theorem handler_total:
  assumes "env_ok env" and "config_ok (srv_conf s)"
  shows "\<exists>w saved. handlerFunc env s at r new_writer = Ret (w, saved) \<and>
    (\<exists>c\<in>{200, 400, 415, 500, 503}. sent_status w = Some c)"
  using assms by (rule handler_returns)

definition example_env :: server_env where
  "example_env =
     \<lparr>env_lib = plain_golib, env_time = decimal_timelib, env_opt_text = (\<lambda>_. []), env_clock = (\<lambda>_. 0),
      env_Intn = (\<lambda>_ _. 0), env_Id = 7, env_ToASCII = Inr, env_ResolveTCPAddr = (\<lambda>_. Inr (Some (net_IPv4 198 51 100 7))),
      env_udp = (\<lambda>_ m _. (Some (m\<lparr>msg_Answer := [example_RR], msg_Extra := []\<rparr>), None)),
      env_tcp = (\<lambda>_ _ _. (None, Some (ErrOther ''refused''))),
      env_Pack = (\<lambda>m. Inr [ucast (msg_Id m)]), env_Unpack = (\<lambda>b. Inl ''short''),
      env_json_Response = (\<lambda>_. Inr []), env_json_Error = (\<lambda>_. [])\<rparr>"

lemma example_env_ok: "env_ok example_env"
  by (simp add: example_env_def env_ok_def rand_ok_def unpack_typed_def upstream_typed_def msg_typed_def)

lemma example_config_ok: "config_ok example_config"
  by (simp add: config_ok_def example_config_def)

definition example_GET :: http_request where
  "example_GET =
     \<lparr>r_Method = ''GET'', r_Header = (\<lambda>_. []), r_Form = (\<lambda>k. if k = ''name'' then ''a.example'' else []),
      r_Body = Inr [], r_RemoteAddr = ''198.51.100.7:4000''\<rparr>"

theorem handler_total_witness:
  "\<exists>w saved. handlerFunc example_env (NewServer example_config) (\<lambda>_. NewServer example_config) example_GET new_writer =
     Ret (w, saved) \<and> (\<exists>c\<in>{200, 400, 415, 500, 503}. sent_status w = Some c)"
  by (rule handler_total) (simp_all add: example_env_ok NewServer_def example_config_ok)

text \<open>C21: Whichever parser accepts a request that brings no client subnet of its own (no such option in its message, no form
  value for it), the message for the upstream has a client subnet exactly when an address of the client is found, and then one: a
  global address of which the option, as it is packed, shows the first 24 bits (IPv4) or 56 bits (IPv6) and nothing
  more.\<close>

theorem upstream_learns_prefix_only:
  assumes "\<forall>a ip. env_ResolveTCPAddr env a = Inr (Some ip) \<longrightarrow> ip_bytes ip"
    and "req = parseRequestGoogle env r \<and> r_Form r ''edns_client_subnet'' = [] \<or>
      parseRequestIETF env r w = Ret (req, w') \<and>
        (\<forall>bin m. request_binary (env_lib env) r = Inr bin \<and> env_Unpack env bin = Inr m \<longrightarrow> msg_subnets m = [])"
    and "rq_request req = Some fwd"
  shows "case findClientIP env r of
      None \<Rightarrow> msg_subnets fwd = []
    | Some ip \<Rightarrow> IsGlobalIP (Some ip) \<and> (\<exists>s. msg_subnets fwd = [s] \<and>
        subnet_pack s = Inr (case To4 ip of Some p \<Rightarrow> [0, 1, 24, 0] @ take 3 p | None \<Rightarrow> [0, 2, 56, 0] @ take 7 ip))"
proof -
  have sub: "case findClientIP env r of
      None \<Rightarrow> msg_subnets fwd = []
    | Some ip \<Rightarrow> \<forall>s. new_subnet (family_of ip) = Opt_SUBNET s \<longrightarrow> msg_subnets fwd = [s]"
    using assms(2)
  proof
    assume "req = parseRequestGoogle env r \<and> r_Form r ''edns_client_subnet'' = []"
    then show ?thesis using assms(3)
      by (auto simp: parseRequestGoogle_def Let_def error_request_def new_DNSRequest_def SetQuestion_def new_Msg_def
          split: sum.splits option.splits if_splits)
  next
    assume p: "parseRequestIETF env r w = Ret (req, w') \<and>
      (\<forall>bin m. request_binary (env_lib env) r = Inr bin \<and> env_Unpack env bin = Inr m \<longrightarrow> msg_subnets m = [])"
    then obtain msg t where "msg_subnets msg = []" "add_client_subnet env r (msg\<lparr>msg_Id := env_Id env\<rparr>) = Ret (fwd, t)"
      using assms(3) by (auto simp: parseRequestIETF_def go_bind_eq_Ret error_request_def new_DNSRequest_def
          split: sum.splits if_splits prod.splits)
    then show ?thesis using add_client_subnet_subnets [of "msg\<lparr>msg_Id := env_Id env\<rparr>" env r fwd t] by simp
  qed
  show ?thesis
  proof (cases "findClientIP env r")
    case None
    with sub show ?thesis by simp
  next
    case (Some ip)
    obtain s where "new_subnet (family_of ip) = Opt_SUBNET s" "subnet_pack s = Inr (subnet_bytes ip)"
      using new_subnet_packed [OF findClientIP_shape [OF assms(1) Some]] by blast
    with sub Some findClientIP_global [OF Some] show ?thesis by (simp add: subnet_bytes_def)
  qed
qed

lemma example_client_ip: "findClientIP example_env example_GET = Some (net_IPv4 198 51 100 7)"
proof -
  have "IsGlobalIP (Some (net_IPv4 198 51 100 7))" by code_simp
  then show ?thesis by (simp add: findClientIP_def example_env_def example_GET_def)
qed

theorem upstream_learns_prefix_only_witness:
  "\<exists>fwd s. rq_request (parseRequestGoogle example_env example_GET) = Some fwd \<and> msg_subnets fwd = [s] \<and>
     subnet_pack s = Inr [0, 1, 24, 0, 198, 51, 100]"
proof -
  have "parse_rrtype plain_golib [] = Some 1" by code_simp
  then obtain fwd where fwd: "rq_request (parseRequestGoogle example_env example_GET) = Some fwd"
    by (simp add: parseRequestGoogle_def example_env_def example_GET_def parse_cd_def new_DNSRequest_def Let_def)
  have "\<forall>a ip. env_ResolveTCPAddr example_env a = Inr (Some ip) \<longrightarrow> ip_bytes ip"
    by (auto simp: example_env_def ip_bytes_def net_IPv4_def)
  moreover have "r_Form example_GET ''edns_client_subnet'' = []" by (simp add: example_GET_def)
  ultimately show ?thesis
    using upstream_learns_prefix_only [of example_env "parseRequestGoogle example_env example_GET" example_GET, OF _ _ fwd] fwd
    by (auto simp: example_client_ip)
qed

text \<open>C16: A query goes to configured upstreams only, at most as often as the configuration allows; the first
  exchange that succeeds gives the response, and when all fail the error of the last one is reported.\<close>

theorem doDNSQuery_tries:
  assumes "rand_ok env" and "config_ok conf" and "rq_request req = Some m"
  shows "\<exists>req' err. doDNSQuery env conf req = Ret (req', err) \<and>
    (case err of
       None \<Rightarrow> \<exists>k<unat (conf_Tries conf). \<exists>up\<in>set (conf_Upstream conf).
         exchange env conf k m up = (rq_response req', None) \<and> rq_currentUpstream req' = up \<and>
         (\<forall>j<k. snd (attempt env conf m j) \<noteq> None)
     | Some e \<Rightarrow> (\<forall>j<unat (conf_Tries conf). snd (attempt env conf m j) \<noteq> None) \<and>
         snd (attempt env conf m (unat (conf_Tries conf) - 1)) = Some e)"
  using assms
proof (cases rule: doDNSQuery_cases)
  case (success k req')
  have "try_upstream env conf k \<in> set (conf_Upstream conf)"
    using assms(1,2) by (auto simp: try_upstream_def rand_ok_def config_ok_def)
  moreover have "rq_currentUpstream req' = try_upstream env conf k"
    using arg_cong [OF success(2), of rq_currentUpstream] by simp
  ultimately show ?thesis using success unfolding attempt_def [symmetric] by (auto simp: attempt_def)
next
  case (failure req' e)
  then show ?thesis by auto
qed

theorem doDNSQuery_tries_witness:
  "\<exists>req' err. doDNSQuery example_env example_config (new_DNSRequest\<lparr>rq_request := Some new_Msg\<rparr>) = Ret (req', err)"
  using doDNSQuery_tries [of example_env example_config "new_DNSRequest\<lparr>rq_request := Some new_Msg\<rparr>" new_Msg]
    example_env_ok example_config_ok by (auto simp: env_ok_def)

lemma sent_Write_fresh:
  "w_Sent w = None \<Longrightarrow> sent_status (Write b (if P then WriteHeader 503 w else w)) = Some (if P then 503 else 200)"
  "w_Sent w = None \<Longrightarrow> sent_field (Write b (if P then WriteHeader 503 w else w)) k = w_Header w k"
  "w_Body (Write b (if P then WriteHeader 503 w else w)) = w_Body w @ b"
  by (simp_all add: sent_status_def sent_field_def)

lemma config_ok_verbose [simp]: "config_ok (if v then c\<lparr>conf_Verbose := True\<rparr> else c) = config_ok c"
  by (simp add: config_ok_def)

lemma cache_headers_field:
  "w_Header (cache_headers tm t resp w) k =
     (if rs_HaveTTL resp \<and> k = ''Expires'' then Some (fmt_HTTP tm (rs_EarliestExpires resp))
      else if rs_HaveTTL resp \<and> k = ''Cache-Control''
      then Some ((if t then ''private, max-age='' else ''public, max-age='') @ strconv_Itoa (unat (rs_LeastTTL resp)))
      else w_Header w k)"
  by (simp add: cache_headers_def)

lemma patchFirefox_field:
  "k \<notin> {''Vary'', ''Content-Type''} \<Longrightarrow> w_Header (snd (snd (patchFirefoxContentType r req w))) k = w_Header w k"
  "w_Body (snd (snd (patchFirefoxContentType r req w))) = w_Body w"
  by (simp_all add: patchFirefoxContentType_def)

lemma date_headers_field:
  "k \<notin> {''Vary'', ''Last-Modified'', ''Date''} \<Longrightarrow> w_Header (date_headers now w) k = w_Header w k"
  "w_Body (date_headers now w) = w_Body w"
  by (simp_all add: date_headers_def)

text \<open>C27: A response in wire format carries the packed message with the client's own identifier, has status
  503 exactly when the upstream reports a server failure, and may be cached no longer than the shortest
  lived of its records; it may be shared between clients only if the client chose the subnet itself.\<close>

theorem generateResponseIETF_spec:
  assumes "rq_response req = Some m" and "msg_typed m" and "w_Sent w = None"
    and "env_Pack env (m\<lparr>msg_Id := rq_transactionID req\<rparr>) = Inr wire"
  shows "\<exists>w' resp. generateResponseIETF env r req w = Ret w' \<and>
    Marshal (env_time env) (env_opt_text env) (env_clock env 0) m = Ret resp \<and>
    w_Body w' = w_Body w @ wire \<and>
    sent_status w' = Some (if rs_Status resp = 2 then 503 else 200) \<and>
    (ttl_records m \<noteq> [] \<longrightarrow>
       sent_field w' ''Cache-Control'' =
         Some ((if rq_isTailored req \<or> fst (patchFirefoxContentType r req w) then ''private, max-age='' else ''public, max-age='')
               @ strconv_Itoa (unat (Min (set (ttls (ttl_records m)))))))"
proof -
  obtain resp where m: "Marshal (env_time env) (env_opt_text env) (env_clock env 0) m = Ret resp"
    and inv: "ttl_inv (env_clock env 0) (ttls (ttl_records m)) resp"
    using Marshal_typed [OF assms(2), of "env_time env" "env_opt_text env" "env_clock env 0"] by blast
  let ?w2 = "date_headers (fmt_HTTP (env_time env) (env_clock env 1))
    (Header_Set ''Content-Type'' ''application/dns-message'' w)"
  let ?f = "patchFirefoxContentType r req ?w2"
  let ?w4 = "cache_headers (env_time env) (rq_isTailored (fst (snd ?f))) resp (snd (snd ?f))"
  have g: "generateResponseIETF env r req w =
      Ret (Write wire (if rs_Status resp = 2 then WriteHeader 503 ?w4 else ?w4))"
    using assms m by (simp add: generateResponseIETF_def case_prod_beta Let_def RcodeServerFailure_def)
  have s4: "w_Sent ?w4 = None" using assms(3) by simp
  have body: "w_Body ?w4 = w_Body w" by (simp add: cache_headers_def patchFirefox_field date_headers_field)
  have tail: "rq_isTailored (fst (snd ?f)) \<longleftrightarrow> rq_isTailored req \<or> fst (patchFirefoxContentType r req w)"
    by (simp add: patchFirefoxContentType_def)
  show ?thesis
    using g m sent_Write_fresh(1,2) [OF s4, of wire "rs_Status resp = 2"]
      sent_Write_fresh(3) [of wire "rs_Status resp = 2" ?w4] body inv ttl_inv_Min [OF inv] tail
    by (auto simp: cache_headers_field ttl_inv_def)
qed

theorem generateResponseIETF_spec_witness:
  "\<exists>w' resp. generateResponseIETF example_env example_GET
       (new_DNSRequest\<lparr>rq_response := Some example_msg, rq_transactionID := 9\<rparr>) new_writer = Ret w' \<and>
     Marshal decimal_timelib (\<lambda>_. []) 0 example_msg = Ret resp \<and> w_Body w' = [9] \<and>
     sent_field w' ''Cache-Control'' = Some (''public, max-age='' @ strconv_Itoa 60)"
  using generateResponseIETF_spec [of "new_DNSRequest\<lparr>rq_response := Some example_msg, rq_transactionID := 9\<rparr>"
      example_msg new_writer example_env "[9]" example_GET] example_msg_typed
  by (auto simp: example_env_def example_msg_records example_RR_def new_DNSRequest_def patchFirefoxContentType_def
      example_GET_def UserAgent_def strings_Contains_def)

lemma generateResponseIETF_fields:
  assumes "rq_response req = Some m" and "msg_typed m" and "w_Sent w = None"
    and "env_Pack env (m\<lparr>msg_Id := rq_transactionID req\<rparr>) = Inr wire"
  shows "\<exists>w' st. generateResponseIETF env r req w = Ret w' \<and> w_Body w' = w_Body w @ wire \<and> sent_status w' = Some st \<and>
    sent_field w' ''Date'' = Some (fmt_HTTP (env_time env) (env_clock env 1)) \<and>
    sent_field w' ''Last-Modified'' = Some (fmt_HTTP (env_time env) (env_clock env 1)) \<and>
    (\<not> strings_Contains (UserAgent r) ''Firefox'' \<longrightarrow> sent_field w' ''Content-Type'' = Some ''application/dns-message'')"
proof -
  obtain resp where m: "Marshal (env_time env) (env_opt_text env) (env_clock env 0) m = Ret resp"
    using Marshal_typed [OF assms(2)] by blast
  let ?now = "fmt_HTTP (env_time env) (env_clock env 1)"
  let ?w2 = "date_headers ?now (Header_Set ''Content-Type'' ''application/dns-message'' w)"
  let ?f = "patchFirefoxContentType r req ?w2"
  let ?w4 = "cache_headers (env_time env) (rq_isTailored (fst (snd ?f))) resp (snd (snd ?f))"
  have g: "generateResponseIETF env r req w =
      Ret (Write wire (if rs_Status resp = 2 then WriteHeader 503 ?w4 else ?w4))"
    using assms m by (simp add: generateResponseIETF_def case_prod_beta Let_def RcodeServerFailure_def)
  have s4: "w_Sent ?w4 = None" using assms(3) by simp
  have h: "w_Header ?w4 ''Date'' = Some ?now" "w_Header ?w4 ''Last-Modified'' = Some ?now"
    by (simp_all add: cache_headers_field patchFirefox_field) (simp_all add: date_headers_def)
  have c: "w_Header ?w4 ''Content-Type'' = Some ''application/dns-message''" if "\<not> strings_Contains (UserAgent r) ''Firefox''"
    using that by (simp add: cache_headers_field patchFirefoxContentType_def date_headers_field)
  have body: "w_Body ?w4 = w_Body w" by (simp add: cache_headers_def patchFirefox_field date_headers_field)
  show ?thesis
    using g h c body sent_Write_fresh(1,2) [OF s4, of wire "rs_Status resp = 2"]
      sent_Write_fresh(3) [of wire "rs_Status resp = 2" ?w4] by auto
qed

lemma generateResponseGoogle_fields:
  assumes "rq_response req = Some m" and "w_Sent w = None"
    and "Marshal (env_time env) (env_opt_text env) (env_clock env 0) m = Ret js" and "env_json_Response env js = Inr body"
  shows "\<exists>w'. generateResponseGoogle env r req w = Ret w' \<and> w_Body w' = w_Body w @ body \<and>
    sent_status w' = Some (if rs_Status js = 2 then 503 else 200) \<and>
    sent_field w' ''Content-Type'' = Some ''application/json; charset=UTF-8''"
proof -
  let ?w3 = "cache_headers (env_time env) (rq_isTailored req) js (date_headers (fmt_HTTP (env_time env) (env_clock env 1))
    (Header_Set ''Content-Type'' ''application/json; charset=UTF-8'' w))"
  have g: "generateResponseGoogle env r req w = Ret (Write body (if rs_Status js = 2 then WriteHeader 503 ?w3 else ?w3))"
    using assms by (simp add: generateResponseGoogle_def Let_def RcodeServerFailure_def)
  have s3: "w_Sent ?w3 = None" using assms(2) by simp
  have c: "w_Header ?w3 ''Content-Type'' = Some ''application/json; charset=UTF-8''"
    by (simp add: cache_headers_field date_headers_field)
  have b: "w_Body ?w3 = w_Body w" by (simp add: cache_headers_def date_headers_field)
  show ?thesis
    using g c b sent_Write_fresh(1,2) [OF s3, of body "rs_Status js = 2"] sent_Write_fresh(3) [of body "rs_Status js = 2" ?w3]
    by auto
qed

text \<open>The filtered answer that the server sends back.\<close>

definition filtered :: "golib \<Rightarrow> Server \<Rightarrow> u64 \<Rightarrow> Msg \<Rightarrow> Msg" where
  "filtered lib s cats ans =
     ans\<lparr>msg_Authoritative := False, msg_Ns := [],
       msg_Answer := filter (\<lambda>rr. \<not> isRestricted lib s (hdr_Name (Header rr)) cats) (msg_Answer ans),
       msg_Extra := filter (\<lambda>rr. \<not> isRestricted lib s (hdr_Name (Header rr)) cats) (msg_Extra ans)\<rparr>"

lemma filtered_typed: "msg_typed ans \<Longrightarrow> msg_typed (filtered lib s cats ans)"
  by (auto simp: filtered_def msg_typed_def list_all_iff)

text \<open>A parsed request with one question, answered by the first try: what is left is the response.\<close>

lemma serve_request_answered:
  assumes "rq_request req = Some fwd" and "rq_errcode req = 0"
    and "msg_Question fwd = [q]" and "msg_Opcode fwd = 0" and "q_Name q \<noteq> ''.''"
    and "exchange env (srv_conf s) 0 fwd (try_upstream env (srv_conf s) 0) = (Some ans, None)"
    and "rand_ok env" and "config_ok (srv_conf s)" and "\<forall>i. at i = s"
  shows "serve_request env s at r req w =
    (let req4 = req\<lparr>rq_currentUpstream := try_upstream env (srv_conf s) 0,
           rq_response := Some (filtered (env_lib env) s (rq_filterCategories req) ans)\<rparr> in
     go_bind (if response_type r = ''application/json'' then generateResponseGoogle env r req4 w
              else if response_type r = ''application/dns-message'' then generateResponseIETF env r req4 w
              else Panic ''Unknown response Content-Type'') (\<lambda>w2.
     Ret (w2, if srv_tracker s \<noteq> None \<and> \<not> rq_dnt req then Some (q_Name q) else None)))"
proof -
  have root: "patchRootRD req = Ret req" using assms(1,3,5) by (cases req) (simp add: patchRootRD_def)
  have pre: "preLookup req = Ret req" using assms(1,3,4) by (simp add: preLookup_def OpcodeQuery_def)
  have k0: "attempt env (srv_conf s) fwd 0 = (Some ans, None)" using assms(6) by (simp add: attempt_def)
  obtain n where n: "unat (conf_Tries (srv_conf s)) = Suc n"
    using assms(8) by (metis config_ok_def not0_implies_Suc u64_ge_1 unat_eq_zero)
  let ?req3 = "req\<lparr>rq_currentUpstream := try_upstream env (srv_conf s) 0, rq_response := Some ans\<rparr>"
  have d: "doDNSQuery env (srv_conf s) req = Ret (?req3, None)"
    using query_loop_step [OF assms(7), of "srv_conf s" fwd 0 n None req] assms(1,8) k0
    by (simp add: doDNSQuery_def n config_ok_def Let_def)
  have post: "postLookup (env_lib env) at ?req3 =
      Ret (req\<lparr>rq_currentUpstream := try_upstream env (srv_conf s) 0,
           rq_response := Some (filtered (env_lib env) s (rq_filterCategories req) ans)\<rparr>)"
    using keep_unrestricted_stable [of at s] assms(9) by (simp add: postLookup_def filtered_def Let_def)
  show ?thesis using assms(1-3) root pre d post by (simp add: serve_request_def Let_def)
qed

lemma handler_wire:
  assumes "request_type r = ''application/dns-message''" and "response_type r = ''application/dns-message''"
    and "request_binary (env_lib env) r = Inr bin" and "bin \<noteq> dnscrypt_probe" and "env_Unpack env bin = Inr msg"
    and "add_client_subnet env r (msg\<lparr>msg_Id := env_Id env\<rparr>) = Ret (fwd, t)"
    and "msg_Question fwd = [q]" and "msg_Opcode fwd = 0" and "q_Name q \<noteq> ''.''"
    and "exchange env (srv_conf s) 0 fwd (try_upstream env (srv_conf s) 0) = (Some ans, None)"
    and "rand_ok env" and "config_ok (srv_conf s)" and "msg_typed ans" and "\<forall>i. at i = s"
    and "env_Pack env ((filtered (env_lib env) s (parse_categories r) ans)\<lparr>msg_Id := msg_Id msg\<rparr>) = Inr wire"
  shows "\<exists>w req4. handlerFunc env s at r new_writer =
      Ret (w, if srv_tracker s \<noteq> None \<and> \<not> parse_dnt r then Some (q_Name q) else None) \<and>
    generateResponseIETF env r req4 (Header_Set ''X-Powered-By'' USER_AGENT (Header_Set ''Server'' USER_AGENT new_writer)) = Ret w \<and>
    rq_transactionID req4 = msg_Id msg \<and> rq_response req4 = Some (filtered (env_lib env) s (parse_categories r) ans)"
proof -
  let ?w = "Header_Set ''X-Powered-By'' USER_AGENT (Header_Set ''Server'' USER_AGENT new_writer)"
  let ?req = "new_DNSRequest\<lparr>rq_request := Some fwd, rq_transactionID := msg_Id msg, rq_isTailored := t,
    rq_filterCategories := parse_categories r, rq_dnt := parse_dnt r\<rparr>"
  let ?req4 = "?req\<lparr>rq_currentUpstream := try_upstream env (srv_conf s) 0,
    rq_response := Some (filtered (env_lib env) s (parse_categories r) ans)\<rparr>"
  have p: "parseRequestIETF env r ?w = Ret (?req, ?w)"
    using assms(3-6) by (simp add: parseRequestIETF_def patchDNSCryptProxyReqID_def)
  have e: "rq_errcode ?req = 0" by (simp add: new_DNSRequest_def)
  obtain resp where mr: "Marshal (env_time env) (env_opt_text env) (env_clock env 0) (filtered (env_lib env) s (parse_categories r) ans) = Ret resp"
    using Marshal_typed [OF filtered_typed [OF assms(13)]] by blast
  obtain w' where "generateResponseIETF env r ?req4 ?w = Ret w'"
    using mr assms(15) by (simp add: generateResponseIETF_def case_prod_beta Let_def)
  then show ?thesis
    using assms(1,2) p e serve_request_answered [of ?req fwd, OF _ e assms(7-12,14), of r ?w]
    by (intro exI [of _ w'] exI [of _ ?req4]) (simp add: handlerFunc_def Let_def)
qed

text \<open>C7: A well-formed query in wire format with one question is forwarded under a fresh identifier, and the
  reply is the upstream's answer, filtered by the lists and carrying the identifier of the client's
  message.\<close>

theorem handler_wire_reply:
  assumes "request_type r = ''application/dns-message''" and "response_type r = ''application/dns-message''"
    and "request_binary (env_lib env) r = Inr bin" and "bin \<noteq> dnscrypt_probe" and "env_Unpack env bin = Inr msg"
    and "add_client_subnet env r (msg\<lparr>msg_Id := env_Id env\<rparr>) = Ret (fwd, t)"
    and "msg_Question fwd = [q]" and "msg_Opcode fwd = 0" and "q_Name q \<noteq> ''.''"
    and "exchange env (srv_conf s) 0 fwd (try_upstream env (srv_conf s) 0) = (Some ans, None)"
    and "rand_ok env" and "config_ok (srv_conf s)" and "msg_typed ans" and "\<forall>i. at i = s"
    and "\<And>m. env_Pack env m = Inr (pack m)"
  shows "\<exists>w. handlerFunc env s at r new_writer =
      Ret (w, if srv_tracker s \<noteq> None \<and> \<not> parse_dnt r then Some (q_Name q) else None) \<and>
    w_Body w = pack (ans\<lparr>msg_Authoritative := False, msg_Ns := [],
      msg_Answer := filter (\<lambda>rr. \<not> isRestricted (env_lib env) s (hdr_Name (Header rr)) (parse_categories r)) (msg_Answer ans),
      msg_Extra := filter (\<lambda>rr. \<not> isRestricted (env_lib env) s (hdr_Name (Header rr)) (parse_categories r)) (msg_Extra ans),
      msg_Id := msg_Id msg\<rparr>)"
proof -
  let ?m = "filtered (env_lib env) s (parse_categories r) ans"
  let ?w0 = "Header_Set ''X-Powered-By'' USER_AGENT (Header_Set ''Server'' USER_AGENT new_writer)"
  from handler_wire [OF assms(1-14) assms(15)] obtain w req4 where w: "handlerFunc env s at r new_writer =
      Ret (w, if srv_tracker s \<noteq> None \<and> \<not> parse_dnt r then Some (q_Name q) else None)"
    "generateResponseIETF env r req4 ?w0 = Ret w" "rq_transactionID req4 = msg_Id msg" "rq_response req4 = Some ?m" by blast
  from generateResponseIETF_fields [OF w(4) filtered_typed [OF assms(13)], of ?w0 env "pack (?m\<lparr>msg_Id := msg_Id msg\<rparr>)" r]
  show ?thesis using w assms(15) by (auto simp: filtered_def)
qed

definition example_query :: Msg where
  "example_query = new_Msg\<lparr>msg_Id := 5, msg_Question := [\<lparr>q_Name = ''a.example.'', q_Qtype = 1, q_Qclass = 1\<rparr>]\<rparr>"

definition wire_env :: server_env where
  "wire_env = example_env\<lparr>env_Unpack := (\<lambda>_. Inr example_query)\<rparr>"

definition wire_GET :: http_request where
  "wire_GET = example_GET\<lparr>r_Form := (\<lambda>k. if k = ''dns'' then EncodeToString [1, 2, 3] else [])\<rparr>"

lemma wire_GET_parse:
  "request_type wire_GET = ''application/dns-message''" "response_type wire_GET = ''application/dns-message''"
  "request_binary (env_lib wire_env) wire_GET = Inr [1, 2, 3]"
proof -
  show r: "request_type wire_GET = ''application/dns-message''"
    by (simp add: request_type_def wire_GET_def example_GET_def)
  show "response_type wire_GET = ''application/dns-message''"
    using r by (simp add: response_type_def wire_GET_def example_GET_def Let_def numeral_2_eq_2)
  show "request_binary (env_lib wire_env) wire_GET = Inr [1, 2, 3]"
    using DecodeString_Encode [of "[1, 2, 3]"] by (simp add: request_binary_def wire_GET_def)
qed

lemma wire_env_client: "findClientIP wire_env wire_GET = Some (net_IPv4 198 51 100 7)"
  using example_client_ip by (simp add: findClientIP_def wire_env_def wire_GET_def example_GET_def)

theorem handler_wire_reply_witness:
  "\<exists>w. handlerFunc wire_env (NewServer example_config) (\<lambda>_. NewServer example_config) wire_GET new_writer = Ret (w, None) \<and>
     w_Body w = [5]"
proof -
  let ?s = "NewServer example_config"
  let ?fwd = "example_query\<lparr>msg_Id := 7, msg_Extra := [RR_OPT (new_OPT False) [new_subnet (family_of (net_IPv4 198 51 100 7))]]\<rparr>"
  have fwd: "add_client_subnet wire_env wire_GET (example_query\<lparr>msg_Id := env_Id wire_env\<rparr>) = Ret (?fwd, True)"
    using wire_env_client
    by (simp add: add_client_subnet_def IsEdns0_def example_query_def new_Msg_def) (simp add: wire_env_def example_env_def)
  have x: "exchange wire_env (srv_conf ?s) 0 ?fwd (try_upstream wire_env (srv_conf ?s) 0) =
      (Some (?fwd\<lparr>msg_Answer := [example_RR], msg_Extra := []\<rparr>), None)"
    by (simp add: exchange_def wire_env_def example_env_def NewServer_def example_config_def Let_def)
  have "rand_ok wire_env" using example_env_ok by (simp add: env_ok_def rand_ok_def wire_env_def)
  with handler_wire_reply [OF wire_GET_parse, of example_query ?fwd True _ ?s _ "\<lambda>_. ?s" "\<lambda>m. [ucast (msg_Id m)]", OF _ _ fwd _ _ _ x]
  show ?thesis
    by (simp add: dnscrypt_probe_def wire_env_def example_env_def example_query_def new_Msg_def msg_typed_def
        NewServer_def example_config_ok)
qed

text \<open>C33: Started from a loaded configuration, every listener serves TLS or none does, TLS exactly when the
  configuration names a certificate and a key, and a tracker runs exactly when a log file is named; the
  waiting loop ends with the first error of a listener, without one if all listeners have ended without one,
  and waits in all other cases, also as long as no listener has ended.\<close>

theorem Start_from_config:
  assumes "server_main lib DecodeFile path verbose fs OpenAppend = Ret (Inr (s, endpoint, listeners))"
  shows "listeners \<noteq> [] \<and> map fst listeners = conf_Listen (srv_conf s) \<and>
    (\<forall>l\<in>set listeners. snd l \<longleftrightarrow> conf_Cert (srv_conf s) \<noteq> [] \<and> conf_Key (srv_conf s) \<noteq> []) \<and>
    (srv_tracker s \<noteq> None \<longleftrightarrow> conf_RequestsLog (srv_conf s) \<noteq> []) \<and>
    config_ok (srv_conf s) \<and>
    Start_wait listeners results =
      (case filter (\<lambda>e. e \<noteq> None) (take (length listeners) results) of
         err # _ \<Rightarrow> Returned err
       | [] \<Rightarrow> if length listeners \<le> length results then Returned None else Waiting) \<and>
    Start_wait listeners [] = Waiting"
proof -
  obtain conf where c: "loadConfig lib DecodeFile path = Inr conf"
    using assms by (auto simp: server_main_def split: sum.splits)
  define s0 where "s0 = NewServer (if verbose then conf\<lparr>conf_Verbose := True\<rparr> else conf)"
  have st: "Start lib fs OpenAppend s0 = Ret (Inr (s, endpoint, listeners))"
  proof -
    obtain x where "Start lib fs OpenAppend s0 = Ret x"
      and "(case x of Inl err \<Rightarrow> Inl (''Can'' @ [CHR 0x27] @ ''t start server: '' @ err) | Inr running \<Rightarrow> Inr running) =
        Inr (s, endpoint, listeners)"
      using assms by (auto simp: server_main_def c s0_def go_bind_eq_Ret Let_def)
    then show ?thesis by (cases x) simp_all
  qed
  have ok: "config_ok (srv_conf s0)" and tr: "srv_tracker s0 = None"
    using loadConfig_ok [OF c] by (auto simp: s0_def NewServer_def config_ok_verbose)
  obtain s1 where l: "readLists lib fs s0 = (None, s1)"
    using st by (auto simp: Start_def split: prod.splits option.splits)
  have keep: "srv_conf s1 = srv_conf s0" "srv_tracker s1 = None"
    using l tr by (auto simp: readLists_def Let_def split: if_splits sum.splits)
  obtain e where ep: "startListsUpdateEndpoint s1 = Ret (Inr e)"
    using st l by (cases "startListsUpdateEndpoint s1") (auto simp: Start_def split: sum.splits)
  have "listeners = map (\<lambda>a. (a, conf_Cert (srv_conf s0) \<noteq> [] \<or> conf_Key (srv_conf s0) \<noteq> [])) (conf_Listen (srv_conf s0))"
    and "srv_conf s = srv_conf s0" and "srv_tracker s \<noteq> None \<longleftrightarrow> conf_RequestsLog (srv_conf s0) \<noteq> []"
    using st l keep ep by (auto simp: Start_def Let_def split: sum.splits if_splits)
  with ok show ?thesis by (auto simp: config_ok_def comp_def Start_wait_def wait_results_eq)
qed

theorem Start_from_config_witness:
  "\<exists>s endpoint. server_main plain_golib (\<lambda>_. Inr (example_config\<lparr>conf_ListsDirectory := []\<rparr>, [])) ''x'' False example_lists (\<lambda>_. Inl []) =
      Ret (Inr (s, endpoint, [(''127.0.0.1:8053'', False)])) \<and>
    config_ok (srv_conf s)"
proof -
  let ?c = "example_config\<lparr>conf_ListsDirectory := []\<rparr>"
  have s: "Start plain_golib example_lists (\<lambda>_. Inl []) (NewServer ?c) =
      Ret (Inr (NewServer ?c, None, [(''127.0.0.1:8053'', False)]))"
    by (simp add: Start_def readLists_def startListsUpdateEndpoint_def NewServer_def example_config_def)
  have "loadConfig plain_golib (\<lambda>_. Inr (?c, [])) ''x'' = Inr ?c" "conf_Path ?c = ''/dns-query''"
    by (simp_all add: loadConfig_def apply_defaults_def example_config_def)
  with s have m: "server_main plain_golib (\<lambda>_. Inr (?c, [])) ''x'' False example_lists (\<lambda>_. Inl []) =
      Ret (Inr (NewServer ?c, None, [(''127.0.0.1:8053'', False)]))"
    by (simp add: server_main_def HandleFunc_def Let_def)
  from Start_from_config [OF m] m show ?thesis by auto
qed

text \<open>C37: An update endpoint that the configuration gives as a host, an optional port and a path is served at that
  host under that path; without a path the start of the server panics.\<close>

theorem endpoint_from_config:
  assumes "DecodeFile path = Inr (c, [])" and "loadConfig lib DecodeFile path = Inr conf"
    and "conf_ListsUpdateEndpoint c = h @ port @ p"
    and "list_all host_char h" and "h \<noteq> []" and "validOptionalPort port" and "path_text p"
  shows "startListsUpdateEndpoint (NewServer conf) =
    (if p = [] then Panic ''http: invalid pattern'' else Ret (Inr (Some (h @ port, p))))"
proof -
  have "conf_ListsUpdateEndpoint conf = ''http'' @ ''://'' @ h @ port @ p @ []"
    using assms(1-3,5) by (auto simp: loadConfig_def apply_defaults_def Let_def split: if_splits)
  moreover have "url_Parse (''http'' @ ''://'' @ h @ port @ p @ []) =
      Inr \<lparr>url_Scheme = ''http'', url_Opaque = [], url_Host = h @ port, url_Path = p\<rparr>"
    using assms(4-7) by (intro url_Parse_usual) (simp_all add: scheme_text_def query_text_def)
  ultimately show ?thesis by (simp add: startListsUpdateEndpoint_def NewServer_def HandleFunc_def)
qed

theorem endpoint_from_config_witness:
  "\<exists>conf. loadConfig plain_golib (\<lambda>_. Inr (example_config\<lparr>conf_ListsUpdateEndpoint := ''localhost:2334''\<rparr>, [])) ''x'' = Inr conf \<and>
    startListsUpdateEndpoint (NewServer conf) = Panic ''http: invalid pattern''"
proof -
  let ?c = "example_config\<lparr>conf_ListsUpdateEndpoint := ''localhost:2334''\<rparr>"
  obtain conf where conf: "loadConfig plain_golib (\<lambda>_. Inr (?c, [])) ''x'' = Inr conf"
    by (simp add: loadConfig_def example_config_def Let_def)
  with endpoint_from_config [OF _ conf, of ?c "''localhost''" "'':2334''" "[]"] show ?thesis
    by (simp add: example_config_def host_char_def is_alnum_def validOptionalPort_def path_text_def is_digit_def)
qed

text \<open>A message with an OPT record whose options have the types that their codes say.\<close>

definition has_OPT :: "Msg \<Rightarrow> bool" where
  "has_OPT m \<longleftrightarrow> list_ex (\<lambda>rr. hdr_Rrtype (Header rr) = TypeOPT) (msg_Extra m)"

lemma IsEdns0_has_OPT:
  assumes "msg_typed m" and "has_OPT m"
  shows "\<exists>i h os. IsEdns0 m = Ret (Some (i, h, os))"
proof -
  obtain found where f: "IsEdns0 m = Ret found" using IsEdns0_typed [OF assms(1)] by (auto simp: no_panic_iff)
  moreover have "found \<noteq> None"
    using f assms(2) by (auto simp: IsEdns0_def has_OPT_def list_ex_iff last_index_None split: option.splits RR.splits)
  ultimately show ?thesis by (cases found) auto
qed

lemma new_OPT_Rrtype [simp]: "hdr_Rrtype (new_OPT d) = TypeOPT"
  by (simp add: new_OPT_def OPT_SetDo_def OPT_SetUDPSize_def)

lemma new_subnet_typed [simp]: "\<exists>s. new_subnet fam = Opt_SUBNET s"
  by (simp add: new_subnet_def split: prod.splits)

lemma add_client_subnet_OPT:
  assumes "msg_typed m" and "add_client_subnet env r m = Ret (m', t)"
  shows "msg_typed m' \<and> has_OPT m' \<and> msg_Id m' = msg_Id m"
proof -
  obtain found where f: "IsEdns0 m = Ret found" using IsEdns0_typed [OF assms(1)] by (auto simp: no_panic_iff)
  have "IsEdns0 m = Ret None \<or> (\<exists>i h os. IsEdns0 m = Ret (Some (i, h, os)))" using f by (cases found) auto
  then show ?thesis
  proof
    assume "IsEdns0 m = Ret None"
    then show ?thesis using assms
      by (auto simp: add_client_subnet_def msg_typed_def has_OPT_def opt_typed_def split: option.splits)
  next
    assume "\<exists>i h os. IsEdns0 m = Ret (Some (i, h, os))"
    then obtain i h os where i: "IsEdns0 m = Ret (Some (i, h, os))" by blast
    note s = IsEdns0_Some [OF i]
    then have o: "opt_typed (RR_OPT h os)" using assms(1) by (auto simp: msg_typed_def list_all_length)
    have "m' = m \<or> (\<exists>ip. m' = m\<lparr>msg_Extra := (msg_Extra m)[i := RR_OPT h (os @ [new_subnet (family_of ip)])]\<rparr>)"
      using assms(2) by (auto simp: add_client_subnet_def i go_bind_eq_Ret split: option.splits)
    moreover have "opt_typed (RR_OPT h (os @ [new_subnet (family_of ip)]))" for ip using o by (auto simp: opt_typed_def)
    ultimately show ?thesis
      using assms(1) s by (auto simp: msg_typed_def has_OPT_def list_all_length nth_list_update list_ex_length)
  qed
qed

text \<open>C26: Whichever parser accepts a request, what goes to the resolver carries a fresh message id and an OPT record, and
  its OPT records and subnet options have the types that the code asserts, so that looking for them
  cannot panic.\<close>

theorem accepted_request_typed:
  assumes "unpack_typed env" and "req = parseRequestGoogle env r \<or> parseRequestIETF env r w = Ret (req, w')"
    and "rq_errcode req = 0"
  shows "\<exists>m i h os. rq_request req = Some m \<and> msg_typed m \<and> msg_Id m = env_Id env \<and> IsEdns0 m = Ret (Some (i, h, os))"
proof -
  have "\<exists>m. rq_request req = Some m \<and> msg_typed m \<and> has_OPT m \<and> msg_Id m = env_Id env"
    using assms(2)
  proof
    assume "req = parseRequestGoogle env r"
    then show ?thesis using assms(3)
      by (auto simp: parseRequestGoogle_def Let_def error_request_def new_DNSRequest_def SetQuestion_def new_Msg_def
          msg_typed_def has_OPT_def opt_typed_def split: sum.splits option.splits if_splits)
  next
    assume p: "parseRequestIETF env r w = Ret (req, w')"
    then obtain bin msg m1 t where m: "env_Unpack env bin = Inr msg"
      "add_client_subnet env r (msg\<lparr>msg_Id := env_Id env\<rparr>) = Ret (m1, t)" "rq_request req = Some m1"
      using assms(3) by (auto simp: parseRequestIETF_def go_bind_eq_Ret error_request_def new_DNSRequest_def
          split: sum.splits if_splits prod.splits)
    moreover have "msg_typed (msg\<lparr>msg_Id := env_Id env\<rparr>)" using m(1) assms(1) by (auto simp: unpack_typed_def)
    ultimately show ?thesis using add_client_subnet_OPT by fastforce
  qed
  then show ?thesis using IsEdns0_has_OPT by blast
qed

theorem accepted_request_typed_witness:
  "\<exists>m i h os. rq_request (parseRequestGoogle example_env example_GET) = Some m \<and> msg_Id m = 7 \<and>
     IsEdns0 m = Ret (Some (i, h, os))"
proof -
  have "parse_rrtype plain_golib [] = Some 1" by code_simp
  then have "rq_errcode (parseRequestGoogle example_env example_GET) = 0"
    by (simp add: parseRequestGoogle_def example_env_def example_GET_def parse_cd_def new_DNSRequest_def Let_def)
  moreover have "unpack_typed example_env" "env_Id example_env = 7" using example_env_ok by (simp_all add: env_ok_def example_env_def)
  ultimately show ?thesis using accepted_request_typed [of example_env _ example_GET] by metis
qed

subsection \<open>What a verbose server prints\<close>





end
