(* ===== verification/DohClient.thy ===== *)
theory DohClient
  imports JsonDns GlobalIP GoBase64 GoUrl
begin

text \<open>
  \<^verbatim>\<open>doh-client\<close>: configuration (\<^verbatim>\<open>config.go\<close>), the client and its HTTP transport (\<^verbatim>\<open>client.go\<close>), and the two upstream
  protocols (\<^verbatim>\<open>google.go\<close>, \<^verbatim>\<open>ietf.go\<close>). What the client calls outside the repository's own code is a field
  of \<open>client_env\<close>. A handler returns what it writes to the stub resolver, in order, and the client with
  its HTTP transport, which an upstream failure may have replaced. \<^verbatim>\<open>log.Fatalln\<close> ends the process and is
  modelled like a panic.
\<close>

section \<open>config.go\<close>

record client_config =
  cc_Listen :: "string list"
  cc_UpstreamGoogle :: "string list"
  cc_UpstreamIETF :: "string list"
  cc_Bootstrap :: "string list"
  cc_Timeout :: u64
  cc_NoCookies :: bool
  cc_NoECS :: bool
  cc_NoIPv6 :: bool
  cc_Verbose :: bool

definition client_defaults :: "client_config \<Rightarrow> client_config" where
  "client_defaults conf =
     conf\<lparr>cc_Listen := (if length (cc_Listen conf) = 0 then [''127.0.0.1:53'', ''[::1]:53''] else cc_Listen conf),
          cc_UpstreamGoogle := (if length (cc_UpstreamGoogle conf) = 0 \<and> length (cc_UpstreamIETF conf) = 0
                                then [''https://dns.google.com/resolve''] else cc_UpstreamGoogle conf),
          cc_Timeout := (if cc_Timeout conf = 0 then 10 else cc_Timeout conf)\<rparr>"

datatype client_configError = client_configError string

primrec client_configError_Error :: "client_configError \<Rightarrow> string" where
  "client_configError_Error (client_configError err) = err"

definition client_loadConfig ::
    "golib \<Rightarrow> (string \<Rightarrow> string + (client_config \<times> string list)) \<Rightarrow> string \<Rightarrow> string + client_config" where
  "client_loadConfig lib DecodeFile path =
     (case DecodeFile path of
        Inl err \<Rightarrow> Inl err
      | Inr (conf, undecoded) \<Rightarrow>
          (case undecoded of
             key # _ \<Rightarrow> Inl (client_configError_Error (client_configError (''unknown option '' @ fmt_q lib key)))
           | [] \<Rightarrow> Inr (client_defaults conf)))"

section \<open>Environment\<close>

record http_out =
  ho_Method :: string
  ho_URL :: string
  ho_Header :: "string \<rightharpoonup> string"
  ho_Body :: bytes

record http_response =
  hr_StatusCode :: int
  hr_Header :: "string \<Rightarrow> string"
  hr_Body :: "string + bytes"

text \<open>
  \<open>ce_Intn 0\<close> chooses the protocol and \<open>ce_Intn 1\<close> the server, \<open>ce_Intn 2\<close> a bootstrap server; \<open>ce_clock 0\<close> is read by \<^verbatim>\<open>Unmarshal\<close> or for the age of
  a wire reply, \<open>ce_clock 1\<close> and \<open>2\<close> by \<^verbatim>\<open>newHTTPClient\<close>. \<open>ce_RemoteAddr\<close> is the resolved address of the stub.
\<close>

record client_env =
  ce_lib :: golib
  ce_time :: timelib
  ce_clock :: "nat \<Rightarrow> int"
  ce_Intn :: "nat \<Rightarrow> nat \<Rightarrow> nat"
  ce_RemoteAddr :: "string + net_IP"
  ce_ResolveUDPAddr :: "string \<Rightarrow> string + string"
  ce_Pack :: "Msg \<Rightarrow> string + bytes"
  ce_Unpack :: "bytes \<Rightarrow> string + Msg"
  ce_NewRR :: "string \<Rightarrow> string + RR"
  ce_json :: "bytes \<Rightarrow> string + Response"
  ce_NewRequest :: "string \<Rightarrow> string option"
  ce_Do :: "http_out \<Rightarrow> string + http_response"
  ce_ConfigureTransport :: "string option"

definition client_USER_AGENT :: string where
  "client_USER_AGENT = ''DNS-over-QUIC/1.3.11 (+https://github.com/ProfitLabs/quic-dns)''"

section \<open>client.go: the client and its transport\<close>

text \<open>\<^verbatim>\<open>servers[rand.Intn(len(servers))]\<close>, for the upstreams and for the bootstrap servers.\<close>

definition pick :: "client_env \<Rightarrow> nat \<Rightarrow> string list \<Rightarrow> string go" where
  "pick env i xs =
     (if length xs = 0 then Panic ''invalid argument to Intn''
      else if ce_Intn env i (length xs) \<ge> length xs then Panic ''index out of range''
      else Ret (xs ! ce_Intn env i (length xs)))"

text \<open>
  \<^verbatim>\<open>net.DefaultResolver\<close>, or the resolver with \<^verbatim>\<open>PreferGo\<close> whose \<^verbatim>\<open>Dial\<close> closes over the bootstrap servers of the client, which do
  not change once it exists. \<open>bootstrap_Dial\<close> is that function, up to its call of \<^verbatim>\<open>DialContext\<close>: the network and
  the address that are dialed.
\<close>

datatype net_Resolver = DefaultResolver | DialResolver "string list"

definition bootstrap_Dial :: "client_env \<Rightarrow> string list \<Rightarrow> string \<Rightarrow> string \<Rightarrow> (string \<times> string) go" where
  "bootstrap_Dial env servers network address =
     go_bind (pick env 2 servers) (\<lambda>bootstrap. Ret (network, bootstrap))"

record net_Dialer =
  dl_Timeout :: int
  dl_KeepAlive :: int
  dl_DualStack :: bool
  dl_Resolver :: net_Resolver

text \<open>
  \<open>tr_DialContext\<close> gives the call of the dialer's own \<^verbatim>\<open>DialContext\<close> that a call of the transport's makes: the
  dialer, the network and the address.
\<close>

record http_Transport =
  tr_DialContext :: "string \<Rightarrow> string \<Rightarrow> net_Dialer \<times> string \<times> string"
  tr_ExpectContinueTimeout :: int
  tr_IdleConnTimeout :: int
  tr_MaxIdleConns :: int
  tr_MaxIdleConnsPerHost :: int
  tr_ProxyFromEnvironment :: bool
  tr_ResponseHeaderTimeout :: int
  tr_TLSHandshakeTimeout :: int

record http_Client =
  hc_Transport :: http_Transport
  hc_Jar :: bool

datatype dns_handler = UdpHandler | TcpHandler

record dns_Server =
  ds_Addr :: string
  ds_Net :: string
  ds_Handler :: dns_handler
  ds_UDPSize :: u16

text \<open>
  \<open>cl_idleClosed\<close> records the calls of \<^verbatim>\<open>CloseIdleConnections\<close>: the transports they were made on, the latest
  first. The cookie jar is there or not.
\<close>

record Client =
  cl_conf :: client_config
  cl_bootstrap :: "string list"
  cl_udpServers :: "dns_Server list"
  cl_tcpServers :: "dns_Server list"
  cl_bootstrapResolver :: net_Resolver
  cl_cookieJar :: bool
  cl_httpTransport :: "http_Transport option"
  cl_httpClient :: "http_Client option"
  cl_httpClientLastCreate :: "int option"
  cl_idleClosed :: "http_Transport list"

text \<open>\<^verbatim>\<open>time.Duration(conf.Timeout) * time.Second\<close>, a signed 64-bit product.\<close>

definition timeout_duration :: "client_config \<Rightarrow> int" where
  "timeout_duration conf = sint (cc_Timeout conf * word_of_int Second)"

definition new_Dialer :: "client_config \<Rightarrow> net_Resolver \<Rightarrow> net_Dialer" where
  "new_Dialer conf resolver =
     \<lparr>dl_Timeout = timeout_duration conf, dl_KeepAlive = 30 * Second, dl_DualStack = True, dl_Resolver = resolver\<rparr>"

definition new_Transport :: "client_config \<Rightarrow> net_Dialer \<Rightarrow> http_Transport" where
  "new_Transport conf dialer =
     (let transport =
        \<lparr>tr_DialContext = (\<lambda>network address. (dialer, network, address)),
         tr_ExpectContinueTimeout = 1 * Second, tr_IdleConnTimeout = 90 * Second, tr_MaxIdleConns = 100,
         tr_MaxIdleConnsPerHost = 10, tr_ProxyFromEnvironment = True,
         tr_ResponseHeaderTimeout = timeout_duration conf, tr_TLSHandshakeTimeout = timeout_duration conf\<rparr>
      in if cc_NoIPv6 conf
         then transport\<lparr>tr_DialContext := (\<lambda>network address.
                (dialer, if strings_HasPrefix network ''tcp'' then ''tcp4'' else network, address))\<rparr>
         else transport)"

text \<open>
  \<^verbatim>\<open>newHTTPClient\<close>: nothing happens within the timeout of the last creation. A transport that cannot be configured
  replaces the old one, but the HTTP client and the moment of creation stay.
\<close>

definition newHTTPClient :: "client_env \<Rightarrow> Client \<Rightarrow> string option \<times> Client" where
  "newHTTPClient env c =
     (if (case cl_httpClientLastCreate c of
            None \<Rightarrow> False
          | Some created \<Rightarrow> time_Sub (ce_clock env 1) created < timeout_duration (cl_conf c))
      then (None, c)
      else
        let c0 = (case cl_httpTransport c of
                    None \<Rightarrow> c
                  | Some old \<Rightarrow> c\<lparr>cl_idleClosed := old # cl_idleClosed c\<rparr>);
            transport = new_Transport (cl_conf c) (new_Dialer (cl_conf c) (cl_bootstrapResolver c));
            c1 = c0\<lparr>cl_httpTransport := Some transport\<rparr> in
        case ce_ConfigureTransport env of
          Some err \<Rightarrow> (Some err, c1)
        | None \<Rightarrow>
            (None, c1\<lparr>cl_httpClient := Some \<lparr>hc_Transport = transport, hc_Jar = cl_cookieJar c\<rparr>,
                      cl_httpClientLastCreate := Some (ce_clock env 2)\<rparr>))"

fun resolve_bootstrap :: "(string \<Rightarrow> string + string) \<Rightarrow> string list \<Rightarrow> string + string list" where
  "resolve_bootstrap rs [] = Inr []"
| "resolve_bootstrap rs (b # bs) =
     (case (case rs b of Inr a \<Rightarrow> Inr a | Inl _ \<Rightarrow> rs (''['' @ b @ '']:53'')) of
        Inl err \<Rightarrow> Inl err
      | Inr a \<Rightarrow> (case resolve_bootstrap rs bs of Inl err \<Rightarrow> Inl err | Inr as \<Rightarrow> Inr (a # as)))"

definition udp_server :: "string \<Rightarrow> dns_Server" where
  "udp_server addr = \<lparr>ds_Addr = addr, ds_Net = ''udp'', ds_Handler = UdpHandler, ds_UDPSize = DefaultMsgSize\<rparr>"

definition tcp_server :: "string \<Rightarrow> dns_Server" where
  "tcp_server addr = \<lparr>ds_Addr = addr, ds_Net = ''tcp'', ds_Handler = TcpHandler, ds_UDPSize = 0\<rparr>"

text \<open>The client as \<^verbatim>\<open>NewClient\<close> has it when it calls \<^verbatim>\<open>newHTTPClient\<close>.\<close>

definition bare_Client :: "client_config \<Rightarrow> string list \<Rightarrow> net_Resolver \<Rightarrow> Client" where
  "bare_Client conf bootstrap resolver =
     \<lparr>cl_conf = conf, cl_bootstrap = bootstrap, cl_udpServers = map udp_server (cc_Listen conf),
      cl_tcpServers = map tcp_server (cc_Listen conf), cl_bootstrapResolver = resolver,
      cl_cookieJar = (\<not> cc_NoCookies conf), cl_httpTransport = None, cl_httpClient = None,
      cl_httpClientLastCreate = None, cl_idleClosed = []\<rparr>"

text \<open>\<^verbatim>\<open>cookiejar.New(nil)\<close> of the standard library always succeeds.\<close>

definition NewClient :: "client_env \<Rightarrow> client_config \<Rightarrow> string + Client" where
  "NewClient env conf =
     (case (if length (cc_Bootstrap conf) \<noteq> 0
            then (case resolve_bootstrap (ce_ResolveUDPAddr env) (cc_Bootstrap conf) of
                    Inl err \<Rightarrow> Inl err
                  | Inr bootstrap \<Rightarrow> Inr (bootstrap, DialResolver bootstrap))
            else Inr ([], DefaultResolver)) of
        Inl err \<Rightarrow> Inl err
      | Inr (bootstrap, resolver) \<Rightarrow>
          (case newHTTPClient env (bare_Client conf bootstrap resolver) of
             (Some err, _) \<Rightarrow> Inl err
           | (None, c) \<Rightarrow> Inr c))"

text \<open>
  \<^verbatim>\<open>Start\<close>: the servers it runs, and whether it has returned when their \<^verbatim>\<open>ListenAndServe\<close> have returned these
  results, in the order of the channel.
\<close>

definition client_servers :: "Client \<Rightarrow> dns_Server list" where
  "client_servers c = cl_udpServers c @ cl_tcpServers c"

definition client_Start :: "Client \<Rightarrow> string option list \<Rightarrow> string wait" where
  "client_Start c results = wait_results (length (client_servers c)) results"

text \<open>\<^verbatim>\<open>main\<close> of the client up to \<^verbatim>\<open>Start\<close>.\<close>

definition client_main ::
    "client_env \<Rightarrow> (string \<Rightarrow> string + (client_config \<times> string list)) \<Rightarrow> string \<Rightarrow> bool \<Rightarrow> string + Client" where
  "client_main env DecodeFile confPath verbose =
     (case client_loadConfig (ce_lib env) DecodeFile confPath of
        Inl err \<Rightarrow> Inl err
      | Inr conf \<Rightarrow> NewClient env (if verbose then conf\<lparr>cc_Verbose := True\<rparr> else conf))"

text \<open>The whole of \<^verbatim>\<open>main\<close>: a fatal error, or the state of \<^verbatim>\<open>Start\<close>, whose error it ignores.\<close>

definition client_process ::
    "client_env \<Rightarrow> (string \<Rightarrow> string + (client_config \<times> string list)) \<Rightarrow> string \<Rightarrow> bool \<Rightarrow> string option list \<Rightarrow>
     string + string wait" where
  "client_process env DecodeFile confPath verbose results =
     (case client_main env DecodeFile confPath verbose of
        Inl err \<Rightarrow> Inl err
      | Inr c \<Rightarrow> Inr (client_Start c results))"

section \<open>client.go: the client's address\<close>

definition ipv4Mask24 :: bytes where
  "ipv4Mask24 = [255, 255, 255, 0]"

definition ipv6Mask56 :: bytes where
  "ipv6Mask56 = cidr_bytes 16 56"

definition client_findClientIP :: "client_env \<Rightarrow> client_config \<Rightarrow> Msg \<Rightarrow> (net_IP \<times> u8) go" where
  "client_findClientIP env conf r =
     (if cc_NoECS conf then Ret (Some (net_IPv4 0 0 0 0), 0)
      else
        go_bind (IsEdns0 r) (\<lambda>found.
        go_bind (case found of None \<Rightarrow> Ret None | Some (_, _, os) \<Rightarrow> find_SUBNET os) (\<lambda>sub.
          case sub of
            Some s \<Rightarrow> Ret (sub_Address s, sub_SourceNetmask s)
          | None \<Rightarrow>
              (case ce_RemoteAddr env of
                 Inl err \<Rightarrow> Ret (None, 255)
               | Inr ip \<Rightarrow>
                   if IsGlobalIP ip then
                     (case ip of
                        None \<Rightarrow> Ret (None, 255)
                      | Some a \<Rightarrow>
                          (case To4 a of
                             Some ipv4 \<Rightarrow> Ret (IP_Mask ipv4 ipv4Mask24, 24)
                           | None \<Rightarrow> Ret (IP_Mask a ipv6Mask56, 56)))
                   else Ret (None, 255)))))"

section \<open>Requests\<close>

datatype dns_out = WriteMsg Msg | WriteRaw bytes

record creq =
  cq_response :: http_response
  cq_reply :: Msg
  cq_udpSize :: u16
  cq_ednsClientAddress :: net_IP
  cq_ednsClientNetmask :: u8
  cq_currentUpstream :: string

definition question_type :: "Question \<Rightarrow> string" where
  "question_type q =
     (case map_of TypeToString (q_Qtype q) of Some s \<Rightarrow> s | None \<Rightarrow> strconv_Itoa (unat (q_Qtype q)))"

text \<open>What both generators print for a query when they are verbose; \<open>now\<close> is the formatted time.\<close>

definition client_prints :: "client_config \<Rightarrow> string \<Rightarrow> string \<Rightarrow> Msg \<Rightarrow> string option" where
  "client_prints conf RemoteAddr now r =
     (if length (msg_Question r) \<noteq> 1 then None
      else
        let question = msg_Question r ! 0 in
        if cc_Verbose conf
        then Some (RemoteAddr @ '' - - ['' @ now @ ''] '' @ [CHR 0x22] @ q_Name question @ '' IN '' @ question_type question
                     @ [CHR 0x22, CHR 0x0A])
        else None)"

text \<open>The end of both generators: a failed request is answered with a server failure and renews the transport.\<close>

definition send_request ::
    "client_env \<Rightarrow> Client \<Rightarrow> http_out \<Rightarrow> Msg \<Rightarrow> (http_response \<Rightarrow> creq) \<Rightarrow> (dns_out list \<times> Client \<times> creq option) go" where
  "send_request env c out reply mk =
     (case ce_Do env out of
        Inl err \<Rightarrow>
          (case newHTTPClient env c of
             (Some err1, _) \<Rightarrow> Panic (''log.Fatalln: '' @ err1)
           | (None, c1) \<Rightarrow> Ret ([WriteMsg (reply\<lparr>msg_Rcode := RcodeServerFailure\<rparr>)], c1, None))
      | Inr resp \<Rightarrow> Ret ([], c, Some (mk resp)))"

definition google_URL :: "string \<Rightarrow> Question \<Rightarrow> bool \<Rightarrow> net_IP \<times> u8 \<Rightarrow> string" where
  "google_URL upstream q cd addr_mask =
     upstream @ ''?ct=application/dns-json&name='' @ QueryEscape (q_Name q) @ ''&type=''
     @ QueryEscape (question_type q) @ (if cd then ''&cd=1'' else [])
     @ (case fst addr_mask of
          None \<Rightarrow> []
        | Some a \<Rightarrow> ''&edns_client_subnet='' @ IP_String a @ ''/'' @ strconv_Itoa (unat (snd addr_mask)))"

definition generateRequestGoogle ::
    "client_env \<Rightarrow> Client \<Rightarrow> Msg \<Rightarrow> (dns_out list \<times> Client \<times> creq option) go" where
  "generateRequestGoogle env c r =
     (let reply = PrepareReply r; conf = cl_conf c in
      if length (msg_Question r) \<noteq> 1
      then Ret ([WriteMsg (reply\<lparr>msg_Rcode := RcodeFormatError\<rparr>)], c, None)
      else
        go_bind (pick env 1 (cc_UpstreamGoogle conf)) (\<lambda>upstream.
        go_bind (IsEdns0 r) (\<lambda>opt.
        let udpSize = (case opt of None \<Rightarrow> 512 | Some (_, h, _) \<Rightarrow> OPT_UDPSize h) in
        go_bind (client_findClientIP env conf r) (\<lambda>addr_mask.
        let requestURL = google_URL upstream (msg_Question r ! 0) (msg_CheckingDisabled r) addr_mask in
        case ce_NewRequest env requestURL of
          Some err \<Rightarrow> Ret ([WriteMsg (reply\<lparr>msg_Rcode := RcodeServerFailure\<rparr>)], c, None)
        | None \<Rightarrow>
            send_request env c
              \<lparr>ho_Method = ''GET'', ho_URL = requestURL,
               ho_Header = [''Accept'' \<mapsto> ''application/json, application/dns-message, application/dns-udpwireformat'',
                            ''User-Agent'' \<mapsto> client_USER_AGENT],
               ho_Body = []\<rparr>
              reply
              (\<lambda>resp. \<lparr>cq_response = resp, cq_reply = reply, cq_udpSize = udpSize,
                       cq_ednsClientAddress = fst addr_mask, cq_ednsClientNetmask = snd addr_mask,
                       cq_currentUpstream = upstream\<rparr>)))))"

text \<open>
  The message that the wire protocol sends: with an OPT record, and with a client subnet in it unless it
  has one or no address is known. The result carries the message, the stub's buffer size and the subnet.
\<close>

definition client_new_OPT :: RR_Header where
  "client_new_OPT =
     OPT_SetDo False (OPT_SetUDPSize DefaultMsgSize (new_OPT_header\<lparr>hdr_Name := ''.'', hdr_Rrtype := TypeOPT\<rparr>))"

definition client_add_subnet :: "client_env \<Rightarrow> client_config \<Rightarrow> Msg \<Rightarrow> (Msg \<times> u16 \<times> net_IP \<times> u8) go" where
  "client_add_subnet env conf r =
     go_bind (IsEdns0 r) (\<lambda>found.
       let (i, h, os, extra, udpSize) =
             (case found of
                Some (i, h, os) \<Rightarrow> (i, h, os, msg_Extra r, OPT_UDPSize h)
              | None \<Rightarrow> (0, client_new_OPT, [], RR_OPT client_new_OPT [] # msg_Extra r, 512));
           r1 = r\<lparr>msg_Extra := extra\<rparr>
       in go_bind (find_SUBNET os) (\<lambda>sub.
            case sub of
              Some s \<Rightarrow> Ret (r1, udpSize, sub_Address s, sub_SourceNetmask s)
            | None \<Rightarrow>
                go_bind (client_findClientIP env conf r1) (\<lambda>(addr, netmask).
                  case addr of
                    None \<Rightarrow> Ret (r1, udpSize, None, netmask)
                  | Some a \<Rightarrow>
                      let (fam, a1, netmask1) =
                            (case To4 a of Some ipv4 \<Rightarrow> (1, ipv4, 24) | None \<Rightarrow> (2, a, 56));
                          e = Opt_SUBNET \<lparr>sub_Code = EDNS0SUBNET, sub_Family = fam, sub_SourceNetmask = netmask1,
                                sub_SourceScope = 0, sub_Address = Some a1\<rparr>
                      in Ret (r1\<lparr>msg_Extra := extra[i := RR_OPT h (os @ [e])]\<rparr>, udpSize, Some a1, netmask1))))"

definition ietf_URL :: "string \<Rightarrow> bytes \<Rightarrow> string" where
  "ietf_URL upstream requestBinary = upstream @ ''?ct=application/dns-message&dns='' @ EncodeToString requestBinary"

definition ietf_request :: "string \<Rightarrow> bytes \<Rightarrow> http_out" where
  "ietf_request upstream requestBinary =
     (let hdr = [''Accept'' \<mapsto> ''application/dns-message, application/dns-udpwireformat, application/json'',
                 ''User-Agent'' \<mapsto> client_USER_AGENT] in
      if length (ietf_URL upstream requestBinary) < 2048
      then \<lparr>ho_Method = ''GET'', ho_URL = ietf_URL upstream requestBinary, ho_Header = hdr, ho_Body = []\<rparr>
      else \<lparr>ho_Method = ''POST'', ho_URL = upstream,
            ho_Header = hdr(''Content-Type'' \<mapsto> ''application/dns-message''), ho_Body = requestBinary\<rparr>)"

definition generateRequestIETF ::
    "client_env \<Rightarrow> Client \<Rightarrow> Msg \<Rightarrow> (dns_out list \<times> Client \<times> creq option) go" where
  "generateRequestIETF env c r =
     (let reply = PrepareReply r; conf = cl_conf c in
      if length (msg_Question r) \<noteq> 1
      then Ret ([WriteMsg (reply\<lparr>msg_Rcode := RcodeFormatError\<rparr>)], c, None)
      else
        go_bind (client_add_subnet env conf r) (\<lambda>(r1, udpSize, addr, netmask).
        case ce_Pack env (r1\<lparr>msg_Id := 0\<rparr>) of
          Inl err \<Rightarrow> Ret ([WriteMsg (reply\<lparr>msg_Rcode := RcodeFormatError\<rparr>)], c, None)
        | Inr requestBinary \<Rightarrow>
            go_bind (pick env 1 (cc_UpstreamIETF conf)) (\<lambda>upstream.
            let out = ietf_request upstream requestBinary in
            case ce_NewRequest env (ho_URL out) of
              Some err \<Rightarrow> Ret ([], c, None)
            | None \<Rightarrow>
                send_request env c out reply
                  (\<lambda>resp. \<lparr>cq_response = resp, cq_reply = reply, cq_udpSize = udpSize,
                           cq_ednsClientAddress = addr, cq_ednsClientNetmask = netmask,
                           cq_currentUpstream = upstream\<rparr>))))"

section \<open>Responses\<close>

text \<open>
  Packing the full reply for the stub: over UDP it is cut to the stub's buffer, with the TC bit set. A slice that
  reaches beyond the second packing counts as a panic.
\<close>

definition write_reply :: "client_env \<Rightarrow> bool \<Rightarrow> creq \<Rightarrow> Msg \<Rightarrow> dns_out list go" where
  "write_reply env isTCP req fullReply =
     (case ce_Pack env fullReply of
        Inl err \<Rightarrow> Ret [WriteMsg ((cq_reply req)\<lparr>msg_Rcode := RcodeServerFailure\<rparr>)]
      | Inr buf \<Rightarrow>
          if \<not> isTCP \<and> length buf > unat (cq_udpSize req)
          then (case ce_Pack env (fullReply\<lparr>msg_Truncated := True\<rparr>) of
                  Inl err \<Rightarrow> Ret []
                | Inr buf1 \<Rightarrow>
                    if unat (cq_udpSize req) \<le> length buf1 then Ret [WriteRaw (take (unat (cq_udpSize req)) buf1)]
                    else Panic ''slice bounds out of range'')
          else Ret [WriteRaw buf])"

text \<open>
  The test on the status that both parsers start with: whether the answer is given up at once. The type
  of the protocol is \<open>ct\<close>.
\<close>

definition give_up :: "string \<Rightarrow> http_response \<Rightarrow> bool" where
  "give_up ct resp \<longleftrightarrow>
     hr_StatusCode resp \<noteq> 200 \<and> hr_Header resp ''Content-Type'' \<noteq> ct \<and>
     \<not> strings_HasPrefix (hr_Header resp ''Content-Type'') (ct @ '';'')"

text \<open>The reply template after that test.\<close>

definition status_reply :: "http_response \<Rightarrow> Msg \<Rightarrow> Msg" where
  "status_reply resp reply = (if hr_StatusCode resp \<noteq> 200 then reply\<lparr>msg_Rcode := RcodeServerFailure\<rparr> else reply)"

definition parseResponseGoogle :: "client_env \<Rightarrow> bool \<Rightarrow> creq \<Rightarrow> dns_out list go" where
  "parseResponseGoogle env isTCP req0 =
     (let resp = cq_response req0;
          req = req0\<lparr>cq_reply := status_reply resp (cq_reply req0)\<rparr>;
          failure = Ret [WriteMsg ((cq_reply req)\<lparr>msg_Rcode := RcodeServerFailure\<rparr>)] in
      if give_up ''application/json'' resp then Ret [WriteMsg (cq_reply req)]
      else case hr_Body resp of
        Inl err \<Rightarrow> failure
      | Inr body \<Rightarrow>
          (case ce_json env body of
             Inl err \<Rightarrow> failure
           | Inr respJSON \<Rightarrow>
               write_reply env isTCP req
                 (Unmarshal (ce_lib env) (ce_time env) (ce_NewRR env) (ce_clock env 0) (cq_reply req) respJSON
                    (cq_udpSize req) (cq_ednsClientNetmask req))))"

definition fixRecordTTL :: "int \<Rightarrow> RR \<Rightarrow> RR" where
  "fixRecordTTL delta rr =
     (let h = Header rr;
          oldTTL = int (unat (hdr_Ttl h)) * Second;
          newTTL = oldTTL - delta
      in set_Header (h\<lparr>hdr_Ttl := (if newTTL > 0 then word_of_int (go_quot newTTL Second) else 0)\<rparr>) rr)"

definition parse_date :: "timelib \<Rightarrow> string \<Rightarrow> int \<Rightarrow> int" where
  "parse_date tm s dflt =
     (if s \<noteq> [] then (case parse_HTTP tm s of Some t \<Rightarrow> t | None \<Rightarrow> dflt) else dflt)"

text \<open>How long the reply has been in caches: the age that the header fields give, never negative.\<close>

definition reply_age :: "client_env \<Rightarrow> http_response \<Rightarrow> int" where
  "reply_age env resp =
     (let now = parse_date (ce_time env) (hr_Header resp ''Date'') (ce_clock env 0);
          lastModified = parse_date (ce_time env) (hr_Header resp ''Last-Modified'') now;
          timeDelta = time_Sub now lastModified
      in if timeDelta < 0 then 0 else timeDelta)"

definition parseResponseIETF :: "client_env \<Rightarrow> bool \<Rightarrow> Msg \<Rightarrow> creq \<Rightarrow> dns_out list go" where
  "parseResponseIETF env isTCP r req0 =
     (let resp = cq_response req0;
          req = req0\<lparr>cq_reply := status_reply resp (cq_reply req0)\<rparr>;
          failure = Ret [WriteMsg ((cq_reply req)\<lparr>msg_Rcode := RcodeServerFailure\<rparr>)] in
      if give_up ''application/dns-message'' resp then Ret [WriteMsg (cq_reply req)]
      else case hr_Body resp of
        Inl err \<Rightarrow> failure
      | Inr body \<Rightarrow>
          (case ce_Unpack env body of
             Inl err \<Rightarrow> failure
           | Inr m \<Rightarrow>
               let delta = reply_age env resp
               in write_reply env isTCP req
                    (m\<lparr>msg_Id := msg_Id r,
                       msg_Answer := map (fixRecordTTL delta) (msg_Answer m),
                       msg_Ns := map (fixRecordTTL delta) (msg_Ns m),
                       msg_Extra := map (\<lambda>rr. if hdr_Rrtype (Header rr) = TypeOPT then rr else fixRecordTTL delta rr)
                                        (msg_Extra m)\<rparr>)))"

section \<open>client.go: the handler\<close>

definition choose_type :: "client_env \<Rightarrow> client_config \<Rightarrow> string" where
  "choose_type env conf =
     (if length (cc_UpstreamIETF conf) = 0 then ''application/dns-json''
      else if length (cc_UpstreamGoogle conf) = 0 then ''application/dns-message''
      else
        let numServers = length (cc_UpstreamGoogle conf) + length (cc_UpstreamIETF conf);
            random = ce_Intn env 0 numServers
        in if random < length (cc_UpstreamGoogle conf) then ''application/dns-json'' else ''application/dns-message'')"

definition content_type :: "string \<Rightarrow> http_response \<Rightarrow> string" where
  "content_type requestType resp =
     (let candidateType = strings_SplitN CHR '';'' 2 (hr_Header resp ''Content-Type'') ! 0 in
      if candidateType = ''application/json'' then ''application/json''
      else if candidateType = ''application/dns-message'' then ''application/dns-message''
      else if candidateType = ''application/dns-udpwireformat'' then ''application/dns-message''
      else if requestType = ''application/dns-json'' then ''application/json''
      else if requestType = ''application/dns-message'' then ''application/dns-message''
      else [])"

definition client_handlerFunc :: "client_env \<Rightarrow> Client \<Rightarrow> Msg \<Rightarrow> bool \<Rightarrow> (dns_out list \<times> Client) go" where
  "client_handlerFunc env c r isTCP =
     (if msg_Response r then Ret ([], c)
      else
        let requestType = choose_type env (cl_conf c) in
        go_bind (if requestType = ''application/dns-json'' then generateRequestGoogle env c r
                 else if requestType = ''application/dns-message'' then generateRequestIETF env c r
                 else Panic ''Unknown request Content-Type'') (\<lambda>(outs, c1, req).
        case req of
          None \<Rightarrow> Ret (outs, c1)
        | Some q \<Rightarrow>
            let contentType = content_type requestType (cq_response q) in
            if contentType = ''application/json'' 
            then go_bind (parseResponseGoogle env isTCP q) (\<lambda>ws. Ret (outs @ ws, c1))
            else if contentType = ''application/dns-message''
            then go_bind (parseResponseIETF env isTCP r q) (\<lambda>ws. Ret (outs @ ws, c1))
            else Panic ''Unknown response Content-Type''))"

definition udpHandlerFunc :: "client_env \<Rightarrow> Client \<Rightarrow> Msg \<Rightarrow> (dns_out list \<times> Client) go" where
  "udpHandlerFunc env c r = client_handlerFunc env c r False"

definition tcpHandlerFunc :: "client_env \<Rightarrow> Client \<Rightarrow> Msg \<Rightarrow> (dns_out list \<times> Client) go" where
  "tcpHandlerFunc env c r = client_handlerFunc env c r True"

text \<open>What a server of the client does with a query.\<close>

definition serve_dns :: "client_env \<Rightarrow> Client \<Rightarrow> dns_Server \<Rightarrow> Msg \<Rightarrow> (dns_out list \<times> Client) go" where
  "serve_dns env c srv r =
     (case ds_Handler srv of UdpHandler \<Rightarrow> udpHandlerFunc env c r | TcpHandler \<Rightarrow> tcpHandlerFunc env c r)"

section \<open>Lemmas\<close>

definition client_rand_ok :: "client_env \<Rightarrow> bool" where
  "client_rand_ok env \<longleftrightarrow> (\<forall>i n. 0 < n \<longrightarrow> ce_Intn env i n < n)"

definition client_config_ok :: "client_config \<Rightarrow> bool" where
  "client_config_ok c \<longleftrightarrow> cc_Listen c \<noteq> [] \<and> (cc_UpstreamGoogle c \<noteq> [] \<or> cc_UpstreamIETF c \<noteq> []) \<and> cc_Timeout c \<noteq> 0"

lemma client_defaults_ok: "client_config_ok (client_defaults c)"
  unfolding client_config_ok_def by (simp add: client_defaults_def)

lemma client_loadConfig_ok: "client_loadConfig lib D path = Inr c \<Longrightarrow> client_config_ok c"
  by (auto simp: client_loadConfig_def client_defaults_ok split: sum.splits list.splits)

lemma pick_ok: "client_rand_ok env \<Longrightarrow> xs \<noteq> [] \<Longrightarrow> \<exists>x\<in>set xs. pick env i xs = Ret x"
  by (auto simp: pick_def client_rand_ok_def not_le)

subsection \<open>No panics\<close>

lemma IsEdns0_obtain:
  assumes "msg_typed r"
  obtains (none) "IsEdns0 r = Ret None"
    | (some) i h os sub where "IsEdns0 r = Ret (Some (i, h, os))" "find_SUBNET os = Ret sub"
proof -
  obtain found where f: "IsEdns0 r = Ret found" using IsEdns0_typed [OF assms] by (auto simp: no_panic_iff)
  show thesis
  proof (cases found)
    case None
    then show thesis using none f by simp
  next
    case (Some ihos)
    then obtain i h os where e: "IsEdns0 r = Ret (Some (i, h, os))" using f by (cases ihos) auto
    then have "RR_OPT h os \<in> set (msg_Extra r)" by (metis IsEdns0_Some nth_mem)
    then have "no_panic (find_SUBNET os)"
      using assms find_SUBNET_typed by (auto simp: msg_typed_def list_all_iff opt_typed_def)
    then show thesis using some e by (auto simp: no_panic_iff)
  qed
qed

lemma client_findClientIP_typed:
  assumes "msg_typed r"
  shows "\<exists>a n. client_findClientIP env conf r = Ret (a, n)"
proof -
  have "no_panic (client_findClientIP env conf r)"
  proof (cases "cc_NoECS conf")
    case True
    then show ?thesis by (simp add: client_findClientIP_def)
  next
    case False
    from assms show ?thesis
    proof (cases rule: IsEdns0_obtain)
      case none
      with False show ?thesis
        by (auto simp: client_findClientIP_def no_panic_def split: sum.splits option.splits)
    next
      case (some i h os sub)
      with False show ?thesis
        by (cases sub) (auto simp: client_findClientIP_def no_panic_def split: sum.splits option.splits)
    qed
  qed
  then show ?thesis by (auto simp: no_panic_iff)
qed

lemma client_new_OPT_type: "hdr_Rrtype client_new_OPT = TypeOPT"
  by (simp add: client_new_OPT_def)

definition stub_size :: "Msg \<Rightarrow> u16" where
  "stub_size r = (case IsEdns0 r of Ret (Some (_, h, _)) \<Rightarrow> OPT_UDPSize h | _ \<Rightarrow> 512)"

lemma client_add_subnet_typed:
  assumes "msg_typed r"
  shows "\<exists>r1 a n. client_add_subnet env conf r = Ret (r1, stub_size r, a, n)"
  using assms
proof (cases rule: IsEdns0_obtain)
  case none
  let ?r1 = "r\<lparr>msg_Extra := RR_OPT client_new_OPT [] # msg_Extra r\<rparr>"
  have "msg_typed ?r1" using assms by (simp add: msg_typed_def opt_typed_def client_new_OPT_type)
  then obtain a n where "client_findClientIP env conf ?r1 = Ret (a, n)" using client_findClientIP_typed by blast
  with none show ?thesis
    by (cases a) (simp_all add: client_add_subnet_def stub_size_def split: option.splits)
next
  case (some i h os sub)
  obtain a n where "client_findClientIP env conf r = Ret (a, n)" using client_findClientIP_typed [OF assms] by blast
  with some show ?thesis
    by (cases sub; cases a) (simp_all add: client_add_subnet_def stub_size_def split: option.splits)
qed


subsection \<open>What the handler writes\<close>

text \<open>A failure message: the stub's identifier and question, marked as a response, with the code for a
  format error or a server failure.\<close>

definition answers :: "Msg \<Rightarrow> Msg \<Rightarrow> bool" where
  "answers r m \<longleftrightarrow> msg_Id m = msg_Id r \<and> msg_Response m \<and> msg_Question m = msg_Question r \<and>
     msg_Rcode m \<in> {RcodeFormatError, RcodeServerFailure}"

lemma answers_PrepareReply [simp]: "answers r (PrepareReply r)"
  by (simp add: answers_def PrepareReply_def)

lemma answers_Rcode [simp]:
  "answers r m \<Longrightarrow> answers r (m\<lparr>msg_Rcode := RcodeServerFailure\<rparr>)"
  "answers r m \<Longrightarrow> answers r (m\<lparr>msg_Rcode := RcodeFormatError\<rparr>)"
  by (simp_all add: answers_def)

lemma answers_status_reply [simp]: "answers r m \<Longrightarrow> answers r (status_reply resp m)"
  by (simp add: status_reply_def)

text \<open>An acceptable output: a failure message, or a packed message with the stub's identifier that, over
  UDP, fits the stub's buffer.\<close>

definition out_ok :: "client_env \<Rightarrow> bool \<Rightarrow> Msg \<Rightarrow> dns_out \<Rightarrow> bool" where
  "out_ok env isTCP r out \<longleftrightarrow>
     (case out of
        WriteMsg m \<Rightarrow> answers r m
      | WriteRaw b \<Rightarrow>
          (\<exists>m buf. msg_Id m = msg_Id r \<and> ce_Pack env m = Inr buf \<and>
             (b = buf \<or> \<not> isTCP \<and> msg_Truncated m \<and> b = take (unat (stub_size r)) buf)) \<and>
          (\<not> isTCP \<longrightarrow> length b \<le> unat (stub_size r)))"

text \<open>A reply that packs as it is, is too long for the stub, and does not pack with the TC bit set.\<close>

definition cut_fails :: "client_env \<Rightarrow> Msg \<Rightarrow> bool" where
  "cut_fails env r \<longleftrightarrow>
     (\<exists>m buf err. msg_Id m = msg_Id r \<and> ce_Pack env m = Inr buf \<and> unat (stub_size r) < length buf \<and>
        ce_Pack env (m\<lparr>msg_Truncated := True\<rparr>) = Inl err)"

text \<open>One acceptable output, or none over UDP when the reply cannot be cut.\<close>

definition outs_ok :: "client_env \<Rightarrow> bool \<Rightarrow> Msg \<Rightarrow> dns_out list \<Rightarrow> bool" where
  "outs_ok env isTCP r outs \<longleftrightarrow>
     (case outs of [] \<Rightarrow> \<not> isTCP \<and> cut_fails env r | out # rest \<Rightarrow> rest = [] \<and> out_ok env isTCP r out)"

lemma outs_ok_simps [simp]:
  "outs_ok env isTCP r [] = (\<not> isTCP \<and> cut_fails env r)"
  "outs_ok env isTCP r [out] = out_ok env isTCP r out"
  "out_ok env isTCP r (WriteMsg m) = answers r m"
  by (simp_all add: outs_ok_def out_ok_def)

text \<open>The TC bit does not change the size of a packed message.\<close>

definition tc_size :: "client_env \<Rightarrow> bool" where
  "tc_size env \<longleftrightarrow> (\<forall>m buf buf1. ce_Pack env m = Inr buf \<longrightarrow> ce_Pack env (m\<lparr>msg_Truncated := True\<rparr>) = Inr buf1 \<longrightarrow>
     length buf1 = length buf)"

definition writes_ok :: "client_env \<Rightarrow> bool \<Rightarrow> Msg \<Rightarrow> dns_out list go \<Rightarrow> bool" where
  "writes_ok env isTCP r m \<longleftrightarrow> (case m of Ret outs \<Rightarrow> outs_ok env isTCP r outs | Panic _ \<Rightarrow> False)"

lemma writes_ok_Ret [simp]: "writes_ok env isTCP r (Ret outs) = outs_ok env isTCP r outs"
  by (simp add: writes_ok_def)

lemma writes_okE: "writes_ok env isTCP r m \<Longrightarrow> (\<And>outs. m = Ret outs \<Longrightarrow> outs_ok env isTCP r outs \<Longrightarrow> P) \<Longrightarrow> P"
  by (cases m) (auto simp: writes_ok_def)

lemma write_reply_ok:
  assumes "msg_Id m = msg_Id r" and "answers r (cq_reply q)" and "cq_udpSize q = stub_size r" and "tc_size env"
  shows "writes_ok env isTCP r (write_reply env isTCP q m)"
proof (cases "ce_Pack env m")
  case (Inl e)
  then show ?thesis using assms by (simp add: write_reply_def)
next
  case (Inr buf)
  show ?thesis
  proof (cases "\<not> isTCP \<and> length buf > unat (cq_udpSize q)")
    case True
    have "msg_Id (m\<lparr>msg_Truncated := True\<rparr>) = msg_Id r" "msg_Truncated (m\<lparr>msg_Truncated := True\<rparr>)"
      using assms(1) by simp_all
    then have "out_ok env isTCP r (WriteRaw (take (unat (stub_size r)) buf1))"
      if "ce_Pack env (m\<lparr>msg_Truncated := True\<rparr>) = Inr buf1" for buf1
      using that True unfolding out_ok_def dns_out.case by (metis length_take min.cobounded2)
    moreover have "unat (stub_size r) \<le> length buf1" if "ce_Pack env (m\<lparr>msg_Truncated := True\<rparr>) = Inr buf1" for buf1
    proof -
      have "length buf1 = length buf" using assms(4) Inr that unfolding tc_size_def by blast
      then show ?thesis using True assms(3) by simp
    qed
    moreover have "cut_fails env r" if "ce_Pack env (m\<lparr>msg_Truncated := True\<rparr>) = Inl err" for err
      unfolding cut_fails_def using that True Inr assms(1,3) by metis
    ultimately show ?thesis using True Inr assms(3)
      by (auto simp: write_reply_def split: sum.splits)
  next
    case False
    then have "out_ok env isTCP r (WriteRaw buf)"
      using assms Inr by (auto simp: out_ok_def)
    moreover have "write_reply env isTCP q m = Ret [WriteRaw buf]" using False Inr by (auto simp: write_reply_def)
    ultimately show ?thesis by simp
  qed
qed

text \<open>The packet that carries a message to the stub: over UDP one that is longer than the stub's buffer is cut to
  it, and has the TC bit set. It exists if the message packs, with and without that bit.\<close>

definition sent_packet :: "client_env \<Rightarrow> bool \<Rightarrow> u16 \<Rightarrow> Msg \<Rightarrow> bytes \<Rightarrow> bool" where
  "sent_packet env isTCP udpSize m p \<longleftrightarrow>
     (\<exists>buf. ce_Pack env m = Inr buf \<and>
        (if isTCP \<or> length buf \<le> unat udpSize then p = buf
         else \<exists>buf1. ce_Pack env (m\<lparr>msg_Truncated := True\<rparr>) = Inr buf1 \<and> p = take (unat udpSize) buf1))"

definition packs :: "client_env \<Rightarrow> Msg \<Rightarrow> bool" where
  "packs env m \<longleftrightarrow>
     (\<exists>buf buf1. ce_Pack env m = Inr buf \<and> ce_Pack env (m\<lparr>msg_Truncated := True\<rparr>) = Inr buf1 \<and> length buf1 = length buf)"

lemma write_reply_sent:
  "packs env m \<Longrightarrow> \<exists>p. write_reply env isTCP q m = Ret [WriteRaw p] \<and> sent_packet env isTCP (cq_udpSize q) m p"
  unfolding packs_def
proof (elim exE conjE)
  fix buf buf1
  assume "ce_Pack env m = Inr buf" "ce_Pack env (m\<lparr>msg_Truncated := True\<rparr>) = Inr buf1" "length buf1 = length buf"
  then show ?thesis
    by (cases "isTCP \<or> length buf \<le> unat (cq_udpSize q)") (auto simp: write_reply_def sent_packet_def)
qed

lemma parseResponseGoogle_ok:
  assumes "answers r (cq_reply q)" and "cq_udpSize q = stub_size r" and "tc_size env"
  shows "writes_ok env isTCP r (parseResponseGoogle env isTCP q)"
proof -
  have "writes_ok env isTCP r (write_reply env isTCP (q\<lparr>cq_reply := status_reply (cq_response q) (cq_reply q)\<rparr>)
      (Unmarshal (ce_lib env) (ce_time env) (ce_NewRR env) (ce_clock env 0) (status_reply (cq_response q) (cq_reply q)) x u n))"
    for x u n
    using assms by (intro write_reply_ok) (simp_all add: Unmarshal_sel, simp_all add: status_reply_def answers_def)
  then show ?thesis using assms by (auto simp: parseResponseGoogle_def Let_def split: sum.splits)
qed

lemma parseResponseIETF_ok:
  assumes "answers r (cq_reply q)" and "cq_udpSize q = stub_size r" and "tc_size env"
  shows "writes_ok env isTCP r (parseResponseIETF env isTCP r q)"
proof -
  have "writes_ok env isTCP r (write_reply env isTCP (q\<lparr>cq_reply := status_reply (cq_response q) (cq_reply q)\<rparr>) m)"
    if "msg_Id m = msg_Id r" for m
    using assms that by (intro write_reply_ok) simp_all
  then show ?thesis using assms by (auto simp: parseResponseIETF_def Let_def split: sum.splits)
qed

subsection \<open>The generators\<close>

text \<open>The one case in which a generator gives up without a reply: no HTTP request can be made of the URL with the
  packed query. The other failures are answered.\<close>

definition url_refused :: "client_env \<Rightarrow> Client \<Rightarrow> Msg \<Rightarrow> bool" where
  "url_refused env c r \<longleftrightarrow>
     choose_type env (cl_conf c) = ''application/dns-message'' \<and> length (msg_Question r) = 1 \<and>
     (\<exists>r1 udpSize addr netmask bin up. client_add_subnet env (cl_conf c) r = Ret (r1, udpSize, addr, netmask) \<and>
        ce_Pack env (r1\<lparr>msg_Id := 0\<rparr>) = Inr bin \<and> pick env 1 (cc_UpstreamIETF (cl_conf c)) = Ret up \<and>
        ce_NewRequest env (ho_URL (ietf_request up bin)) \<noteq> None)"

text \<open>What a generator returns; \<open>silent\<close> says that it writes nothing and asks nothing.\<close>

definition gen_ok :: "client_env \<Rightarrow> Msg \<Rightarrow> bool \<Rightarrow> dns_out list \<times> Client \<times> creq option \<Rightarrow> bool" where
  "gen_ok env r silent res \<longleftrightarrow>
     (case res of (outs, c1, req) \<Rightarrow>
        case req of
          None \<Rightarrow> if silent then outs = [] else \<exists>m. outs = [WriteMsg m] \<and> answers r m
        | Some q \<Rightarrow> \<not> silent \<and> outs = [] \<and> answers r (cq_reply q) \<and> cq_udpSize q = stub_size r \<and>
            (\<exists>out. ce_Do env out = Inr (cq_response q)))"

definition gen_returns :: "client_env \<Rightarrow> Msg \<Rightarrow> bool \<Rightarrow> (dns_out list \<times> Client \<times> creq option) go \<Rightarrow> bool" where
  "gen_returns env r silent m \<longleftrightarrow> (case m of Ret res \<Rightarrow> gen_ok env r silent res | Panic _ \<Rightarrow> False)"

lemma gen_returns_Ret [simp]: "gen_returns env r silent (Ret res) = gen_ok env r silent res"
  by (simp add: gen_returns_def)

lemma gen_returnsE:
  "gen_returns env r silent m \<Longrightarrow> (\<And>outs c req. m = Ret (outs, c, req) \<Longrightarrow> gen_ok env r silent (outs, c, req) \<Longrightarrow> P) \<Longrightarrow> P"
  by (cases m) (auto simp: gen_returns_def)

lemma newHTTPClient_configured: "ce_ConfigureTransport env = None \<Longrightarrow> fst (newHTTPClient env c) = None"
  by (simp add: newHTTPClient_def Let_def)

text \<open>Renewing the transport leaves everything else as it was.\<close>

definition client_params :: "Client \<Rightarrow> client_config \<times> string list \<times> dns_Server list \<times> net_Resolver \<times> bool" where
  "client_params c = (cl_conf c, cl_bootstrap c, client_servers c, cl_bootstrapResolver c, cl_cookieJar c)"

lemma newHTTPClient_params [simp]: "client_params (snd (newHTTPClient env c)) = client_params c"
  by (simp add: newHTTPClient_def client_params_def client_servers_def Let_def split: option.split)

lemma newHTTPClient_conf: "cl_conf (snd (newHTTPClient env c)) = cl_conf c"
  using newHTTPClient_params [of env c] by (simp add: client_params_def)

lemma NewClient_obtain:
  assumes "NewClient env conf = Inr c"
  obtains bootstrap resolver where "newHTTPClient env (bare_Client conf bootstrap resolver) = (None, c)"
    "(if cc_Bootstrap conf = [] then (bootstrap, resolver) = ([], DefaultResolver)
      else resolve_bootstrap (ce_ResolveUDPAddr env) (cc_Bootstrap conf) = Inr bootstrap \<and> resolver = DialResolver bootstrap)"
  using assms by (auto simp: NewClient_def split: sum.splits if_splits option.splits prod.splits)

lemma NewClient_conf:
  assumes "NewClient env conf = Inr c"
  shows "cl_conf c = conf"
  using assms
proof (rule NewClient_obtain)
  fix b r
  assume "newHTTPClient env (bare_Client conf b r) = (None, c)"
  then show "cl_conf c = conf" using newHTTPClient_conf [of env "bare_Client conf b r"] by (simp add: bare_Client_def)
qed

lemma client_main_config:
  assumes "client_main env DecodeFile path verbose = Inr c"
  shows "client_config_ok (cl_conf c)"
proof -
  obtain conf where l: "client_loadConfig (ce_lib env) DecodeFile path = Inr conf"
    and n: "NewClient env (if verbose then conf\<lparr>cc_Verbose := True\<rparr> else conf) = Inr c"
    using assms by (auto simp: client_main_def split: sum.splits)
  have "client_config_ok (if verbose then conf\<lparr>cc_Verbose := True\<rparr> else conf)"
    using client_loadConfig_ok [OF l] by (simp add: client_config_ok_def)
  moreover have "cl_conf c = (if verbose then conf\<lparr>cc_Verbose := True\<rparr> else conf)"
    using n by (rule NewClient_conf)
  ultimately show ?thesis by simp
qed

lemma send_request_ok:
  assumes "ce_ConfigureTransport env = None" and "answers r reply"
    and "\<And>resp. answers r (cq_reply (mk resp)) \<and> cq_udpSize (mk resp) = stub_size r \<and> cq_response (mk resp) = resp"
  shows "gen_returns env r False (send_request env c out reply mk)"
proof -
  obtain c1 where "newHTTPClient env c = (None, c1)"
    using newHTTPClient_configured [OF assms(1), of c] by (metis prod.collapse)
  then show ?thesis using assms(2,3) by (auto simp: send_request_def gen_ok_def split: sum.splits)
qed

lemma generateRequestGoogle_ok:
  assumes "msg_typed r" and "client_rand_ok env" and "ce_ConfigureTransport env = None"
    and "cc_UpstreamGoogle (cl_conf c) \<noteq> []"
  shows "gen_returns env r False (generateRequestGoogle env c r)"
proof (cases "length (msg_Question r) = 1")
  case False
  then show ?thesis by (auto simp: generateRequestGoogle_def gen_ok_def Let_def)
next
  case True
  obtain up where up: "pick env 1 (cc_UpstreamGoogle (cl_conf c)) = Ret up" using pick_ok [OF assms(2,4)] by blast
  obtain a n where a: "client_findClientIP env (cl_conf c) r = Ret (a, n)"
    using client_findClientIP_typed [OF assms(1)] by blast
  obtain opt where o: "IsEdns0 r = Ret opt" using IsEdns0_typed [OF assms(1)] by (auto simp: no_panic_iff)
  have u: "(case opt of None \<Rightarrow> 512 | Some (_, h, _) \<Rightarrow> OPT_UDPSize h) = stub_size r"
    by (simp add: stub_size_def o split: option.splits)
  show ?thesis
  proof (cases "ce_NewRequest env (google_URL up (msg_Question r ! 0) (msg_CheckingDisabled r) (a, n))")
    case None
    then show ?thesis using True up a o u
      by (simp add: generateRequestGoogle_def Let_def) (rule send_request_ok, simp_all add: assms(3))
  next
    case (Some e)
    then show ?thesis using True up a o by (simp add: generateRequestGoogle_def Let_def gen_ok_def)
  qed
qed

lemma generateRequestIETF_ok:
  assumes "msg_typed r" and "client_rand_ok env" and "ce_ConfigureTransport env = None"
    and "cc_UpstreamIETF (cl_conf c) \<noteq> []" and t: "choose_type env (cl_conf c) = ''application/dns-message''"
  shows "gen_returns env r (url_refused env c r) (generateRequestIETF env c r)"
proof (cases "length (msg_Question r) = 1")
  case False
  then show ?thesis by (auto simp: generateRequestIETF_def gen_ok_def url_refused_def Let_def)
next
  case True
  obtain up where up: "pick env 1 (cc_UpstreamIETF (cl_conf c)) = Ret up" using pick_ok [OF assms(2,4)] by blast
  obtain r1 a n where a: "client_add_subnet env (cl_conf c) r = Ret (r1, stub_size r, a, n)"
    using client_add_subnet_typed [OF assms(1)] by blast
  show ?thesis
  proof (cases "ce_Pack env (r1\<lparr>msg_Id := 0\<rparr>)")
    case Inl
    then have "\<not> url_refused env c r" using a by (simp add: url_refused_def)
    then show ?thesis using True a Inl by (simp add: generateRequestIETF_def Let_def gen_ok_def)
  next
    case (Inr bin)
    have refused: "url_refused env c r \<longleftrightarrow> ce_NewRequest env (ho_URL (ietf_request up bin)) \<noteq> None"
      using True t a up Inr by (simp add: url_refused_def)
    show ?thesis
    proof (cases "ce_NewRequest env (ho_URL (ietf_request up bin))")
      case None
      then show ?thesis unfolding refused using True up a Inr
        by (simp add: generateRequestIETF_def Let_def) (rule send_request_ok, simp_all add: assms(3))
    next
      case (Some e)
      then show ?thesis unfolding refused using True up a Inr by (simp add: generateRequestIETF_def Let_def gen_ok_def)
    qed
  qed
qed

lemma content_type_cases:
  "rt \<in> {''application/dns-json'', ''application/dns-message''} \<Longrightarrow>
     content_type rt resp = ''application/json'' \<or> content_type rt resp = ''application/dns-message''"
  by (auto simp: content_type_def Let_def)

lemma choose_type_cases: "choose_type env conf \<in> {''application/dns-json'', ''application/dns-message''}"
  by (auto simp: choose_type_def Let_def)

text \<open>A query without a single question is answered with a format error.\<close>

lemma client_handler_questions:
  assumes "\<not> msg_Response r" and "length (msg_Question r) \<noteq> 1"
  shows "client_handlerFunc env c r isTCP = Ret ([WriteMsg ((PrepareReply r)\<lparr>msg_Rcode := RcodeFormatError\<rparr>)], c)"
  using assms choose_type_cases [of env "cl_conf c"]
  by (auto simp: client_handlerFunc_def generateRequestGoogle_def generateRequestIETF_def Let_def)

lemma client_handler_ok:
  assumes "msg_typed r" and "client_rand_ok env" and "ce_ConfigureTransport env = None"
    and "client_config_ok (cl_conf c)" and "tc_size env"
  shows "\<exists>outs c'. client_handlerFunc env c r isTCP = Ret (outs, c') \<and>
    (if msg_Response r \<or> url_refused env c r then outs = []
     else outs_ok env isTCP r outs \<and> (outs = [] \<or> (\<exists>b. outs = [WriteRaw b]) \<longrightarrow> (\<exists>out resp. ce_Do env out = Inr resp)))"
proof (cases "msg_Response r")
  case True
  then show ?thesis by (simp add: client_handlerFunc_def)
next
  case False
  let ?t = "choose_type env (cl_conf c)" and ?s = "url_refused env c r"
  note t = choose_type_cases [of env "cl_conf c"]
  have up: "if ?t = ''application/dns-json'' then cc_UpstreamGoogle (cl_conf c) \<noteq> [] else cc_UpstreamIETF (cl_conf c) \<noteq> []"
    using assms(4) by (auto simp: choose_type_def client_config_ok_def Let_def)
  obtain outs c1 req where g: "(if ?t = ''application/dns-json'' then generateRequestGoogle env c r
      else generateRequestIETF env c r) = Ret (outs, c1, req)" and ok: "gen_ok env r ?s (outs, c1, req)"
  proof (cases "?t = ''application/dns-json''")
    case True
    then have "\<not> ?s" by (simp add: url_refused_def)
    then show thesis using generateRequestGoogle_ok [OF assms(1-3), of c] up True that by (auto elim!: gen_returnsE)
  next
    case False
    then show thesis using generateRequestIETF_ok [OF assms(1-3), of c] up t that by (auto elim!: gen_returnsE)
  qed
  have h: "client_handlerFunc env c r isTCP =
      (case req of None \<Rightarrow> Ret (outs, c1)
       | Some q \<Rightarrow> if content_type ?t (cq_response q) = ''application/json''
           then go_bind (parseResponseGoogle env isTCP q) (\<lambda>ws. Ret (outs @ ws, c1))
           else go_bind (parseResponseIETF env isTCP r q) (\<lambda>ws. Ret (outs @ ws, c1)))"
  proof -
    have "(if ?t = ''application/dns-json'' then generateRequestGoogle env c r
        else if ?t = ''application/dns-message'' then generateRequestIETF env c r
        else Panic ''Unknown request Content-Type'') = Ret (outs, c1, req)"
      using g t by auto
    then show ?thesis
      using False content_type_cases [OF t] by (auto simp: client_handlerFunc_def Let_def split: option.splits)
  qed
  show ?thesis
  proof (cases req)
    case None
    with ok h False show ?thesis by (auto simp: gen_ok_def split: if_splits)
  next
    case (Some q)
    with ok have q: "outs = []" "answers r (cq_reply q)" "cq_udpSize q = stub_size r" "\<not> ?s"
      "\<exists>out resp. ce_Do env out = Inr resp" by (auto simp: gen_ok_def)
    have "writes_ok env isTCP r (if content_type ?t (cq_response q) = ''application/json''
        then parseResponseGoogle env isTCP q else parseResponseIETF env isTCP r q)"
      using parseResponseGoogle_ok [OF q(2,3) assms(5)] parseResponseIETF_ok [OF q(2,3) assms(5)] by simp
    then show ?thesis using h Some False q(1,4,5) by (auto elim!: writes_okE split: if_splits)
  qed
qed

subsection \<open>Time to live\<close>

lemma Header_set_Header [simp]: "Header (set_Header h rr) = h"
  by (cases rr) simp_all

lemma fixRecordTTL_exact:
  assumes "0 \<le> delta"
  shows "int (unat (hdr_Ttl (Header (fixRecordTTL delta rr)))) =
    max 0 ((int (unat (hdr_Ttl (Header rr))) * Second - delta) div Second)"
proof -
  let ?t = "int (unat (hdr_Ttl (Header rr)))"
  have t: "?t < 2 ^ 32" using unsigned_less [of "hdr_Ttl (Header rr)", where ?'a = int] by simp
  show ?thesis
  proof (cases "?t * Second - delta > 0")
    case True
    have q: "go_quot (?t * Second - delta) Second = (?t * Second - delta) div Second"
      using True by (simp add: go_quot_nonneg)
    have "0 \<le> (?t * Second - delta) div Second" using True by (simp add: pos_imp_zdiv_nonneg_iff)
    moreover have "(?t * Second - delta) div Second \<le> ?t * Second div Second"
      using assms by (intro zdiv_mono1) simp_all
    then have "(?t * Second - delta) div Second < 2 ^ 32" using t by (simp add: Second_def)
    ultimately show ?thesis using True q by (simp add: fixRecordTTL_def Let_def uint_word_of_int)
  next
    case False
    then have "(?t * Second - delta) div Second \<le> 0"
      using zdiv_mono1 [of "?t * Second - delta" 0 Second] by simp
    with False show ?thesis by (simp add: fixRecordTTL_def Let_def)
  qed
qed

lemma reply_age_nonneg: "0 \<le> reply_age env resp"
  by (simp add: reply_age_def Let_def)

text \<open>The moment that a header field gives, and the age of a reply by its fields: the time between \<^verbatim>\<open>Last-Modified\<close> and \<^verbatim>\<open>Date\<close>, with
  the local clock in place of a missing date, and never negative.\<close>

definition field_time :: "timelib \<Rightarrow> string \<Rightarrow> int option" where
  "field_time tm s = (if s = [] then None else parse_HTTP tm s)"

definition cached_for :: "client_env \<Rightarrow> http_response \<Rightarrow> int" where
  "cached_for env resp =
     (let date = (case field_time (ce_time env) (hr_Header resp ''Date'') of Some t \<Rightarrow> t | None \<Rightarrow> ce_clock env 0)
      in case field_time (ce_time env) (hr_Header resp ''Last-Modified'') of
           Some modified \<Rightarrow> max 0 (date - modified) | None \<Rightarrow> 0)"

text \<open>A record with what is left of its TTL after \<open>age\<close> nanoseconds, in whole seconds.\<close>

definition aged_record :: "int \<Rightarrow> RR \<Rightarrow> RR \<Rightarrow> bool" where
  "aged_record age rr rr' \<longleftrightarrow>
     (\<exists>ttl. rr' = set_Header ((Header rr)\<lparr>hdr_Ttl := ttl\<rparr>) rr \<and>
        int (unat ttl) = max 0 ((int (unat (hdr_Ttl (Header rr))) * Second - age) div Second))"

lemma aged_recordD:
  assumes "aged_record age rr rr'"
  shows "rr' = set_Header ((Header rr)\<lparr>hdr_Ttl := word_of_int (max 0 ((int (unat (hdr_Ttl (Header rr))) * Second - age) div Second))\<rparr>) rr"
proof -
  obtain ttl where "rr' = set_Header ((Header rr)\<lparr>hdr_Ttl := ttl\<rparr>) rr"
    and t: "int (unat ttl) = max 0 ((int (unat (hdr_Ttl (Header rr))) * Second - age) div Second)"
    using assms by (auto simp: aged_record_def)
  moreover have "ttl = word_of_int (max 0 ((int (unat (hdr_Ttl (Header rr))) * Second - age) div Second))"
    unfolding t [symmetric] by simp
  ultimately show ?thesis by simp
qed

lemma reply_age_cached:
  "reply_age env resp = min maxDuration (cached_for env resp)"
proof -
  have p: "parse_date tm f d = (case field_time tm f of Some t \<Rightarrow> t | None \<Rightarrow> d)" for tm f d
    by (simp add: parse_date_def field_time_def)
  have m: "0 \<le> maxDuration" "minDuration < 0" by (simp_all add: maxDuration_def minDuration_def)
  have s: "(if time_Sub a b < 0 then 0 else time_Sub a b) = min maxDuration (max 0 (a - b))" for a b
    using m by (auto simp: time_Sub_def min_def max_def)
  show ?thesis using m s by (simp add: reply_age_def cached_for_def p Let_def split: option.split)
qed

lemma fixRecordTTL_aged: "aged_record (cached_for env resp) rr (fixRecordTTL (reply_age env resp) rr)"
proof -
  let ?t = "hdr_Ttl (Header rr)" and ?a = "cached_for env resp"
  let ?h = "Header (fixRecordTTL (reply_age env resp) rr)"
  note ex = fixRecordTTL_exact [OF reply_age_nonneg [of env resp], of rr]
  have t: "int (unat ?t) * Second < maxDuration"
    using unsigned_less [of ?t, where ?'a = int] by (simp add: Second_def maxDuration_def)
  have "max 0 ((int (unat ?t) * Second - reply_age env resp) div Second) = max 0 ((int (unat ?t) * Second - ?a) div Second)"
  proof (cases "?a \<le> maxDuration")
    case False
    have "x div Second < 0" if "x < 0" for x using that by (simp add: pos_imp_zdiv_neg_iff)
    then have "(int (unat ?t) * Second - maxDuration) div Second < 0" "(int (unat ?t) * Second - ?a) div Second < 0"
      using t False by simp_all
    then show ?thesis using False by (simp add: reply_age_cached)
  qed (simp add: reply_age_cached)
  with ex have "int (unat (hdr_Ttl ?h)) = max 0 ((int (unat ?t) * Second - ?a) div Second)" by simp
  moreover have "fixRecordTTL (reply_age env resp) rr = set_Header ((Header rr)\<lparr>hdr_Ttl := hdr_Ttl ?h\<rparr>) rr"
    by (simp add: fixRecordTTL_def Let_def)
  ultimately show ?thesis unfolding aged_record_def by blast
qed

lemma fixRecordTTL_section: "list_all2 (aged_record (cached_for env resp)) rrs (map (fixRecordTTL (reply_age env resp)) rrs)"
  by (induction rrs) (simp_all add: fixRecordTTL_aged)

lemma fixRecordTTL_extra:
  "list_all2 (\<lambda>rr rr'. if hdr_Rrtype (Header rr) = TypeOPT then rr' = rr else aged_record (cached_for env resp) rr rr') rrs
     (map (\<lambda>rr. if hdr_Rrtype (Header rr) = TypeOPT then rr else fixRecordTTL (reply_age env resp) rr) rrs)"
  by (induction rrs) (simp_all add: fixRecordTTL_aged)

subsection \<open>Subnets\<close>

text \<open>What of the stub's address may leave the client: the first 24 bits of a global IPv4 address, the first 56 bits of
  a global IPv6 address, and nothing of another one.\<close>

definition disclosed_prefix :: "string + net_IP \<Rightarrow> bytes option" where
  "disclosed_prefix addr =
     (case addr of
        Inr (Some ip) \<Rightarrow>
          if IsGlobalIP (Some ip) then Some (case To4 ip of Some p \<Rightarrow> take 3 p | None \<Rightarrow> take 7 ip) else None
      | _ \<Rightarrow> None)"

definition stub_addr :: "string + net_IP \<Rightarrow> bool" where
  "stub_addr addr \<longleftrightarrow> (case addr of Inr (Some ip) \<Rightarrow> ip_bytes ip | _ \<Rightarrow> True)"

lemma mask24: "length p = 4 \<Longrightarrow> IP_Mask p ipv4Mask24 = Some (take 3 p @ [0])"
proof -
  assume l: "length p = 4"
  have mask24: "cidr_bytes 4 24 = [255, 255, 255, 0]" by code_simp
  have "IP_Mask p ipv4Mask24 = Some (map2 (AND) p (cidr_bytes 4 24))"
    using l by (simp add: IP_Mask_def ipv4Mask24_def mask24 Let_def)
  also have "map2 (AND) p (cidr_bytes 4 24) = take 3 p @ [0]" using and_cidr_prefix [of p 4 3] l by simp
  finally show ?thesis .
qed

lemma mask56: "length ip = 16 \<Longrightarrow> To4 ip = None \<Longrightarrow> IP_Mask ip ipv6Mask56 = Some (take 7 ip @ replicate 9 0)"
proof -
  assume l: "length ip = 16" and n: "To4 ip = None"
  have "take 12 ip \<noteq> v4InV6Prefix" using l n by (auto simp: To4_def split: if_splits)
  then have "IP_Mask ip ipv6Mask56 = Some (map2 (AND) ip (cidr_bytes 16 56))"
    using l by (simp add: IP_Mask_def ipv6Mask56_def Let_def)
  also have "map2 (AND) ip (cidr_bytes 16 56) = take 7 ip @ replicate 9 0"
    using and_cidr_prefix [of ip 16 7] l by simp
  finally show ?thesis .
qed

text \<open>The subnet that stands for a prefix.\<close>

definition prefix_subnet :: "bytes option \<Rightarrow> net_IP \<times> u8" where
  "prefix_subnet pre =
     (case pre of
        None \<Rightarrow> (None, 255)
      | Some p \<Rightarrow> if length p = 3 then (Some (p @ [0]), 24) else (Some (p @ replicate 9 0), 56))"

lemma IsGlobalIP_None [simp]: "\<not> IsGlobalIP None"
  by (simp add: IsGlobalIP_def)

lemma client_findClientIP_prefix:
  assumes "stub_addr (ce_RemoteAddr env)"
  shows "client_findClientIP env conf r =
    (if cc_NoECS conf then Ret (Some (net_IPv4 0 0 0 0), 0)
     else
       go_bind (IsEdns0 r) (\<lambda>found.
       go_bind (case found of None \<Rightarrow> Ret None | Some (_, _, os) \<Rightarrow> find_SUBNET os) (\<lambda>sub.
         case sub of
           Some s \<Rightarrow> Ret (sub_Address s, sub_SourceNetmask s)
         | None \<Rightarrow> Ret (prefix_subnet (disclosed_prefix (ce_RemoteAddr env))))))"
proof -
  have "(case ce_RemoteAddr env of
           Inl err \<Rightarrow> Ret (None, 255)
         | Inr ip \<Rightarrow>
             if IsGlobalIP ip then
               (case ip of
                  None \<Rightarrow> Ret (None, 255)
                | Some a \<Rightarrow>
                    (case To4 a of
                       Some ipv4 \<Rightarrow> Ret (IP_Mask ipv4 ipv4Mask24, 24)
                     | None \<Rightarrow> Ret (IP_Mask a ipv6Mask56, 56)))
             else Ret (None, 255)) = Ret (prefix_subnet (disclosed_prefix (ce_RemoteAddr env)))"
  proof (cases "ce_RemoteAddr env")
    case (Inr ip)
    show ?thesis
    proof (cases ip)
      case (Some a)
      then have "ip_bytes a" using assms Inr by (simp add: stub_addr_def)
      then have "(case To4 a of Some ipv4 \<Rightarrow> Ret (IP_Mask ipv4 ipv4Mask24, 24) | None \<Rightarrow> Ret (IP_Mask a ipv6Mask56, 56)) =
          Ret (prefix_subnet (Some (case To4 a of Some p \<Rightarrow> take 3 p | None \<Rightarrow> take 7 a)))"
        using mask24 [OF To4_length] mask56 [of a] To4_length [of a] To4_None_length [of a]
        by (cases "To4 a") (simp_all add: prefix_subnet_def ip_bytes_def)
      then show ?thesis using Inr Some by (simp add: disclosed_prefix_def prefix_subnet_def [of None])
    qed (simp add: Inr disclosed_prefix_def prefix_subnet_def)
  qed (simp add: disclosed_prefix_def prefix_subnet_def)
  then show ?thesis by (simp only: client_findClientIP_def)
qed

text \<open>The handler reads the stub's address through \<^verbatim>\<open>findClientIP\<close> only.\<close>

lemma client_handler_RemoteAddr:
  assumes "client_findClientIP (env\<lparr>ce_RemoteAddr := a\<rparr>) = client_findClientIP (env\<lparr>ce_RemoteAddr := b\<rparr>)"
  shows "client_handlerFunc (env\<lparr>ce_RemoteAddr := a\<rparr>) c r isTCP = client_handlerFunc (env\<lparr>ce_RemoteAddr := b\<rparr>) c r isTCP"
proof -
  let ?a = "env\<lparr>ce_RemoteAddr := a\<rparr>" and ?b = "env\<lparr>ce_RemoteAddr := b\<rparr>"
  have sel: "ce_lib (env\<lparr>ce_RemoteAddr := x\<rparr>) = ce_lib env" "ce_time (env\<lparr>ce_RemoteAddr := x\<rparr>) = ce_time env"
    "ce_clock (env\<lparr>ce_RemoteAddr := x\<rparr>) = ce_clock env" "ce_Intn (env\<lparr>ce_RemoteAddr := x\<rparr>) = ce_Intn env"
    "ce_Pack (env\<lparr>ce_RemoteAddr := x\<rparr>) = ce_Pack env" "ce_Unpack (env\<lparr>ce_RemoteAddr := x\<rparr>) = ce_Unpack env"
    "ce_NewRR (env\<lparr>ce_RemoteAddr := x\<rparr>) = ce_NewRR env" "ce_json (env\<lparr>ce_RemoteAddr := x\<rparr>) = ce_json env"
    "ce_NewRequest (env\<lparr>ce_RemoteAddr := x\<rparr>) = ce_NewRequest env" "ce_Do (env\<lparr>ce_RemoteAddr := x\<rparr>) = ce_Do env"
    "ce_ConfigureTransport (env\<lparr>ce_RemoteAddr := x\<rparr>) = ce_ConfigureTransport env" for x
    by simp_all
  have "pick ?a = pick ?b" "newHTTPClient ?a = newHTTPClient ?b" "choose_type ?a = choose_type ?b"
    "write_reply ?a = write_reply ?b" "reply_age ?a = reply_age ?b"
    unfolding fun_eq_iff pick_def newHTTPClient_def choose_type_def write_reply_def reply_age_def sel by simp_all
  note common = this
  have send: "send_request ?a = send_request ?b" unfolding fun_eq_iff send_request_def common sel by simp
  have add: "client_add_subnet ?a = client_add_subnet ?b" unfolding fun_eq_iff client_add_subnet_def assms by simp
  have gen: "generateRequestGoogle ?a = generateRequestGoogle ?b" "generateRequestIETF ?a = generateRequestIETF ?b"
    unfolding fun_eq_iff generateRequestGoogle_def generateRequestIETF_def assms add common send sel by simp_all
  have "parseResponseGoogle ?a = parseResponseGoogle ?b" "parseResponseIETF ?a = parseResponseIETF ?b"
    unfolding fun_eq_iff parseResponseGoogle_def parseResponseIETF_def common sel by simp_all
  note parse = this
  show ?thesis unfolding client_handlerFunc_def common gen parse by simp
qed

section \<open>Properties\<close>

text \<open>C11: A client built from a loaded configuration never panics on a well-typed query, and answers it with exactly one
  reply. It is silent in three cases only: on a message that is itself a response; when the query goes to a wire
  upstream and its URL makes no HTTP request; and over UDP, when a reply that is too long for the stub packs
  without but not with the TC bit. The reply is a failure message with the query's identifier and question, which for
  other than one question is a format error, or, after an HTTP exchange that succeeded, a packed message with the query's identifier, which over UDP
  never exceeds the buffer size that the stub announced (512 without EDNS0) and has the TC bit set where it
  was cut.\<close>

theorem client_replies:
  assumes "client_main env DecodeFile path verbose = Inr c" and "msg_typed r" and "client_rand_ok env"
    and "ce_ConfigureTransport env = None" and "tc_size env"
  shows "\<exists>outs c'. client_handlerFunc env c r isTCP = Ret (outs, c') \<and>
    (msg_Response r \<or> url_refused env c r \<longrightarrow> outs = []) \<and>
    (\<not> msg_Response r \<and> \<not> url_refused env c r \<longrightarrow> length outs = 1 \<or> outs = [] \<and> \<not> isTCP \<and> cut_fails env r) \<and>
    (\<not> msg_Response r \<and> length (msg_Question r) \<noteq> 1 \<longrightarrow>
       outs = [WriteMsg ((PrepareReply r)\<lparr>msg_Rcode := RcodeFormatError\<rparr>)]) \<and>
    (\<forall>m. WriteMsg m \<in> set outs \<longrightarrow> msg_Id m = msg_Id r \<and> msg_Response m \<and> msg_Question m = msg_Question r \<and>
       msg_Rcode m \<in> {RcodeFormatError, RcodeServerFailure}) \<and>
    (\<forall>b. WriteRaw b \<in> set outs \<longrightarrow>
       (\<exists>out resp. ce_Do env out = Inr resp) \<and>
       (\<exists>m buf. msg_Id m = msg_Id r \<and> ce_Pack env m = Inr buf \<and>
          (b = buf \<or> \<not> isTCP \<and> msg_Truncated m \<and> b = take (unat (stub_size r)) buf)) \<and>
       (\<not> isTCP \<longrightarrow> length b \<le> unat (stub_size r)))"
proof -
  obtain outs c' where h: "client_handlerFunc env c r isTCP = Ret (outs, c')"
    "if msg_Response r \<or> url_refused env c r then outs = []
     else outs_ok env isTCP r outs \<and> (outs = [] \<or> (\<exists>b. outs = [WriteRaw b]) \<longrightarrow> (\<exists>out resp. ce_Do env out = Inr resp))"
    using client_handler_ok [OF assms(2-4) client_main_config [OF assms(1)] assms(5)] by blast
  have one: "outs = [] \<or> (\<exists>out. outs = [out] \<and> out_ok env isTCP r out)"
    using h(2) by (cases outs) (auto simp: outs_ok_def split: if_splits)
  have msgs: "answers r m" if "WriteMsg m \<in> set outs" for m using one that by auto
  have raws: "out_ok env isTCP r (WriteRaw b)" "\<exists>out resp. ce_Do env out = Inr resp" if "WriteRaw b \<in> set outs" for b
    using that one h(2) by (auto split: if_splits)
  have count: "length outs = 1 \<or> outs = [] \<and> \<not> isTCP \<and> cut_fails env r" if "\<not> msg_Response r" "\<not> url_refused env c r"
    using one h(2) that by auto
  have quiet: "msg_Response r \<or> url_refused env c r \<longrightarrow> outs = []" using h(2) by auto
  have form: "outs = [WriteMsg ((PrepareReply r)\<lparr>msg_Rcode := RcodeFormatError\<rparr>)]"
    if "\<not> msg_Response r" "length (msg_Question r) \<noteq> 1"
    using client_handler_questions [OF that, of env c isTCP] h(1) by simp
  show ?thesis
    by (rule exI [of _ outs], rule exI [of _ c'], intro conjI allI impI h(1) quiet)
       (use count form msgs raws in \<open>simp_all add: answers_def out_ok_def\<close>)
qed

definition example_client_env :: client_env where
  "example_client_env =
     \<lparr>ce_lib = plain_golib, ce_time = decimal_timelib, ce_clock = (\<lambda>_. 0), ce_Intn = (\<lambda>_ _. 0),
      ce_RemoteAddr = Inr (Some (net_IPv4 198 51 100 7)), ce_ResolveUDPAddr = Inr,
      ce_Pack = (\<lambda>m. Inr [ucast (msg_Id m)]), ce_Unpack = (\<lambda>b. Inl ''short''), ce_NewRR = five_field_RR,
      ce_json = (\<lambda>_. Inr new_Response), ce_NewRequest = (\<lambda>_. None),
      ce_Do = (\<lambda>_. Inr \<lparr>hr_StatusCode = 200, hr_Header = (\<lambda>_. []), hr_Body = Inr []\<rparr>),
      ce_ConfigureTransport = None\<rparr>"

definition example_client_config :: client_config where
  "example_client_config =
     \<lparr>cc_Listen = [], cc_UpstreamGoogle = [], cc_UpstreamIETF = [], cc_Bootstrap = [], cc_Timeout = 0,
      cc_NoCookies = False, cc_NoECS = False, cc_NoIPv6 = False, cc_Verbose = False\<rparr>"

definition example_stub_query :: Msg where
  "example_stub_query = new_Msg\<lparr>msg_Id := 3, msg_Question := [\<lparr>q_Name = ''a.example.'', q_Qtype = 1, q_Qclass = 1\<rparr>]\<rparr>"

theorem client_replies_witness:
  "\<exists>c outs c'. client_main example_client_env (\<lambda>_. Inr (example_client_config, [])) ''conf'' True = Inr c \<and>
     client_handlerFunc example_client_env c example_stub_query False = Ret (outs, c') \<and> length outs = 1 \<and>
     (\<forall>b. WriteRaw b \<in> set outs \<longrightarrow> length b \<le> 512)"
proof -
  obtain c where c: "client_main example_client_env (\<lambda>_. Inr (example_client_config, [])) ''conf'' True = Inr c"
    by (simp add: client_main_def client_loadConfig_def NewClient_def bare_Client_def newHTTPClient_def example_client_env_def
        client_defaults_def example_client_config_def Let_def)
  moreover have "msg_typed example_stub_query" by (simp add: msg_typed_def new_Msg_def example_stub_query_def)
  moreover have "client_rand_ok example_client_env" "ce_ConfigureTransport example_client_env = None"
    "tc_size example_client_env" "\<not> cut_fails example_client_env example_stub_query"
    "\<not> url_refused example_client_env c example_stub_query" "\<not> msg_Response example_stub_query"
    by (simp_all add: client_rand_ok_def tc_size_def cut_fails_def url_refused_def example_client_env_def example_stub_query_def new_Msg_def)
  moreover have "unat (stub_size example_stub_query) = 512"
    by (simp add: stub_size_def IsEdns0_def example_stub_query_def new_Msg_def)
  ultimately obtain outs c' where "client_handlerFunc example_client_env c example_stub_query False = Ret (outs, c')"
    "length outs = 1" "\<forall>b. WriteRaw b \<in> set outs \<longrightarrow> length b \<le> 512"
    using client_replies [OF c, of example_stub_query False] by metis
  with c show ?thesis by blast
qed

text \<open>C32: A wire reply that unpacks is handed to the stub, as one packet if it packs, as the message that the upstream sent,
  under the identifier of the query and with what is left of each TTL of the answer and authority sections and
  of the additional section except its OPT records, in whole seconds and down to zero: the time that the reply spent in HTTP
  caches, from its \<^verbatim>\<open>Last-Modified\<close> to its \<^verbatim>\<open>Date\<close> field (or the local clock), is taken off. OPT records keep their header, in which the
  TTL field means something else.\<close>

theorem wire_reply_ttl:
  assumes "\<not> give_up ''application/dns-message'' (cq_response q)" and "hr_Body (cq_response q) = Inr body"
    and "ce_Unpack env body = Inr m"
  shows "\<exists>answer ns extra.
    (let age = cached_for env (cq_response q); m' = m\<lparr>msg_Id := msg_Id r, msg_Answer := answer, msg_Ns := ns, msg_Extra := extra\<rparr> in
     list_all2 (aged_record age) (msg_Answer m) answer \<and> list_all2 (aged_record age) (msg_Ns m) ns \<and>
     list_all2 (\<lambda>rr rr'. if hdr_Rrtype (Header rr) = TypeOPT then rr' = rr else aged_record age rr rr') (msg_Extra m) extra \<and>
     (packs env m' \<longrightarrow>
        (\<exists>p. parseResponseIETF env isTCP r q = Ret [WriteRaw p] \<and> sent_packet env isTCP (cq_udpSize q) m' p)) \<and>
     (\<forall>err. ce_Pack env m' = Inl err \<longrightarrow>
        (\<exists>reply. parseResponseIETF env isTCP r q = Ret [WriteMsg reply] \<and> msg_Rcode reply = RcodeServerFailure)))"
proof -
  let ?d = "reply_age env (cq_response q)"
  let ?an = "map (fixRecordTTL ?d) (msg_Answer m)" and ?ns = "map (fixRecordTTL ?d) (msg_Ns m)"
  let ?ex = "map (\<lambda>rr. if hdr_Rrtype (Header rr) = TypeOPT then rr else fixRecordTTL ?d rr) (msg_Extra m)"
  let ?m = "m\<lparr>msg_Id := msg_Id r, msg_Answer := ?an, msg_Ns := ?ns, msg_Extra := ?ex\<rparr>"
  let ?q = "q\<lparr>cq_reply := status_reply (cq_response q) (cq_reply q)\<rparr>"
  have w: "parseResponseIETF env isTCP r q = write_reply env isTCP ?q ?m"
    using assms by (simp add: parseResponseIETF_def Let_def)
  have "\<exists>p. write_reply env isTCP ?q ?m = Ret [WriteRaw p] \<and> sent_packet env isTCP (cq_udpSize q) ?m p" if "packs env ?m"
    using write_reply_sent [OF that, of isTCP ?q] by simp
  moreover have "\<exists>reply. write_reply env isTCP ?q ?m = Ret [WriteMsg reply] \<and> msg_Rcode reply = RcodeServerFailure"
    if "ce_Pack env ?m = Inl err" for err
    using that by (simp add: write_reply_def)
  ultimately show ?thesis unfolding w Let_def
    using fixRecordTTL_section fixRecordTTL_extra by (intro exI [of _ ?an] exI [of _ ?ns] exI [of _ ?ex] conjI impI allI) blast+
qed

definition cached_reply :: Msg where
  "cached_reply = new_Msg\<lparr>msg_Answer := [example_RR], msg_Ns := [set_Header (Header example_RR\<lparr>hdr_Ttl := 40\<rparr>) example_RR],
     msg_Extra := [RR_OPT client_new_OPT []]\<rparr>"

definition cached_env :: client_env where
  "cached_env = example_client_env\<lparr>ce_Unpack := (\<lambda>_. Inr cached_reply), ce_Pack := (\<lambda>m. Inr (ucast (msg_Id m)
     # map (\<lambda>rr. ucast (hdr_Ttl (Header rr))) (msg_Answer m @ msg_Ns m @ msg_Extra m)))\<rparr>"

definition cached_req :: creq where
  "cached_req = \<lparr>cq_response = \<lparr>hr_StatusCode = 200,
       hr_Header = (\<lambda>k. if k = ''Date'' then fmt_HTTP decimal_timelib (100 * Second)
         else if k = ''Last-Modified'' then fmt_HTTP decimal_timelib (40 * Second) else []), hr_Body = Inr []\<rparr>,
     cq_reply = new_Msg, cq_udpSize = 512, cq_ednsClientAddress = None, cq_ednsClientNetmask = 255, cq_currentUpstream = []\<rparr>"

text \<open>A minute in caches leaves 240 seconds of 300 and nothing of 40.\<close>

theorem wire_reply_ttl_witness:
  "parseResponseIETF cached_env False (new_Msg\<lparr>msg_Id := 3\<rparr>) cached_req = Ret [WriteRaw [3, 240, 0, 0]]"
proof -
  have f: "field_time decimal_timelib (fmt_HTTP decimal_timelib (n * Second)) = Some (n * Second)" if "n \<in> {40, 100}" for n
    using that decimal_seconds [of "n * Second"] by (auto simp: field_time_def decimal_timelib_def layout_range_def Second_def)
  have age: "cached_for cached_env (cq_response cached_req) = 60 * Second"
    by (simp add: cached_for_def cached_env_def cached_req_def example_client_env_def f)
  have h: "\<not> give_up ''application/dns-message'' (cq_response cached_req)" "hr_Body (cq_response cached_req) = Inr []"
    "ce_Unpack cached_env [] = Inr cached_reply"
    by (simp_all add: give_up_def cached_req_def cached_env_def)
  from wire_reply_ttl [OF h, of "new_Msg\<lparr>msg_Id := 3\<rparr>" False, unfolded age]
  obtain answer ns extra where s: "list_all2 (aged_record (60 * Second)) (msg_Answer cached_reply) answer"
    "list_all2 (aged_record (60 * Second)) (msg_Ns cached_reply) ns"
    "list_all2 (\<lambda>rr rr'. if hdr_Rrtype (Header rr) = TypeOPT then rr' = rr else aged_record (60 * Second) rr rr') (msg_Extra cached_reply) extra"
    and p: "packs cached_env (cached_reply\<lparr>msg_Id := 3, msg_Answer := answer, msg_Ns := ns, msg_Extra := extra\<rparr>) \<longrightarrow>
      (\<exists>p. parseResponseIETF cached_env False (new_Msg\<lparr>msg_Id := 3\<rparr>) cached_req = Ret [WriteRaw p] \<and>
         sent_packet cached_env False (cq_udpSize cached_req) (cached_reply\<lparr>msg_Id := 3, msg_Answer := answer, msg_Ns := ns, msg_Extra := extra\<rparr>) p)"
    by (auto simp: Let_def)
  obtain x y where "answer = [x]" "ns = [y]" "extra = [RR_OPT client_new_OPT []]"
    "hdr_Ttl (Header x) = 240" "hdr_Ttl (Header y) = 0"
    using s by (auto simp: cached_reply_def example_RR_def client_new_OPT_type list_all2_Cons1 Second_def dest!: aged_recordD)
  with p show ?thesis
    by (auto simp: packs_def sent_packet_def cached_env_def cached_req_def client_new_OPT_def OPT_SetDo_def OPT_SetUDPSize_def new_OPT_header_def)
qed

text \<open>C22: However it asks its upstreams and whatever it answers, the client does not let more of the stub's address out than
  its first 24 bits (IPv4) or 56 bits (IPv6), if it is global, and nothing if it is not or cannot be found out: two addresses
  that agree in this make no difference to any query, with or without EDNS0 and a subnet of its own, over
  wire or JSON format. As the HTTP exchange is an arbitrary function of the request, equal outcomes for all
  environments mean that equal requests are sent.\<close>

theorem client_discloses_prefix_only:
  assumes "stub_addr a" and "stub_addr b" and "disclosed_prefix a = disclosed_prefix b"
  shows "client_handlerFunc (env\<lparr>ce_RemoteAddr := a\<rparr>) c r isTCP = client_handlerFunc (env\<lparr>ce_RemoteAddr := b\<rparr>) c r isTCP"
  using assms by (intro client_handler_RemoteAddr) (simp add: fun_eq_iff client_findClientIP_prefix)

lemma example_client_ip_global: "IsGlobalIP (Some (net_IPv4 198 51 100 7))"
  by code_simp

lemma example_client_ip_global2: "IsGlobalIP (Some (net_IPv4 198 51 100 99))"
  by code_simp

theorem client_discloses_prefix_only_witness:
  "\<forall>c. client_handlerFunc (example_client_env\<lparr>ce_RemoteAddr := Inr (Some (net_IPv4 198 51 100 7))\<rparr>) c example_stub_query False =
   client_handlerFunc (example_client_env\<lparr>ce_RemoteAddr := Inr (Some (net_IPv4 198 51 100 99))\<rparr>) c example_stub_query False"
proof -
  have "disclosed_prefix (Inr (Some (net_IPv4 198 51 100 7))) = disclosed_prefix (Inr (Some (net_IPv4 198 51 100 99)))"
    by (simp add: disclosed_prefix_def example_client_ip_global example_client_ip_global2)
  moreover have "stub_addr (Inr (Some (net_IPv4 198 51 100 x)))" for x
    by (simp add: stub_addr_def ip_bytes_def net_IPv4_def)
  ultimately show ?thesis by (intro allI client_discloses_prefix_only) simp_all
qed

text \<open>With subnets switched off, a query without EDNS0 still goes to a wire upstream with a subnet option, for
  the address 0.0.0.0 and a prefix of 24 bits, not 0; and a subnet that the stub supplies is passed on.\<close>

lemma no_ecs_wire:
  assumes "cc_NoECS conf"
  shows "(IsEdns0 r = Ret None \<longrightarrow>
      client_add_subnet env conf r =
        Ret (r\<lparr>msg_Extra := RR_OPT client_new_OPT [Opt_SUBNET \<lparr>sub_Code = EDNS0SUBNET, sub_Family = 1,
               sub_SourceNetmask = 24, sub_SourceScope = 0, sub_Address = Some [0, 0, 0, 0]\<rparr>] # msg_Extra r\<rparr>,
             512, Some [0, 0, 0, 0], 24)) \<and>
    (IsEdns0 r = Ret (Some (i, h, os)) \<and> find_SUBNET os = Ret (Some s) \<longrightarrow>
      client_add_subnet env conf r = Ret (r, OPT_UDPSize h, sub_Address s, sub_SourceNetmask s))"
  using assms by (simp add: client_add_subnet_def client_findClientIP_def)

end
