(* ===== verification/ListsUpdater.thy ===== *)
theory ListsUpdater
  imports Filtering
begin

text \<open>
  \<^verbatim>\<open>lists-updater/main.go\<close>: fetching domain lists, writing them to a new file, publishing the file under the
  next number, removing old versions and notifying the server. The working directory is a list of file
  names with their contents, in directory order. Failures of the file system, HTTP and the CSV reader
  are fields of \<open>upd_env\<close>.
\<close>

section \<open>The working directory\<close>

type_synonym workdir = "(string \<times> string) list"

definition dir_names :: "workdir \<Rightarrow> string list" where
  "dir_names d = map fst d"

fun dir_put :: "string \<Rightarrow> string \<Rightarrow> workdir \<Rightarrow> workdir" where
  "dir_put n c [] = [(n, c)]"
| "dir_put n c ((m, x) # d) = (if m = n then (n, c) # d else (m, x) # dir_put n c d)"

definition dir_del :: "string \<Rightarrow> workdir \<Rightarrow> workdir" where
  "dir_del n d = filter (\<lambda>f. fst f \<noteq> n) d"

text \<open>
  Reading the directory for the \<open>i\<close>-th time may fail after some of the names; the reply to a notification is
  its status code and text. A write may fail after some of its bytes. The body of a reply is its text and the error
  that ended it, if one did; the CSV readers turn it into entries, the one for Majestic entry by entry until an error.
\<close>

record PhishTankEntry =
  pt_URL :: string

record MajesticEntry =
  mj_Domain :: string

record upd_env =
  ue_open_err :: "string \<Rightarrow> string option"
  ue_readdir_err :: "nat \<Rightarrow> (nat \<times> string) option"
  ue_write_err :: "string \<Rightarrow> nat \<Rightarrow> (nat \<times> string) option"
  ue_rename_err :: "string \<Rightarrow> string option"
  ue_remove_err :: "string \<Rightarrow> string option"
  ue_Get :: "string \<Rightarrow> string + (int \<times> string \<times> string option)"
  ue_csv_URL :: "string \<times> string option \<Rightarrow> string + PhishTankEntry list"
  ue_csv_Domain :: "string \<times> string option \<Rightarrow> MajesticEntry list \<times> string option"
  ue_Post :: "string \<Rightarrow> string + (int \<times> string)"

text \<open>Writing from the start of an open file: what the file held beyond the new data stays.\<close>

definition overwrite :: "string \<Rightarrow> string \<Rightarrow> string" where
  "overwrite old data = data @ drop (length data) old"

text \<open>\<^verbatim>\<open>os.Rename\<close>.\<close>

definition os_Rename :: "upd_env \<Rightarrow> string \<Rightarrow> string \<Rightarrow> workdir \<Rightarrow> string option \<times> workdir" where
  "os_Rename env src dst d =
     (case ue_rename_err env src of
        Some e \<Rightarrow> (Some e, d)
      | None \<Rightarrow>
          (case map_of d src of
             None \<Rightarrow> (Some ''no such file or directory'', d)
           | Some c \<Rightarrow> (None, dir_put dst c (if src = dst then d else dir_del src d))))"

definition os_Remove :: "upd_env \<Rightarrow> string \<Rightarrow> workdir \<Rightarrow> workdir" where
  "os_Remove env n d = (case ue_remove_err env n of Some e \<Rightarrow> d | None \<Rightarrow> dir_del n d)"

section \<open>Fetching\<close>

definition urlToDomain :: "string \<Rightarrow> string + string" where
  "urlToDomain input =
     (case url_Parse input of
        Inl err \<Rightarrow> Inl err
      | Inr parsed \<Rightarrow>
          let hostname = Hostname parsed in
          if ParseIP hostname \<noteq> None then Inl (''host name is IP ('' @ hostname @ '')'') else Inr hostname)"

text \<open>The loops that turn URLs into domains, each domain once.\<close>

fun domains_loop :: "boolmap \<Rightarrow> string list \<Rightarrow> string list" where
  "domains_loop looked [] = []"
| "domains_loop looked (u # us) =
     (case urlToDomain u of
        Inl err \<Rightarrow> domains_loop looked us
      | Inr domain \<Rightarrow>
          if lookup_bool looked domain then domains_loop looked us
          else domain # domains_loop (looked(domain \<mapsto> True)) us)"

definition phishTankFetch :: "upd_env \<Rightarrow> string + string list" where
  "phishTankFetch env =
     (case ue_Get env ''http://data.phishtank.com/data/online-valid.csv'' of
        Inl err \<Rightarrow> Inl err
      | Inr (status, body) \<Rightarrow>
          if status \<noteq> 200 then Inl (''Bad HTTP code '' @ itoa_int status)
          else case ue_csv_URL env body of
                 Inl err \<Rightarrow> Inl err
               | Inr data \<Rightarrow> Inr (domains_loop Map.empty (map pt_URL data)))"

definition majestic1MFetch :: "upd_env \<Rightarrow> string + string list" where
  "majestic1MFetch env =
     (case ue_Get env ''https://downloads.majestic.com/majestic_million.csv'' of
        Inl err \<Rightarrow> Inl err
      | Inr (status, body) \<Rightarrow>
          if status \<noteq> 200 then Inl (''Bad HTTP code '' @ itoa_int status)
          else case ue_csv_Domain env body of
                 (_, Some err) \<Rightarrow> Inl err
               | (entries, None) \<Rightarrow> Inr (map mj_Domain entries))"

text \<open>
  \<^verbatim>\<open>bufio.Scanner\<close> with its limit of 65536 bytes for a line and its end: the lines, and the error that
  stopped it.
\<close>

definition maxTokenSize :: nat where
  "maxTokenSize = 65536"

function scan_lines :: "string option \<Rightarrow> string \<Rightarrow> string list \<times> string option" where
  "scan_lines ioerr s =
     (if LF \<in> set (take maxTokenSize s) then
        (let line = takeWhile (\<lambda>c. c \<noteq> LF) s;
             (ls, err) = scan_lines ioerr (drop (length line + 1) s)
         in (strip_CR line # ls, err))
      else if maxTokenSize \<le> length s then ([], Some ''bufio.Scanner: token too long'')
      else if s = [] then ([], ioerr)
      else ([strip_CR s], ioerr))"
  by pat_completeness auto
termination
proof (relation "measure (\<lambda>(ioerr, s). length s)", goal_cases)
  case (2 ioerr s)
  then have "s \<noteq> []" by auto
  then show ?case by simp
qed simp

declare scan_lines.simps [simp del]

definition openPhishFetch :: "upd_env \<Rightarrow> string + string list" where
  "openPhishFetch env =
     (case ue_Get env ''https://openphish.com/feed.txt'' of
        Inl err \<Rightarrow> Inl err
      | Inr (status, body, ioerr) \<Rightarrow>
          (case scan_lines ioerr body of
             (_, Some err) \<Rightarrow> Inl err
           | (ls, None) \<Rightarrow> Inr (domains_loop Map.empty ls)))"

section \<open>Writing\<close>

text \<open>
  The loops of \<^verbatim>\<open>fmt.Fprintln\<close>: write number \<open>i\<close> may fail after some of its bytes; the second result is what
  reached the file.
\<close>

fun write_lines :: "(nat \<Rightarrow> (nat \<times> string) option) \<Rightarrow> nat \<Rightarrow> string list \<Rightarrow> string \<Rightarrow> string option \<times> string" where
  "write_lines werr i [] data = (None, data)"
| "write_lines werr i (l # ls) data =
     (case werr i of
        Some (n, err) \<Rightarrow> (Some err, data @ take n (l @ [LF]))
      | None \<Rightarrow> write_lines werr (Suc i) ls (data @ l @ [LF]))"

text \<open>Opening for writing creates the file if need be and leaves its contents alone.\<close>

definition open_for_write :: "string \<Rightarrow> workdir \<Rightarrow> string \<times> workdir" where
  "open_for_write n d = (case map_of d n of Some c \<Rightarrow> (c, d) | None \<Rightarrow> ([], dir_put n [] d))"

definition writeWhitelist :: "upd_env \<Rightarrow> workdir \<Rightarrow> string option \<times> workdir" where
  "writeWhitelist env d =
     (case ue_open_err env ''whitelist.new.txt'' of
        Some err \<Rightarrow> (Some err, d)
      | None \<Rightarrow>
          let (old, d1) = open_for_write ''whitelist.new.txt'' d in
          (case majestic1MFetch env of
             Inl err \<Rightarrow> (Some err, d1)
           | Inr majestic1M \<Rightarrow>
               let (err, data) = write_lines (ue_write_err env ''whitelist.new.txt'') 0 majestic1M []
               in (err, dir_put ''whitelist.new.txt'' (overwrite old data) d1)))"

text \<open>The domains that are not yet in the map, and the map with them.\<close>

fun fresh_domains :: "boolmap \<Rightarrow> string list \<Rightarrow> string list \<times> boolmap" where
  "fresh_domains seen [] = ([], seen)"
| "fresh_domains seen (d # ds) =
     (if lookup_bool seen d then fresh_domains seen ds
      else let (xs, seen') = fresh_domains (seen(d \<mapsto> True)) ds in (d # xs, seen'))"

definition writeBlacklist :: "upd_env \<Rightarrow> workdir \<Rightarrow> string option \<times> workdir" where
  "writeBlacklist env d =
     (case ue_open_err env ''blacklist.new.txt'' of
        Some err \<Rightarrow> (Some err, d)
      | None \<Rightarrow>
          let (old, d1) = open_for_write ''blacklist.new.txt'' d;
              werr = ue_write_err env ''blacklist.new.txt'';
              put = (\<lambda>data. dir_put ''blacklist.new.txt'' (overwrite old data) d1) in
          (case phishTankFetch env of
             Inl err \<Rightarrow> (Some err, d1)
           | Inr phishTankDomains \<Rightarrow>
               let (xs, seen) = fresh_domains Map.empty phishTankDomains;
                   (err1, data1) = write_lines werr 0 xs [] in
               if err1 \<noteq> None then (err1, put data1)
               else
                 let openPhishDomains = (case openPhishFetch env of Inl _ \<Rightarrow> [] | Inr ds \<Rightarrow> ds);
                     (ys, _) = fresh_domains seen openPhishDomains;
                     (err2, data2) = write_lines werr (length xs) ys data1
                 in (err2, put data2)))"

section \<open>Publishing\<close>

definition maxNumberForRE :: "(nat \<times> string) option \<Rightarrow> regexp \<Rightarrow> workdir \<Rightarrow> string + int" where
  "maxNumberForRE readdir_err selector d =
     (case readdir_err of
        Some (_, err) \<Rightarrow> Inl err
      | None \<Rightarrow> Inr (fst (max_number_loop selector (dir_names d) (-1) Map.empty)))"

text \<open>The numbers of the matching files in directory order, and the file of each number.\<close>

fun old_numbers :: "regexp \<Rightarrow> string list \<Rightarrow> int list \<Rightarrow> (int \<rightharpoonup> string) \<Rightarrow> int list \<times> (int \<rightharpoonup> string)" where
  "old_numbers selector [] numbers numberToFilename = (numbers, numberToFilename)"
| "old_numbers selector (filename # names) numbers numberToFilename =
     (case re_Submatch selector filename of
        None \<Rightarrow> old_numbers selector names numbers numberToFilename
      | Some ds \<Rightarrow>
          (case strconv_Atoi ds of
             (_, Some err) \<Rightarrow> old_numbers selector names numbers numberToFilename
           | (number, None) \<Rightarrow>
               old_numbers selector names (numbers @ [number]) (numberToFilename(number \<mapsto> filename))))"

text \<open>Sum and difference of Go \<^verbatim>\<open>int\<close>s.\<close>

definition int_add :: "int \<Rightarrow> int \<Rightarrow> int" where
  "int_add a b = sint (word_of_int (a + b) :: u64)"

definition int_sub :: "int \<Rightarrow> int \<Rightarrow> int" where
  "int_sub a b = sint (word_of_int (a - b) :: u64)"

text \<open>
  \<^verbatim>\<open>removeOld\<close>: after a failed read of the directory it goes on with the names it has. A loop bound beyond the
  end of the slice panics there, once all files of the slice have been removed; the directory that this leaves is
  not part of the result.
\<close>

definition removeOld :: "upd_env \<Rightarrow> (nat \<times> string) option \<Rightarrow> regexp \<Rightarrow> int \<Rightarrow> workdir \<Rightarrow> workdir go" where
  "removeOld env readdir_err selector keep d =
     (let names = (case readdir_err of Some (n, _) \<Rightarrow> take n (dir_names d) | None \<Rightarrow> dir_names d);
          (numbers0, numberToFilename) = old_numbers selector names [] Map.empty;
          numbers = sort numbers0;
          bound = int_sub (int (length numbers)) keep
      in if int (length numbers) < bound then Panic ''index out of range''
         else Ret (foldl (\<lambda>d1 n. os_Remove env (case numberToFilename n of Some f \<Rightarrow> f | None \<Rightarrow> []) d1) d
                     (take (nat bound) numbers)))"

definition numbered :: "string \<Rightarrow> int \<Rightarrow> string" where
  "numbered base n = base @ ''.'' @ itoa_int n @ ''.txt''"

definition publish :: "upd_env \<Rightarrow> (nat \<times> string) option \<Rightarrow> string \<Rightarrow> workdir \<Rightarrow> string option \<times> workdir" where
  "publish env readdir_err base d =
     (case maxNumberForRE readdir_err (list_RE base) d of
        Inl err \<Rightarrow> (Some (''unable to find latest '' @ base @ '' number: '' @ err), d)
      | Inr n \<Rightarrow>
          (case os_Rename env (base @ ''.new.txt'') (numbered base (int_add n 1)) d of
             (Some err, d1) \<Rightarrow> (Some (''unable to rename '' @ base @ '': '' @ err), d1)
           | (None, d1) \<Rightarrow> (None, d1)))"

definition notify :: "upd_env \<Rightarrow> string \<Rightarrow> string option" where
  "notify env serverURL =
     (if serverURL \<noteq> [] then
        (case ue_Post env serverURL of
           Inl err \<Rightarrow> Some (''unable to notify DOH-server: '' @ err)
         | Inr (StatusCode, Status) \<Rightarrow>
             if StatusCode \<noteq> 200 then Some (''unable to notify DOH-server: '' @ Status) else None)
      else None)"

text \<open>\<^verbatim>\<open>process\<close>: the error, if any, and the directory it leaves.\<close>

definition process :: "upd_env \<Rightarrow> int \<Rightarrow> string \<Rightarrow> workdir \<Rightarrow> (string option \<times> workdir) go" where
  "process env keepVersions serverURL d0 =
     (case writeWhitelist env d0 of
        (Some err, d1) \<Rightarrow> Ret (Some (''unable to update whitelist: '' @ err), d1)
      | (None, d1) \<Rightarrow>
     (case writeBlacklist env d1 of
        (Some err, d2) \<Rightarrow> Ret (Some (''unable to update blacklist: '' @ err), d2)
      | (None, d2) \<Rightarrow>
     (case publish env (ue_readdir_err env 0) ''whitelist'' d2 of
        (Some err, d3) \<Rightarrow> Ret (Some err, d3)
      | (None, d3) \<Rightarrow>
     (case publish env (ue_readdir_err env 1) ''blacklist'' d3 of
        (Some err, d4) \<Rightarrow> Ret (Some err, d4)
      | (None, d4) \<Rightarrow>
          go_bind (removeOld env (ue_readdir_err env 2) (list_RE ''whitelist'') keepVersions d4) (\<lambda>d5.
          go_bind (removeOld env (ue_readdir_err env 3) (list_RE ''blacklist'') keepVersions d5) (\<lambda>d6.
          Ret (notify env serverURL, d6)))))))"

text \<open>The loop of \<^verbatim>\<open>main\<close>: rounds go on whatever their errors; the environment is that of each round.\<close>

fun updater_rounds :: "int \<Rightarrow> string \<Rightarrow> upd_env list \<Rightarrow> workdir \<Rightarrow> workdir go" where
  "updater_rounds keep url [] d = Ret d"
| "updater_rounds keep url (env # envs) d =
     go_bind (process env keep url d) (\<lambda>(_, d1). updater_rounds keep url envs d1)"

text \<open>The directory as the server sees it.\<close>

definition osfs_of :: "string \<Rightarrow> workdir \<Rightarrow> osfs" where
  "osfs_of path d =
     \<lparr>fs_names = (\<lambda>p. if p = path then Inr (dir_names d) else Inl ''no such file or directory''),
      fs_file = (\<lambda>f. case find (\<lambda>nc. path_Join path (fst nc) = f) d of
                       Some nc \<Rightarrow> Inr (snd nc, None)
                     | None \<Rightarrow> Inl ''no such file or directory'')\<rparr>"

section \<open>Lemmas\<close>

subsection \<open>The directory as a store of files\<close>

locale file_store =
  fixes get :: "'d \<Rightarrow> 'n \<Rightarrow> 'c option"
    and put :: "'n \<Rightarrow> 'c \<Rightarrow> 'd \<Rightarrow> 'd"
    and del :: "'n \<Rightarrow> 'd \<Rightarrow> 'd"
    and names :: "'d \<Rightarrow> 'n list"
  assumes get_put: "get (put n c d) = (get d)(n \<mapsto> c)"
    and get_del: "get (del n d) = (get d)(n := None)"
    and names_get: "set (names d) = dom (get d)"
    and distinct_put: "distinct (names d) \<Longrightarrow> distinct (names (put n c d))"
    and distinct_del: "distinct (names d) \<Longrightarrow> distinct (names (del n d))"
begin

text \<open>Moving a file, and removing several, some of which may stay.\<close>

lemma get_move: "n \<noteq> m \<Longrightarrow> get (put m c (del n d)) = (get d)(n := None, m \<mapsto> c)"
  by (simp add: get_put get_del fun_upd_twist)

lemma names_move: "n \<noteq> m \<Longrightarrow> set (names (put m c (del n d))) = insert m (set (names d) - {n})"
  by (auto simp: names_get get_move)

lemma get_prune:
  "get (foldl (\<lambda>d1 n. if stuck n then d1 else del n d1) d ns) =
     (\<lambda>f. if f \<in> set ns \<and> \<not> stuck f then None else get d f)"
  by (induction ns arbitrary: d) (auto simp: get_del fun_eq_iff)

lemma distinct_prune:
  "distinct (names d) \<Longrightarrow> distinct (names (foldl (\<lambda>d1 n. if stuck n then d1 else del n d1) d ns))"
  by (induction ns arbitrary: d) (auto simp: distinct_del)

end

lemma dir_put_names: "dir_names (dir_put n c d) = (if n \<in> set (dir_names d) then dir_names d else dir_names d @ [n])"
  by (induction n c d rule: dir_put.induct) (auto simp: dir_names_def)

interpretation store: file_store map_of dir_put dir_del dir_names
proof (unfold_locales, goal_cases)
  case (1 n c d)
  show ?case by (induction n c d rule: dir_put.induct) (auto simp: fun_eq_iff)
next
  case (2 n d)
  show ?case by (induction d) (auto simp: dir_del_def fun_eq_iff)
next
  case (3 d)
  show ?case by (simp add: dir_names_def dom_map_of_conv_image_fst)
next
  case (4 d n c)
  then show ?case by (simp add: dir_put_names)
next
  case (5 d n)
  have "dir_names (dir_del n d) = filter (\<lambda>f. f \<noteq> n) (dir_names d)"
    by (simp add: dir_names_def dir_del_def filter_map comp_def)
  with 5 show ?case by simp
qed

lemmas store_simps = store.get_put store.get_del store.names_get

lemma os_Remove_if: "os_Remove env n d = (if ue_remove_err env n \<noteq> None then d else dir_del n d)"
  by (auto simp: os_Remove_def split: option.splits)

lemma os_Rename_None:
  assumes "os_Rename env src dst d = (None, d')" and "src \<noteq> dst"
  shows "\<exists>c. map_of d src = Some c \<and> map_of d' = (map_of d)(src := None, dst \<mapsto> c) \<and>
    (distinct (dir_names d) \<longrightarrow> distinct (dir_names d')) \<and>
    set (dir_names d') = insert dst (set (dir_names d) - {src})"
  using assms store.get_move [of src dst] store.names_move [of src dst]
  by (auto simp: os_Rename_def store.distinct_put store.distinct_del split: option.splits)

lemma os_Rename_Some: "os_Rename env src dst d = (Some e, d') \<Longrightarrow> d' = d"
  by (auto simp: os_Rename_def split: option.splits)

subsection \<open>Numbers of the files\<close>

lemma old_numbers_step:
  "old_numbers sel (f # fs) ns m =
     (case file_number sel f of
        None \<Rightarrow> old_numbers sel fs ns m
      | Some n \<Rightarrow> old_numbers sel fs (ns @ [n]) (m(n \<mapsto> f)))"
  by (auto simp: file_number_def split: option.splits prod.splits)

declare old_numbers.simps(2) [simp del]

lemma old_numbers_fst: "fst (old_numbers sel fs ns m) = ns @ List.map_filter (file_number sel) fs"
  by (induction fs arbitrary: ns m) (auto simp: old_numbers_step List.map_filter_simps split: option.splits)

lemma old_numbers_snd:
  "snd (old_numbers sel fs ns m) n =
     (let hits = filter (\<lambda>f. file_number sel f = Some n) fs in if hits = [] then m n else Some (last hits))"
  by (induction fs arbitrary: ns m) (auto simp: old_numbers_step Let_def split: option.splits)

lemma int_sub_exact:
  assumes "0 \<le> a" "a < 2 ^ 63" "0 \<le> b" "b < 2 ^ 63"
  shows "int_sub a b = a - b"
  unfolding int_sub_def using assms by (subst signed_of_int) (simp add: signed_take_bit_int_eq_self)

lemma int_add_exact: "- (2 ^ 63) \<le> a + b \<Longrightarrow> a + b < 2 ^ 63 \<Longrightarrow> int_add a b = a + b"
  unfolding int_add_def by (subst signed_of_int) (simp add: signed_take_bit_int_eq_self)

text \<open>Of a sorted list without repetitions, all but the last \<open>k\<close> are those with \<open>k\<close> larger ones.\<close>

lemma take_all_but:
  assumes "sorted ns" and "distinct ns"
  shows "n \<in> set (take (length ns - k) ns) \<longleftrightarrow> n \<in> set ns \<and> k \<le> length (filter (\<lambda>m. n < m) ns)"
proof (cases "n \<in> set ns")
  case True
  then obtain i where i: "i < length ns" "n = ns ! i" by (auto simp: in_set_conv_nth)
  have lt: "ns ! a < ns ! b \<longleftrightarrow> a < b" if "a < length ns" "b < length ns" for a b
  proof -
    have "sorted_wrt (<) ns" using assms by (simp add: strict_sorted_iff)
    then have up: "\<And>a b. a < b \<Longrightarrow> b < length ns \<Longrightarrow> ns ! a < ns ! b" by (rule sorted_wrt_nth_less)
    show ?thesis using up [of a b] up [of b a] that by (cases a b rule: linorder_cases) auto
  qed
  have "filter (\<lambda>m. n < m) ns = drop (Suc i) ns"
  proof -
    have "filter (\<lambda>m. n < m) (take (Suc i) ns) = []"
      using i lt by (auto simp: filter_empty_conv in_set_conv_nth)
    moreover have "filter (\<lambda>m. n < m) (drop (Suc i) ns) = drop (Suc i) ns"
      using i lt by (auto simp: filter_id_conv in_set_conv_nth)
    ultimately show ?thesis by (metis append_Nil append_take_drop_id filter_append)
  qed
  moreover have "n \<in> set (take (length ns - k) ns) \<longleftrightarrow> i < length ns - k"
    using i assms(2) by (auto simp: in_set_conv_nth nth_eq_iff_index_eq)
  ultimately show ?thesis using i True by auto
next
  case False
  then show ?thesis by (auto dest: in_set_takeD)
qed

subsection \<open>Removing old files\<close>

definition old_files :: "regexp \<Rightarrow> string list \<Rightarrow> nat \<Rightarrow> string list" where
  "old_files sel names k =
     (let ns = sort (List.map_filter (file_number sel) names) in
      map (\<lambda>n. last (filter (\<lambda>f. file_number sel f = Some n) names)) (take (length ns - k) ns))"

abbreviation prune :: "upd_env \<Rightarrow> workdir \<Rightarrow> string list \<Rightarrow> workdir" where
  "prune env d fs \<equiv> foldl (\<lambda>d1 n. if ue_remove_err env n \<noteq> None then d1 else dir_del n d1) d fs"

lemma set_map_filter: "y \<in> set (List.map_filter h xs) \<longleftrightarrow> (\<exists>x\<in>set xs. h x = Some y)"
  by (induction xs) (auto simp: List.map_filter_simps split: option.splits)

lemma length_map_filter_le: "length (List.map_filter h xs) \<le> length xs"
  by (induction xs) (auto simp: List.map_filter_simps split: option.splits)

lemma hits_last:
  assumes "n \<in> set (List.map_filter (file_number sel) names)"
  shows "filter (\<lambda>f. file_number sel f = Some n) names \<noteq> []"
    and "last (filter (\<lambda>f. file_number sel f = Some n) names) \<in> set names"
    and "file_number sel (last (filter (\<lambda>f. file_number sel f = Some n) names)) = Some n"
proof -
  show ne: "filter (\<lambda>f. file_number sel f = Some n) names \<noteq> []"
    using assms by (auto simp: set_map_filter filter_empty_conv)
  from last_in_set [OF this]
  show "last (filter (\<lambda>f. file_number sel f = Some n) names) \<in> set names"
    and "file_number sel (last (filter (\<lambda>f. file_number sel f = Some n) names)) = Some n" by simp_all
qed

lemma removeOld_fold:
  fixes sel names
  defines "ns \<equiv> List.map_filter (file_number sel) names"
  assumes "set xs \<subseteq> set ns"
  shows "foldl (\<lambda>d1 n. os_Remove env (case snd (old_numbers sel names [] Map.empty) n of Some f \<Rightarrow> f | None \<Rightarrow> []) d1) d xs =
    prune env d (map (\<lambda>n. last (filter (\<lambda>f. file_number sel f = Some n) names)) xs)"
  using assms(2)
proof (induction xs arbitrary: d)
  case (Cons n xs)
  then have "n \<in> set (List.map_filter (file_number sel) names)" by (simp add: ns_def)
  with hits_last(1) [OF this] Cons show ?case by (simp add: old_numbers_snd os_Remove_if)
qed simp

text \<open>Whatever goes wrong, only files that the pattern matches are removed.\<close>

lemma removeOld_Ret:
  assumes "removeOld env re sel keep d = Ret d'"
  shows "\<exists>fs. d' = prune env d fs \<and> (\<forall>f\<in>set fs. file_number sel f \<noteq> None)"
proof -
  define names where "names = (case re of Some (n, _) \<Rightarrow> take n (dir_names d) | None \<Rightarrow> dir_names d)"
  let ?ns = "List.map_filter (file_number sel) names"
  obtain k where d': "d' = foldl (\<lambda>d1 n. os_Remove env (case snd (old_numbers sel names [] Map.empty) n of
      Some f \<Rightarrow> f | None \<Rightarrow> []) d1) d (take k (sort ?ns))"
    using assms old_numbers_fst [of sel names "[]" Map.empty]
    by (auto simp: removeOld_def Let_def names_def [symmetric] split: prod.splits if_splits)
  have sub: "set (take k (sort ?ns)) \<subseteq> set ?ns" using set_take_subset [of k "sort ?ns"] by simp
  with d' removeOld_fold [of "take k (sort ?ns)" sel names env d]
  have "d' = prune env d (map (\<lambda>n. last (filter (\<lambda>f. file_number sel f = Some n) names)) (take k (sort ?ns)))" by simp
  moreover have "file_number sel (last (filter (\<lambda>f. file_number sel f = Some n) names)) \<noteq> None"
    if "n \<in> set (take k (sort ?ns))" for n
    using hits_last(3) [of n sel names] sub that by auto
  ultimately show ?thesis by (metis (no_types, lifting) imageE list.set_map)
qed

lemma removeOld_ok:
  assumes "0 \<le> keep" and "keep < 2 ^ 63" and "length d < 2 ^ 63"
  shows "removeOld env None sel keep d = Ret (prune env d (old_files sel (dir_names d) (nat keep)))"
proof -
  let ?ns = "List.map_filter (file_number sel) (dir_names d)"
  have "int (length ?ns) < 2 ^ 63"
    using assms(3) length_map_filter_le [of "file_number sel" "dir_names d"] by (simp add: dir_names_def)
  then have bound: "int_sub (int (length ?ns)) keep = int (length ?ns) - keep" using assms by (simp add: int_sub_exact)
  have n: "nat (int (length ?ns) - keep) = length ?ns - nat keep" using assms(1) by linarith
  have sub: "set (take (length ?ns - nat keep) (sort ?ns)) \<subseteq> set ?ns"
    using set_take_subset [of "length ?ns - nat keep" "sort ?ns"] by simp
  obtain m where m: "old_numbers sel (dir_names d) [] Map.empty = (?ns, m)"
    using old_numbers_fst [of sel "dir_names d" "[]" Map.empty] by (cases "old_numbers sel (dir_names d) [] Map.empty") simp
  show ?thesis
    using removeOld_fold [OF sub, of env d] assms(1)
    unfolding removeOld_def option.case m Let_def prod.case snd_conv length_sort bound n old_files_def by simp
qed

lemma map_filter_inj:
  "distinct (List.map_filter h xs) \<Longrightarrow> x \<in> set xs \<Longrightarrow> y \<in> set xs \<Longrightarrow> h x = Some n \<Longrightarrow> h y = Some n \<Longrightarrow> x = y"
  by (induction xs) (auto simp: List.map_filter_simps set_map_filter split: option.splits)

lemma length_filter_sort: "length (filter P (sort xs)) = length (filter P xs)"
  by (simp add: filter_sort)

lemma length_filter_map_filter:
  "length (filter P (List.map_filter h xs)) = length (filter (\<lambda>x. \<exists>y. h x = Some y \<and> P y) xs)"
  by (induction xs) (auto simp: List.map_filter_simps split: option.splits)

text \<open>When no two files have the same number, the old ones are those with \<open>k\<close> newer ones.\<close>

lemma old_files_iff:
  assumes "distinct (List.map_filter (file_number sel) names)"
  shows "f \<in> set (old_files sel names k) \<longleftrightarrow>
    f \<in> set names \<and> (\<exists>n. file_number sel f = Some n \<and>
      k \<le> length (filter (\<lambda>g. \<exists>m. file_number sel g = Some m \<and> n < m) names))"
proof -
  let ?ns = "List.map_filter (file_number sel) names"
  have old: "n \<in> set (take (length ?ns - k) (sort ?ns)) \<longleftrightarrow>
      n \<in> set ?ns \<and> k \<le> length (filter (\<lambda>g. \<exists>m. file_number sel g = Some m \<and> n < m) names)" for n
    using take_all_but [of "sort ?ns" n k] assms by (simp add: length_filter_sort length_filter_map_filter)
  have uniq: "last (filter (\<lambda>f. file_number sel f = Some n) names) = f"
    if "f \<in> set names" "file_number sel f = Some n" for f n
  proof -
    have "n \<in> set ?ns" using that by (auto simp: set_map_filter)
    from map_filter_inj [OF assms hits_last(2) [OF this] that(1) hits_last(3) [OF this] that(2)] show ?thesis .
  qed
  show ?thesis
  proof
    assume "f \<in> set (old_files sel names k)"
    then obtain n where n: "n \<in> set (take (length ?ns - k) (sort ?ns))"
      "f = last (filter (\<lambda>f. file_number sel f = Some n) names)" by (auto simp: old_files_def Let_def)
    from n(1) have "n \<in> set ?ns" using old by blast
    from hits_last(2,3) [OF this] n old show "f \<in> set names \<and> (\<exists>n. file_number sel f = Some n \<and>
      k \<le> length (filter (\<lambda>g. \<exists>m. file_number sel g = Some m \<and> n < m) names))" by blast
  next
    assume "f \<in> set names \<and> (\<exists>n. file_number sel f = Some n \<and>
      k \<le> length (filter (\<lambda>g. \<exists>m. file_number sel g = Some m \<and> n < m) names))"
    then obtain n where n: "f \<in> set names" "file_number sel f = Some n"
      "k \<le> length (filter (\<lambda>g. \<exists>m. file_number sel g = Some m \<and> n < m) names)" by blast
    then have "n \<in> set (take (length ?ns - k) (sort ?ns))" using old by (auto simp: set_map_filter)
    with uniq [OF n(1,2)] show "f \<in> set (old_files sel names k)" by (force simp: old_files_def Let_def)
  qed
qed

subsection \<open>Domains and lines\<close>

lemma write_lines_ok: "\<forall>i. werr i = None \<Longrightarrow> write_lines werr i ls data = (None, data @ file_of_lines ls)"
  by (induction ls arbitrary: i data) (auto simp: file_of_lines_def)

lemma write_lines_None: "write_lines werr i ls data = (None, data') \<Longrightarrow> data' = data @ file_of_lines ls"
  by (induction ls arbitrary: i data) (fastforce simp: file_of_lines_def split: option.splits)+

lemma file_of_lines_append: "file_of_lines (xs @ ys) = file_of_lines xs @ file_of_lines ys"
  by (simp add: file_of_lines_def)

lemma fresh_domains_spec:
  "distinct (fst (fresh_domains seen ds)) \<and>
   set (fst (fresh_domains seen ds)) = {x \<in> set ds. \<not> lookup_bool seen x} \<and>
   (\<forall>x. lookup_bool (snd (fresh_domains seen ds)) x \<longleftrightarrow> lookup_bool seen x \<or> x \<in> set ds)"
proof (induction ds arbitrary: seen)
  case (Cons d ds)
  show ?case
  proof (cases "lookup_bool seen d")
    case True
    with Cons.IH [of seen] show ?thesis by auto
  next
    case False
    with Cons.IH [of "seen(d \<mapsto> True)"] show ?thesis by (auto simp: case_prod_beta simp del: fun_upd_apply)
  qed
qed simp

lemma domains_loop_spec:
  "distinct (domains_loop looked us) \<and>
   set (domains_loop looked us) = {h. \<not> lookup_bool looked h \<and> (\<exists>u\<in>set us. urlToDomain u = Inr h)}"
proof (induction us arbitrary: looked)
  case (Cons u us)
  show ?case
  proof (cases "urlToDomain u")
    case (Inl e)
    with Cons.IH [of looked] show ?thesis by auto
  next
    case (Inr h)
    show ?thesis
    proof (cases "lookup_bool looked h")
      case True
      with Inr Cons.IH [of looked] show ?thesis by auto
    next
      case False
      with Inr Cons.IH [of "looked(h \<mapsto> True)"] show ?thesis by (auto simp del: fun_upd_apply)
    qed
  qed
qed simp

lemma urlToDomain_not_IP: "urlToDomain u = Inr h \<Longrightarrow> ParseIP h = None"
  by (auto simp: urlToDomain_def Let_def split: sum.splits if_splits)

lemma urlToDomain_usual:
  assumes "scheme_text s" and "list_all host_char h" and "h \<noteq> []" and "validOptionalPort port"
    and "path_text p" and "query_text q"
  shows "urlToDomain (s @ ''://'' @ h @ port @ p @ q) =
    (if ParseIP h = None then Inr h else Inl (''host name is IP ('' @ h @ '')''))"
  using url_Parse_usual [OF assms]
    Hostname_usual [OF assms(2-4), of "\<lparr>url_Scheme = s, url_Opaque = [], url_Host = h @ port, url_Path = p\<rparr>"]
  by (simp add: urlToDomain_def)

lemma scan_lines_line:
  assumes "LF \<notin> set l" and "length l < maxTokenSize"
  shows "scan_lines e (l @ LF # rest) = (strip_CR l # fst (scan_lines e rest), snd (scan_lines e rest))"
proof -
  have "takeWhile (\<lambda>c. c \<noteq> LF) (l @ LF # rest) = l" using assms(1) by (intro takeWhile_append_stop) auto
  moreover have "LF \<in> set (take maxTokenSize (l @ LF # rest))" using assms(2) by (simp add: take_Cons')
  ultimately show ?thesis by (subst scan_lines.simps) (simp add: case_prod_beta)
qed

lemma scan_lines_file:
  "list_all (\<lambda>l. LF \<notin> set l \<and> length l < maxTokenSize) ls \<Longrightarrow>
     scan_lines e (file_of_lines ls) = (map strip_CR ls, e)"
proof (induction ls)
  case Nil
  show ?case by (subst scan_lines.simps) (simp add: file_of_lines_def maxTokenSize_def)
next
  case (Cons l ls)
  then show ?case using scan_lines_line [of l e "file_of_lines ls"] by (simp add: file_of_lines_def)
qed

subsection \<open>What each step leaves alone\<close>

abbreviation new_white :: string where "new_white \<equiv> ''whitelist.new.txt''"
abbreviation new_black :: string where "new_black \<equiv> ''blacklist.new.txt''"

lemma open_for_write_frame:
  assumes "open_for_write n d = (old, d1)"
  shows "(f \<noteq> n \<longrightarrow> map_of d1 f = map_of d f) \<and> (distinct (dir_names d) \<longrightarrow> distinct (dir_names d1)) \<and>
    length d1 \<le> Suc (length d) \<and> n \<in> set (dir_names d1) \<and> old = (case map_of d n of Some c \<Rightarrow> c | None \<Rightarrow> [])"
proof -
  have l: "length (dir_put n c d) \<le> Suc (length d)" for c by (induction n c d rule: dir_put.induct) auto
  show ?thesis
    using assms l store.distinct_put [of d n "[]"]
    by (auto simp: open_for_write_def store.get_put store.names_get split: option.splits)
qed

text \<open>
  A step of the directory that touches one file only, and makes the directory longer by one entry at most.
\<close>

definition touches :: "string \<Rightarrow> workdir \<Rightarrow> workdir \<Rightarrow> bool" where
  "touches n d d' \<longleftrightarrow>
     (\<forall>f. f \<noteq> n \<longrightarrow> map_of d' f = map_of d f) \<and> (distinct (dir_names d) \<longrightarrow> distinct (dir_names d')) \<and>
     length d' \<le> Suc (length d)"

lemma dir_put_length: "length (dir_put n c d) = (if n \<in> set (dir_names d) then length d else Suc (length d))"
proof -
  have "length (dir_names (dir_put n c d)) = (if n \<in> set (dir_names d) then length d else Suc (length d))"
    by (simp add: dir_put_names) (simp add: dir_names_def)
  then show ?thesis by (simp add: dir_names_def)
qed

lemma touches_refl [intro]: "touches n d d"
  by (simp add: touches_def)

lemma touches_open_put:
  assumes "open_for_write n d = (old, d1)"
  shows "touches n d d1" and "touches n d (dir_put n c d1)"
  using open_for_write_frame [OF assms] dir_put_length [of n c d1] store.distinct_put [of d1 n c]
  by (auto simp: touches_def store.get_put)

lemma writeWhitelist_touches:
  assumes "writeWhitelist env d = (e, d')"
  shows "touches new_white d d'"
  using assms touches_open_put [where n = new_white and d = d]
  by (auto simp: writeWhitelist_def Let_def split: option.splits prod.splits sum.splits)

lemma writeBlacklist_touches:
  assumes "writeBlacklist env d = (e, d')"
  shows "touches new_black d d'"
  using assms touches_open_put [where n = new_black and d = d]
  by (auto simp: writeBlacklist_def Let_def split: option.splits prod.splits sum.splits if_splits)

lemma writeWhitelist_None:
  assumes "writeWhitelist env d = (None, d')"
  shows "\<exists>ws. majestic1MFetch env = Inr ws \<and>
    map_of d' new_white = Some (overwrite (case map_of d new_white of Some c \<Rightarrow> c | None \<Rightarrow> []) (file_of_lines ws))"
proof -
  obtain old d1 where o: "open_for_write new_white d = (old, d1)" by fastforce
  with assms open_for_write_frame [OF o] show ?thesis
    by (auto simp: writeWhitelist_def Let_def store.get_put dest!: write_lines_None
        split: option.splits prod.splits sum.splits)
qed

definition open_phish :: "upd_env \<Rightarrow> string list" where
  "open_phish env = (case openPhishFetch env of Inl _ \<Rightarrow> [] | Inr ds \<Rightarrow> ds)"

text \<open>The lines of the blacklist: the PhishTank domains, then the OpenPhish domains that are new.\<close>

definition blacklist_lines :: "upd_env \<Rightarrow> string list \<Rightarrow> string list" where
  "blacklist_lines env ps =
     (let (xs, seen) = fresh_domains Map.empty ps in xs @ fst (fresh_domains seen (open_phish env)))"

lemma blacklist_lines_spec:
  "distinct (blacklist_lines env ps) \<and> set (blacklist_lines env ps) = set ps \<union> set (open_phish env)"
  using fresh_domains_spec [of Map.empty ps]
    fresh_domains_spec [of "snd (fresh_domains Map.empty ps)" "open_phish env"]
  by (auto simp: blacklist_lines_def case_prod_beta)

lemma writeBlacklist_None:
  assumes "writeBlacklist env d = (None, d')"
  shows "\<exists>ps. phishTankFetch env = Inr ps \<and>
    map_of d' new_black =
      Some (overwrite (case map_of d new_black of Some c \<Rightarrow> c | None \<Rightarrow> []) (file_of_lines (blacklist_lines env ps)))"
proof -
  obtain old d1 where o: "open_for_write new_black d = (old, d1)" by fastforce
  obtain ps where ps: "phishTankFetch env = Inr ps"
    using assms by (auto simp: writeBlacklist_def Let_def split: option.splits prod.splits sum.splits)
  obtain xs seen where x: "fresh_domains Map.empty ps = (xs, seen)" by fastforce
  obtain ys seen2 where y: "fresh_domains seen (open_phish env) = (ys, seen2)" by fastforce
  have bl: "blacklist_lines env ps = xs @ ys" by (simp add: blacklist_lines_def x y)
  have "d' = dir_put new_black (overwrite old (file_of_lines (xs @ ys))) d1"
    using assms by (auto simp: writeBlacklist_def Let_def o ps x y open_phish_def [symmetric] file_of_lines_append
        dest!: write_lines_None split: option.splits prod.splits if_splits)
  then show ?thesis using ps open_for_write_frame [OF o] by (simp add: bl store.get_put)
qed

subsection \<open>Publishing\<close>

definition next_number :: "string \<Rightarrow> workdir \<Rightarrow> int" where
  "next_number base d = int_add (fst (max_number_loop (list_RE base) (dir_names d) (-1) Map.empty)) 1"

definition numbers_fit :: "string \<Rightarrow> workdir \<Rightarrow> bool" where
  "numbers_fit base d \<longleftrightarrow> (\<forall>f\<in>set (dir_names d). file_number (list_RE base) f \<noteq> Some (2 ^ 63 - 1))"

lemma Itoa_hd: "\<exists>c cs. strconv_Itoa n = c # cs \<and> is_digit c"
  using Itoa_digits [of n] by (cases "strconv_Itoa n") auto

lemma numbered_not_new: "numbered base n \<noteq> base @ ''.new.txt''"
proof -
  obtain c cs where "itoa_int n = c # cs" "is_digit c \<or> c = CHR ''-''"
    using Itoa_hd [of "nat n"] by (cases "n < 0") (auto simp: itoa_int_def)
  then show ?thesis by (auto simp: numbered_def is_digit_def)
qed

lemma file_number_numbered:
  assumes "0 \<le> n" and "n < 2 ^ 63"
  shows "file_number (list_RE base) (numbered base n) = Some n"
proof -
  have "numbered base n = base @ ''.'' @ strconv_Itoa (nat n) @ ''.txt''"
    using assms(1) by (simp add: numbered_def itoa_int_def)
  with assms show ?thesis
    by (auto simp: file_number_list_RE Itoa_digits dec_from_Itoa simp del: append.simps intro!: exI [of _ "strconv_Itoa (nat n)"])
qed

lemma file_number_new: "file_number (list_RE base) (base @ ''.new.txt'') = None"
proof -
  have "file_number (list_RE base) (base @ ''.new.txt'') \<noteq> Some n" for n
    by (auto simp: file_number_list_RE list_all_iff is_digit_def dest!: arg_cong [where f = hd] split: list.splits)
  then show ?thesis by (cases "file_number (list_RE base) (base @ ''.new.txt'')") auto
qed

lemma next_number_fresh:
  assumes "numbers_fit base d"
  shows "0 \<le> next_number base d" and "next_number base d < 2 ^ 63"
    and "file_number (list_RE base) (numbered base (next_number base d)) = Some (next_number base d)"
    and "f \<in> set (dir_names d) \<Longrightarrow> file_number (list_RE base) f = Some n \<Longrightarrow> n < next_number base d"
proof -
  let ?M = "fst (max_number_loop (list_RE base) (dir_names d) (-1) Map.empty)"
  have ge: "-1 \<le> ?M" by (rule max_number_loop_ge)
  have lt: "?M < 2 ^ 63 - 1"
    using max_number_loop_in [of "list_RE base" "dir_names d" "-1" Map.empty]
  proof
    assume "\<exists>f\<in>set (dir_names d). file_number (list_RE base) f = Some ?M"
    then obtain f where f: "f \<in> set (dir_names d)" "file_number (list_RE base) f = Some ?M" by blast
    then have "?M < 2 ^ 63" by (auto simp: file_number_list_RE)
    moreover have "?M \<noteq> 2 ^ 63 - 1" using f assms by (auto simp: numbers_fit_def)
    ultimately show ?thesis by simp
  qed simp
  have nx: "next_number base d = ?M + 1" unfolding next_number_def using ge lt by (subst int_add_exact) auto
  show ge0: "0 \<le> next_number base d" and lt0: "next_number base d < 2 ^ 63" using nx ge lt by auto
  show "file_number (list_RE base) (numbered base (next_number base d)) = Some (next_number base d)"
    using ge0 lt0 by (rule file_number_numbered)
  show "n < next_number base d" if "f \<in> set (dir_names d)" "file_number (list_RE base) f = Some n"
    using max_number_loop_all [OF that, of "-1" Map.empty] nx by simp
qed

lemma publish_Some: "publish env re base d = (Some e, d') \<Longrightarrow> d' = d"
  by (auto simp: publish_def dest: os_Rename_Some split: sum.splits prod.splits option.splits)

lemma dir_del_length: "length (dir_del n d) \<le> length d"
  by (simp add: dir_del_def)

lemma publish_None:
  assumes "publish env re base d = (None, d')"
  shows "\<exists>c. map_of d (base @ ''.new.txt'') = Some c \<and>
    map_of d' = (map_of d)(base @ ''.new.txt'' := None, numbered base (next_number base d) \<mapsto> c) \<and>
    (distinct (dir_names d) \<longrightarrow> distinct (dir_names d')) \<and> length d' \<le> Suc (length d)"
proof -
  have r: "os_Rename env (base @ ''.new.txt'') (numbered base (next_number base d)) d = (None, d')"
    using assms by (auto simp: publish_def maxNumberForRE_def next_number_def split: sum.splits prod.splits option.splits)
  have "length d' \<le> Suc (length d)"
    using r dir_del_length [of "base @ ''.new.txt''" d]
    by (auto simp: os_Rename_def dir_put_length split: option.splits if_splits)
  with os_Rename_None [OF r numbered_not_new [symmetric]] show ?thesis by blast
qed

lemma file_number_prefix: "file_number (list_RE base) f = Some n \<Longrightarrow> \<exists>r. f = base @ ''.'' @ r"
  by (auto simp: file_number_list_RE)

lemma file_number_other:
  "file_number (list_RE ''blacklist'') (''whitelist'' @ r) = None"
  "file_number (list_RE ''whitelist'') (''blacklist'' @ r) = None"
  using file_number_prefix by (fastforce intro: option.exhaust)+

lemmas file_number_news = file_number_new [of "''whitelist''", simplified] file_number_new [of "''blacklist''", simplified]
  file_number_other(1) [of "''.new.txt''", simplified] file_number_other(2) [of "''.new.txt''", simplified]

lemma numbers_fit_dom: "numbers_fit base d \<longleftrightarrow> (\<forall>f c. map_of d f = Some c \<longrightarrow> file_number (list_RE base) f \<noteq> Some (2 ^ 63 - 1))"
  by (auto simp: numbers_fit_def store.names_get)

lemma touches_fit: "touches n d d' \<Longrightarrow> file_number (list_RE base) n = None \<Longrightarrow> numbers_fit base d \<Longrightarrow> numbers_fit base d'"
  unfolding numbers_fit_dom touches_def by (metis option.distinct(1))

lemma numbered_other:
  "file_number (list_RE ''blacklist'') (numbered ''whitelist'' n) = None"
  "file_number (list_RE ''whitelist'') (numbered ''blacklist'' n) = None"
  unfolding numbered_def by (rule file_number_other)+

lemma publish_white_fit:
  assumes "publish env re ''whitelist'' d = (x, d')" and "numbers_fit ''blacklist'' d"
  shows "numbers_fit ''blacklist'' d'"
proof (cases x)
  case None
  with publish_None [of env re "''whitelist''" d d'] assms show ?thesis
    by (auto simp: numbers_fit_dom numbered_other split: if_splits)
next
  case (Some e)
  with publish_Some assms show ?thesis by blast
qed

lemma publish_keeps:
  assumes "publish env re base d = (x, d')" and "numbers_fit base d" and "f \<noteq> base @ ''.new.txt''" and "map_of d f = Some c"
  shows "map_of d' f = Some c"
proof (cases x)
  case None
  have "f \<in> set (dir_names d)" using assms(4) by (auto simp: store.names_get)
  then have "f \<noteq> numbered base (next_number base d)"
    using next_number_fresh(3,4) [OF assms(2)] by blast
  with None publish_None [of env re base d d'] assms show ?thesis by auto
next
  case (Some e)
  with publish_Some assms show ?thesis by blast
qed

lemma removeOld_keeps:
  assumes "removeOld env re sel keep d = Ret d'"
  shows "map_of d' f = map_of d f \<or> map_of d' f = None \<and> file_number sel f \<noteq> None"
  using removeOld_Ret [OF assms] store.get_prune [of "\<lambda>n. ue_remove_err env n \<noteq> None" d] by fastforce

lemma process_frame:
  assumes p: "process env keep url d = Ret (e, d')"
    and fit: "numbers_fit ''whitelist'' d" "numbers_fit ''blacklist'' d"
    and f: "f \<noteq> new_white" "f \<noteq> new_black" "map_of d f = Some c"
  shows "map_of d' f = Some c \<or>
    map_of d' f = None \<and> (file_number (list_RE ''whitelist'') f \<noteq> None \<or> file_number (list_RE ''blacklist'') f \<noteq> None) \<and>
    (\<exists>ws ps. majestic1MFetch env = Inr ws \<and> phishTankFetch env = Inr ps)"
proof -
  obtain e1 d1 where w: "writeWhitelist env d = (e1, d1)" by fastforce
  obtain e2 d2 where b: "writeBlacklist env d1 = (e2, d2)" by fastforce
  obtain e3 d3 where pw: "publish env (ue_readdir_err env 0) ''whitelist'' d2 = (e3, d3)" by fastforce
  obtain e4 d4 where pb: "publish env (ue_readdir_err env 1) ''blacklist'' d3 = (e4, d4)" by fastforce
  note tw = writeWhitelist_touches [OF w] and tb = writeBlacklist_touches [OF b]
  have m1: "map_of d1 f = Some c" and m2: "map_of d2 f = Some c" using tw tb f by (auto simp: touches_def)
  have fit2: "numbers_fit ''whitelist'' d2" "numbers_fit ''blacklist'' d2"
    using fit touches_fit [OF tw] touches_fit [OF tb] by (simp_all add: file_number_news)
  have m3: "map_of d3 f = Some c" using publish_keeps [OF pw fit2(1)] f m2 by simp
  have m4: "map_of d4 f = Some c" using publish_keeps [OF pb publish_white_fit [OF pw fit2(2)]] f m3 by simp
  show ?thesis
  proof (cases "e1 = None \<and> e2 = None \<and> e3 = None \<and> e4 = None")
    case False
    with p m1 m2 m3 m4 show ?thesis by (auto simp: process_def w b pw pb [simplified] split: option.splits)
  next
    case True
    then obtain d5 d6 where r: "removeOld env (ue_readdir_err env 2) (list_RE ''whitelist'') keep d4 = Ret d5"
      "removeOld env (ue_readdir_err env 3) (list_RE ''blacklist'') keep d5 = Ret d6" "d' = d6"
      using p by (auto simp: process_def w b pw pb [simplified] go_bind_eq_Ret)
    have "\<exists>ws ps. majestic1MFetch env = Inr ws \<and> phishTankFetch env = Inr ps"
      using True writeWhitelist_None writeBlacklist_None w b by blast
    with removeOld_keeps [OF r(1), of f] removeOld_keeps [OF r(2), of f] m4 r(3) show ?thesis by auto
  qed
qed

subsection \<open>A round without failures of the file system\<close>

definition quiet :: "upd_env \<Rightarrow> bool" where
  "quiet env \<longleftrightarrow> (\<forall>n. ue_open_err env n = None) \<and> (\<forall>i. ue_readdir_err env i = None) \<and>
     (\<forall>n i. ue_write_err env n i = None) \<and> (\<forall>n. ue_rename_err env n = None)"

lemma writeWhitelist_quiet:
  assumes "quiet env" and "majestic1MFetch env = Inr ws"
  shows "\<exists>d'. writeWhitelist env d = (None, d')"
  using assms by (auto simp: writeWhitelist_def quiet_def write_lines_ok Let_def split: prod.splits)

lemma writeBlacklist_quiet:
  assumes "quiet env" and "phishTankFetch env = Inr ps"
  shows "\<exists>d'. writeBlacklist env d = (None, d')"
  using assms by (auto simp: writeBlacklist_def quiet_def write_lines_ok Let_def split: prod.splits)

lemma publish_quiet:
  assumes "quiet env" and "map_of d (base @ ''.new.txt'') = Some c"
  shows "\<exists>d'. publish env (ue_readdir_err env i) base d = (None, d')"
  using assms by (auto simp: publish_def maxNumberForRE_def quiet_def os_Rename_def)

lemma sorted_le_last: "sorted xs \<Longrightarrow> x \<in> set xs \<Longrightarrow> x \<le> last xs"
  by (induction xs) auto

lemma distinct_filter_eq: "distinct xs \<Longrightarrow> length (filter (\<lambda>y. y = x) xs) \<le> 1"
  by (induction xs) (auto simp: filter_empty_conv)

lemma newest_not_old:
  assumes "distinct names" and "f \<in> set names" and "file_number sel f = Some n"
    and "\<And>g m. g \<in> set names \<Longrightarrow> g \<noteq> f \<Longrightarrow> file_number sel g = Some m \<Longrightarrow> m < n" and "1 \<le> k"
  shows "f \<notin> set (old_files sel names k)"
proof
  let ?ns = "List.map_filter (file_number sel) names"
  let ?s = "sort ?ns"
  assume "f \<in> set (old_files sel names k)"
  then obtain m where m: "m \<in> set (take (length ?ns - k) ?s)"
    "f = last (filter (\<lambda>f. file_number sel f = Some m) names)" by (auto simp: old_files_def Let_def)
  have "m \<in> set ?ns" using in_set_takeD [OF m(1)] by simp
  with hits_last(3) [OF this] m(2) assms(3) have "m = n" by simp
  have "n \<in> set ?ns" using assms(2,3) by (auto simp: set_map_filter)
  then have ne: "?s \<noteq> []" by (auto simp flip: set_empty)
  have le: "x \<le> n" if "x \<in> set ?s" for x
    using that assms(3,4) by (fastforce simp: set_map_filter)
  have "n \<le> last ?s" using \<open>n \<in> set ?ns\<close> by (intro sorted_le_last) simp_all
  with le [OF last_in_set [OF ne]] have l: "last ?s = n" by simp
  have "take (length ?ns - k) ?s = take (length ?ns - k) (butlast ?s)"
    using assms(5) by (simp add: butlast_conv_take min_def)
  with m(1) \<open>m = n\<close> have "n \<in> set (butlast ?s)" by (metis in_set_takeD)
  then have "1 \<le> length (filter ((=) n) (butlast ?s))"
    by (auto simp: Suc_le_eq filter_empty_conv)
  then have "2 \<le> length (filter ((=) n) (butlast ?s @ [last ?s]))" using l by simp
  then have "2 \<le> length (filter ((=) n) ?s)" using ne by simp
  then have "2 \<le> length (filter (\<lambda>g. file_number sel g = Some n) names)"
    by (simp add: length_filter_sort length_filter_map_filter eq_commute [of n] conj_commute)
  moreover have "filter (\<lambda>g. file_number sel g = Some n) names = filter (\<lambda>g. g = f) names"
    using assms(3,4) by (intro filter_cong) auto
  moreover have "length (filter (\<lambda>g. g = f) names) \<le> 1"
    using assms(1) by (rule distinct_filter_eq)
  ultimately show False by simp
qed

lemma next_number_cong:
  assumes "\<And>n. (\<exists>f\<in>set (dir_names d). file_number (list_RE base) f = Some n) \<longleftrightarrow>
      (\<exists>f\<in>set (dir_names d'). file_number (list_RE base) f = Some n)"
  shows "next_number base d = next_number base d'"
proof -
  let ?M = "\<lambda>d. fst (max_number_loop (list_RE base) (dir_names d) (-1) Map.empty)"
  have le: "?M a \<le> ?M b" if "\<And>n. (\<exists>f\<in>set (dir_names a). file_number (list_RE base) f = Some n) \<Longrightarrow>
      (\<exists>f\<in>set (dir_names b). file_number (list_RE base) f = Some n)" for a b
    using max_number_loop_in [of "list_RE base" "dir_names a" "-1" Map.empty]
  proof
    assume "?M a = -1"
    then show ?thesis using max_number_loop_ge [of "-1" "list_RE base" "dir_names b" Map.empty] by simp
  next
    assume "\<exists>f\<in>set (dir_names a). file_number (list_RE base) f = Some (?M a)"
    from that [OF this] obtain f where "f \<in> set (dir_names b)" "file_number (list_RE base) f = Some (?M a)" by blast
    then show ?thesis by (rule max_number_loop_all)
  qed
  have "?M d = ?M d'" by (rule antisym) (rule le, use assms in blast)+
  then show ?thesis by (simp add: next_number_def)
qed

lemma touches_next:
  assumes "touches n d d'" and "file_number (list_RE base) n = None"
  shows "next_number base d' = next_number base d"
proof (rule next_number_cong)
  have "f \<in> set (dir_names d') \<longleftrightarrow> f \<in> set (dir_names d)" if "f \<noteq> n" for f
    using assms(1) that by (auto simp: touches_def store.names_get)
  then show "(\<exists>f\<in>set (dir_names d'). file_number (list_RE base) f = Some k) \<longleftrightarrow>
      (\<exists>f\<in>set (dir_names d). file_number (list_RE base) f = Some k)" for k
    using assms(2) by (metis option.distinct(1))
qed

lemma publish_white_next:
  assumes "publish env re ''whitelist'' d = (None, d')"
  shows "next_number ''blacklist'' d' = next_number ''blacklist'' d"
proof (rule next_number_cong)
  have "f \<in> set (dir_names d') \<longleftrightarrow> f \<in> set (dir_names d)"
    if "f \<noteq> new_white" "f \<noteq> numbered ''whitelist'' (next_number ''whitelist'' d)" for f
    using publish_None [OF assms] that by (auto simp: store.names_get)
  then show "(\<exists>f\<in>set (dir_names d'). file_number (list_RE ''blacklist'') f = Some k) \<longleftrightarrow>
      (\<exists>f\<in>set (dir_names d). file_number (list_RE ''blacklist'') f = Some k)" for k
    using numbered_other(1) file_number_news(3) by (metis option.distinct(1))
qed

text \<open>A file with its contents that is the only one of its list with the largest number.\<close>

definition newest :: "string \<Rightarrow> string \<Rightarrow> string \<Rightarrow> workdir \<Rightarrow> bool" where
  "newest base f c d \<longleftrightarrow> map_of d f = Some c \<and>
     (\<exists>n. file_number (list_RE base) f = Some n \<and>
       (\<forall>g\<in>set (dir_names d). \<forall>m. g \<noteq> f \<longrightarrow> file_number (list_RE base) g = Some m \<longrightarrow> m < n))"

lemma newest_publish:
  assumes "publish env re base d = (None, d')" and "numbers_fit base d" and "map_of d (base @ ''.new.txt'') = Some c"
  shows "newest base (numbered base (next_number base d)) c d'"
proof -
  have "set (dir_names d') \<subseteq> insert (numbered base (next_number base d)) (set (dir_names d))"
    using publish_None [OF assms(1)] by (auto simp: store.names_get split: if_splits)
  then show ?thesis
    using publish_None [OF assms(1)] next_number_fresh(3,4) [OF assms(2)] assms(3)
    unfolding newest_def by auto
qed

lemma newest_frame:
  assumes "newest base f c d" and "map_of d' f = Some c"
    and "\<And>g. g \<in> set (dir_names d') \<Longrightarrow> g \<in> set (dir_names d) \<or> file_number (list_RE base) g = None"
  shows "newest base f c d'"
  using assms unfolding newest_def by (metis option.distinct(1))

lemma newest_publish_black:
  assumes "newest ''whitelist'' f c d" and "publish env re ''blacklist'' d = (None, d')"
  shows "newest ''whitelist'' f c d'"
proof (rule newest_frame [OF assms(1)])
  have "file_number (list_RE ''whitelist'') f \<noteq> None" using assms(1) by (auto simp: newest_def)
  then have "f \<noteq> new_black" "f \<noteq> numbered ''blacklist'' (next_number ''blacklist'' d)"
    using numbered_other(2) file_number_news(4) by auto
  then show "map_of d' f = Some c" using publish_None [OF assms(2)] assms(1) by (auto simp: newest_def)
  show "g \<in> set (dir_names d) \<or> file_number (list_RE ''whitelist'') g = None" if "g \<in> set (dir_names d')" for g
    using publish_None [OF assms(2)] that numbered_other(2) by (auto simp: store.names_get split: if_splits)
qed

lemma newest_prune:
  assumes "newest base f c d" and "f \<notin> set fs"
  shows "newest base f c (prune env d fs)"
  by (rule newest_frame [OF assms(1)])
     (use assms in \<open>auto simp: newest_def store.get_prune store.names_get split: if_splits\<close>)

lemma newest_prune_own:
  assumes "newest base f c d" and "distinct (dir_names d)" and "1 \<le> k"
  shows "newest base f c (prune env d (old_files (list_RE base) (dir_names d) k))"
proof (rule newest_prune [OF assms(1)])
  from assms(1) obtain n where "map_of d f = Some c" "file_number (list_RE base) f = Some n"
    "\<And>g m. g \<in> set (dir_names d) \<Longrightarrow> g \<noteq> f \<Longrightarrow> file_number (list_RE base) g = Some m \<Longrightarrow> m < n"
    by (auto simp: newest_def)
  then show "f \<notin> set (old_files (list_RE base) (dir_names d) k)"
    using assms(2,3) by (intro newest_not_old) (auto simp: store.names_get)
qed

lemma old_files_number: "f \<in> set (old_files sel names k) \<Longrightarrow> file_number sel f \<noteq> None"
  by (auto simp: old_files_def Let_def dest!: in_set_takeD hits_last(3))

lemma newest_prune_other:
  assumes "newest base f c d" and "\<And>n. file_number (list_RE base) f = Some n \<Longrightarrow> file_number sel f = None"
  shows "newest base f c (prune env d (old_files sel names k))"
  using assms old_files_number [of f sel names k] by (intro newest_prune) (auto simp: newest_def)

lemma prune_length: "length (prune env d fs) \<le> length d"
  by (induction fs arbitrary: d) (auto intro: order_trans [OF _ dir_del_length])

lemma file_number_exclusive:
  "file_number (list_RE ''whitelist'') f = Some n \<Longrightarrow> file_number (list_RE ''blacklist'') f = None"
  "file_number (list_RE ''blacklist'') f = Some n \<Longrightarrow> file_number (list_RE ''whitelist'') f = None"
  using file_number_prefix [of _ f] file_number_other by fastforce+

lemma both_kept:
  assumes nw: "newest ''whitelist'' fw cw d" and nb: "newest ''blacklist'' fb cb d"
    and shape: "distinct (dir_names d)" "length d < 2 ^ 63" and keep: "1 \<le> keep" "keep < 2 ^ 63"
  shows "\<exists>d5 d6. removeOld env None (list_RE ''whitelist'') keep d = Ret d5 \<and>
    removeOld env None (list_RE ''blacklist'') keep d5 = Ret d6 \<and>
    newest ''whitelist'' fw cw d6 \<and> newest ''blacklist'' fb cb d6"
proof -
  let ?W = "list_RE ''whitelist''" and ?B = "list_RE ''blacklist''" and ?k = "nat keep"
  let ?d5 = "prune env d (old_files ?W (dir_names d) ?k)"
  let ?d6 = "prune env ?d5 (old_files ?B (dir_names ?d5) ?k)"
  have k: "1 \<le> ?k" using keep(1) by simp
  have r5: "removeOld env None ?W keep d = Ret ?d5" using keep shape by (intro removeOld_ok) auto
  have d5: "distinct (dir_names ?d5)" "length ?d5 < 2 ^ 63"
    using shape store.distinct_prune [of d] prune_length [of env d] by (auto intro: le_less_trans)
  have r6: "removeOld env None ?B keep ?d5 = Ret ?d6" using keep d5 by (intro removeOld_ok) auto
  have "newest ''whitelist'' fw cw ?d6"
    by (intro newest_prune_other newest_prune_own nw shape k file_number_exclusive)
  moreover have "newest ''blacklist'' fb cb ?d6"
    by (intro newest_prune_own newest_prune_other nb d5 k file_number_exclusive)
  ultimately show ?thesis using r5 r6 by blast
qed

lemma process_quiet:
  assumes q: "quiet env" and ws: "majestic1MFetch env = Inr ws" and ps: "phishTankFetch env = Inr ps"
    and fit: "numbers_fit ''whitelist'' d" "numbers_fit ''blacklist'' d" and dist: "distinct (dir_names d)"
    and len: "length d + 4 < 2 ^ 63" and keep: "1 \<le> keep" "keep < 2 ^ 63"
    and fresh: "map_of d new_white = None" "map_of d new_black = None"
  shows "\<exists>d'. process env keep url d = Ret (notify env url, d') \<and>
    newest ''whitelist'' (numbered ''whitelist'' (next_number ''whitelist'' d)) (file_of_lines ws) d' \<and>
    newest ''blacklist'' (numbered ''blacklist'' (next_number ''blacklist'' d)) (file_of_lines (blacklist_lines env ps)) d'"
proof -
  let ?W = "list_RE ''whitelist''" and ?B = "list_RE ''blacklist''"
  have nr: "ue_readdir_err env i = None" for i using q by (simp add: quiet_def)
  obtain d1 where w: "writeWhitelist env d = (None, d1)" using writeWhitelist_quiet [OF q ws] by blast
  obtain d2 where b: "writeBlacklist env d1 = (None, d2)" using writeBlacklist_quiet [OF q ps] by blast
  note tw = writeWhitelist_touches [OF w] and tb = writeBlacklist_touches [OF b]
  have d1: "map_of d1 new_white = Some (file_of_lines ws)" "map_of d1 new_black = None"
    using writeWhitelist_None [OF w] ws fresh tw by (auto simp: touches_def overwrite_def)
  have d2: "map_of d2 new_white = Some (file_of_lines ws)" "map_of d2 new_black = Some (file_of_lines (blacklist_lines env ps))"
    using writeBlacklist_None [OF b] ps d1 tb by (auto simp: touches_def overwrite_def)
  have fit2: "numbers_fit ''whitelist'' d2" "numbers_fit ''blacklist'' d2"
    using fit touches_fit [OF tw] touches_fit [OF tb] by (simp_all add: file_number_news)
  have next2: "next_number ''whitelist'' d2 = next_number ''whitelist'' d" "next_number ''blacklist'' d2 = next_number ''blacklist'' d"
    using touches_next [OF tw] touches_next [OF tb] by (simp_all add: file_number_news)
  obtain d3 where pw: "publish env (ue_readdir_err env 0) ''whitelist'' d2 = (None, d3)"
    using publish_quiet [OF q, of d2 "''whitelist''"] d2(1) by fastforce
  have nw3: "newest ''whitelist'' (numbered ''whitelist'' (next_number ''whitelist'' d)) (file_of_lines ws) d3"
    using newest_publish [OF pw fit2(1)] d2(1) next2(1) by simp
  have d3: "map_of d3 new_black = Some (file_of_lines (blacklist_lines env ps))"
    using publish_keeps [OF pw fit2(1)] d2(2) by simp
  obtain d4 where pb: "publish env (ue_readdir_err env 1) ''blacklist'' d3 = (None, d4)"
    using publish_quiet [OF q, of d3 "''blacklist''"] d3 by fastforce
  have nw4: "newest ''whitelist'' (numbered ''whitelist'' (next_number ''whitelist'' d)) (file_of_lines ws) d4"
    by (rule newest_publish_black [OF nw3 pb])
  have nb4: "newest ''blacklist'' (numbered ''blacklist'' (next_number ''blacklist'' d)) (file_of_lines (blacklist_lines env ps)) d4"
    using newest_publish [OF pb publish_white_fit [OF pw fit2(2)]] d3 publish_white_next [OF pw] next2(2) by simp
  have shape: "distinct (dir_names d4)" "length d4 < 2 ^ 63"
    using dist len tw tb publish_None [OF pw] publish_None [OF pb] by (auto simp: touches_def)
  from both_kept [OF nw4 nb4 shape keep, of env] obtain d5 d6 where
    r: "removeOld env None ?W keep d4 = Ret d5" "removeOld env None ?B keep d5 = Ret d6"
    and "newest ''whitelist'' (numbered ''whitelist'' (next_number ''whitelist'' d)) (file_of_lines ws) d6"
    "newest ''blacklist'' (numbered ''blacklist'' (next_number ''blacklist'' d)) (file_of_lines (blacklist_lines env ps)) d6"
    by blast
  moreover have "process env keep url d = Ret (notify env url, d6)"
    using pw pb r by (simp add: process_def w b nr)
  ultimately show ?thesis by blast
qed

subsection \<open>What the server reads\<close>

lemma osfs_of_file:
  assumes "map_of d f = Some c" and "list_all plain_name (dir_names d)" and "path \<noteq> []"
  shows "fs_file (osfs_of path d) (path_Join path f) = Inr (c, None)"
proof -
  have plain: "plain_name g" if "g \<in> set (dir_names d)" for g using assms(2) that by (simp add: list_all_iff)
  have f: "plain_name f" using plain assms(1) by (auto simp: store.names_get)
  have "find (\<lambda>nc. path_Join path (fst nc) = path_Join path f) d = find (\<lambda>nc. fst nc = f) d"
    using plain path_Join_inj [OF assms(3) _ f] by (intro find_cong) (auto simp: dir_names_def)
  moreover have "find (\<lambda>nc. fst nc = f) d = Some (f, c)" using assms(1) by (induction d) auto
  ultimately show ?thesis by (simp add: osfs_of_def)
qed

lemma newest_getMax:
  assumes "newest base f c d"
  shows "getMaxNumberFilenameForRE (osfs_of path d) path (list_RE base) = Inr f"
proof -
  from assms obtain n where f: "f \<in> set (dir_names d)" "file_number (list_RE base) f = Some n"
    and lt: "\<And>g m. g \<in> set (dir_names d) \<Longrightarrow> g \<noteq> f \<Longrightarrow> file_number (list_RE base) g = Some m \<Longrightarrow> m < n"
    by (auto simp: newest_def store.names_get)
  have names: "fs_names (osfs_of path d) path = Inr (dir_names d)" by (simp add: osfs_of_def)
  obtain g where g: "getMaxNumberFilenameForRE (osfs_of path d) path (list_RE base) = Inr g"
    using getMax_total [OF names f] by blast
  from getMax_Inr [OF names g] obtain m where "g \<in> set (dir_names d)" "file_number (list_RE base) g = Some m" "n \<le> m"
    using f by blast
  with lt g show ?thesis by fastforce
qed

lemma newest_readList:
  assumes "newest base f (file_of_lines ls) d" and "list_all plain_name (dir_names d)" and "path \<noteq> []"
    and "list_all short_line ls"
  shows "\<exists>m. readList lib (osfs_of path d) path (list_RE base) = Inr m \<and> (\<forall>k. lookup_bool m k \<longleftrightarrow> listed lib ls k)"
proof -
  have "fs_file (osfs_of path d) (path_Join path f) = Inr (file_of_lines ls, None)"
    using assms(1) by (intro osfs_of_file assms) (simp add: newest_def)
  from parseList_lines [OF this assms(4), of lib] newest_getMax [OF assms(1), of path]
  show ?thesis by (auto simp: readList_def)
qed

section \<open>Properties\<close>

definition example_upd_env :: upd_env where
  "example_upd_env =
     \<lparr>ue_open_err = (\<lambda>_. None), ue_readdir_err = (\<lambda>_. None), ue_write_err = (\<lambda>_ _. None),
      ue_rename_err = (\<lambda>_. None), ue_remove_err = (\<lambda>_. None),
      ue_Get = (\<lambda>u. Inr (200, if u = ''https://openphish.com/feed.txt'' then file_of_lines [''http://evil.example/login''] else [], None)),
      ue_csv_URL = (\<lambda>_. Inr [\<lparr>pt_URL = ''https://bad.example:8443/x?y=1''\<rparr>, \<lparr>pt_URL = ''http://10.0.0.1/''\<rparr>]),
      ue_csv_Domain = (\<lambda>_. ([\<lparr>mj_Domain = ''good.example''\<rparr>], None)), ue_Post = (\<lambda>_. Inr (200, ''200 OK''))\<rparr>"

definition example_dir :: workdir where
  "example_dir = [(''blacklist.9.txt'', ''a''), (''blacklist.10.txt'', ''b''), (''README'', ''c''), (''blacklist.7.txt'', ''d''),
     (''whitelist.2.txt'', ''e'')]"

lemma ParseIP_name:
  assumes "list_all host_char h" and "\<not> is_digit (hd h)"
  shows "ParseIP h = None"
proof -
  have "parseIPv4_loop (Suc 3) [] h = None" using assms(2) by (subst parseIPv4_loop.simps(2)) (cases h; simp add: dtoi_def)
  then have "parseIPv4 h = None" by (simp add: parseIPv4_def)
  moreover have "c = CHR ''.''" if "find (\<lambda>c. c = CHR ''.'' \<or> c = CHR '':'') h = Some c" for c
  proof -
    have "c \<in> set h" "c = CHR ''.'' \<or> c = CHR '':''" using that by (auto simp: find_Some_iff in_set_conv_nth)
    moreover from this(1) have "c \<noteq> CHR '':''" using assms(1) host_char_not [of c] by (auto simp: list_all_iff)
    ultimately show ?thesis by simp
  qed
  ultimately show ?thesis by (simp add: ParseIP_def split: option.splits)
qed

lemma example_IP: "ParseIP ''10.0.0.1'' \<noteq> None"
proof -
  have "IP_String [10, 0, 0, 1] = ''10.0.0.1''"
    by (simp add: IP_String_def To4_def strconv_Itoa.simps digit_char_def char_of_def bit_0)
  with ParseIP_IP_String_v4 [of 10 0 0 1] show ?thesis by simp
qed

lemma example_domains:
  "urlToDomain ''https://bad.example:8443/x?y=1'' = Inr ''bad.example''"
  "urlToDomain ''http://10.0.0.1/'' = Inl ''host name is IP (10.0.0.1)''"
  "urlToDomain ''http://evil.example/login'' = Inr ''evil.example''"
  using urlToDomain_usual [of "''https''" "''bad.example''" "'':8443''" "''/x''" "''?y=1''"]
    urlToDomain_usual [of "''http''" "''10.0.0.1''" "[]" "''/''" "[]"] example_IP
    urlToDomain_usual [of "''http''" "''evil.example''" "[]" "''/login''" "[]"]
    ParseIP_name [of "''bad.example''"] ParseIP_name [of "''evil.example''"]
  by (simp_all add: scheme_text_def host_char_def is_alnum_def validOptionalPort_def path_text_def query_text_def
      ctl_byte_def is_digit_def)

lemma example_fetch:
  "majestic1MFetch example_upd_env = Inr [''good.example'']"
  "phishTankFetch example_upd_env = Inr [''bad.example'']"
  by (simp_all add: majestic1MFetch_def phishTankFetch_def example_upd_env_def example_domains)

lemma example_quiet: "quiet example_upd_env"
  by (simp add: quiet_def example_upd_env_def)

lemma example_dir_shape:
  "distinct (dir_names example_dir)" "map_of example_dir new_white = None" "map_of example_dir new_black = None"
  by (simp_all add: example_dir_def dir_names_def)

lemma example_numbers:
  "file_number (list_RE ''blacklist'') ''blacklist.9.txt'' = Some 9"
  "file_number (list_RE ''blacklist'') ''blacklist.10.txt'' = Some 10"
  "file_number (list_RE ''blacklist'') ''README'' = None"
  "file_number (list_RE ''blacklist'') ''blacklist.7.txt'' = Some 7"
  "file_number (list_RE ''blacklist'') ''whitelist.2.txt'' = None"
  "file_number (list_RE ''whitelist'') ''blacklist.9.txt'' = None"
  "file_number (list_RE ''whitelist'') ''blacklist.10.txt'' = None"
  "file_number (list_RE ''whitelist'') ''README'' = None"
  "file_number (list_RE ''whitelist'') ''blacklist.7.txt'' = None"
  "file_number (list_RE ''whitelist'') ''whitelist.2.txt'' = Some 2"
  by (simp_all add: file_number_def list_RE_def number_group_def is_digit_def Atoi_digits digit_val_def)

lemma example_fit: "numbers_fit ''whitelist'' example_dir" "numbers_fit ''blacklist'' example_dir"
  using example_numbers by (auto simp: numbers_fit_def example_dir_def dir_names_def)

text \<open>C12: Whatever fails in a round, a published list is never changed: a file other than the two files under
  construction keeps its contents or is removed, and it is removed only if it is a numbered list and both
  downloads of the round succeeded.\<close>

theorem published_lists_immutable:
  assumes "process env keep url d = Ret (e, d')" and "numbers_fit ''whitelist'' d" and "numbers_fit ''blacklist'' d"
    and "f \<noteq> ''whitelist.new.txt''" and "f \<noteq> ''blacklist.new.txt''" and "map_of d f = Some c"
  shows "map_of d' f = Some c \<or>
    map_of d' f = None \<and> (file_number (list_RE ''whitelist'') f \<noteq> None \<or> file_number (list_RE ''blacklist'') f \<noteq> None) \<and>
    (\<exists>ws ps. majestic1MFetch env = Inr ws \<and> phishTankFetch env = Inr ps)"
  using assms by (rule process_frame)

theorem published_lists_immutable_witness:
  "\<exists>e d'. process (example_upd_env\<lparr>ue_csv_URL := (\<lambda>_. Inl ''bad line'')\<rparr>) 1 [] example_dir = Ret (e, d') \<and>
     e \<noteq> None \<and> map_of d' ''blacklist.9.txt'' = Some ''a''"
proof -
  let ?env = "example_upd_env\<lparr>ue_csv_URL := (\<lambda>_. Inl ''bad line'')\<rparr>"
  have ph: "phishTankFetch ?env = Inl ''bad line''" by (simp add: phishTankFetch_def example_upd_env_def)
  have "\<exists>e d'. process ?env 1 [] example_dir = Ret (Some e, d')"
    by (auto simp: process_def writeBlacklist_def ph Let_def split: option.splits prod.splits)
  then obtain e d' where p: "process ?env 1 [] example_dir = Ret (Some e, d')" by blast
  have "map_of example_dir ''blacklist.9.txt'' = Some ''a''" by (simp add: example_dir_def)
  from published_lists_immutable [OF p example_fit _ _ this] ph p show ?thesis by auto
qed

text \<open>C13: A round in which the downloads and the file system work publishes both lists under the next free numbers,
  as the newest of their kind, and keeps them while old versions are removed; the whitelist holds the
  downloaded domains, the blacklist each phishing domain once.\<close>

theorem round_publishes:
  assumes "quiet env" and "majestic1MFetch env = Inr ws" and "phishTankFetch env = Inr ps"
    and "numbers_fit ''whitelist'' d" and "numbers_fit ''blacklist'' d" and "distinct (dir_names d)"
    and "length d + 4 < 2 ^ 63" and "1 \<le> keep" and "keep < 2 ^ 63"
    and "map_of d ''whitelist.new.txt'' = None" and "map_of d ''blacklist.new.txt'' = None"
  shows "\<exists>d' bl. process env keep url d = Ret (notify env url, d') \<and>
    distinct bl \<and> set bl = set ps \<union> set (open_phish env) \<and>
    newest ''whitelist'' (numbered ''whitelist'' (next_number ''whitelist'' d)) (file_of_lines ws) d' \<and>
    newest ''blacklist'' (numbered ''blacklist'' (next_number ''blacklist'' d)) (file_of_lines bl) d'"
  using process_quiet [OF assms, of url] blacklist_lines_spec [of env ps] by blast

theorem round_publishes_witness:
  "\<exists>d' bl. process example_upd_env 3 [] example_dir = Ret (None, d') \<and> ''bad.example'' \<in> set bl \<and>
     newest ''blacklist'' (numbered ''blacklist'' (next_number ''blacklist'' example_dir)) (file_of_lines bl) d'"
proof -
  have "length example_dir + 4 < 2 ^ 63" by (simp add: example_dir_def)
  from round_publishes [OF example_quiet example_fetch example_fit example_dir_shape(1) this _ _ example_dir_shape(2,3),
      of 3 "[]"]
  show ?thesis by (auto simp: notify_def)
qed

text \<open>C24: When no two versions of a list have the same number and removing works, the files removed are exactly the
  versions that have at least \<open>keep\<close> newer ones; everything else stays as it is.\<close>

theorem removeOld_keeps_newest:
  assumes "0 \<le> keep" and "keep < 2 ^ 63" and "length d < 2 ^ 63" and "\<forall>f. ue_remove_err env f = None"
    and "distinct (List.map_filter (file_number sel) (dir_names d))"
  shows "\<exists>d'. removeOld env None sel keep d = Ret d' \<and>
    (\<forall>f. map_of d' f =
       (if \<exists>n. file_number sel f = Some n \<and>
             nat keep \<le> length (filter (\<lambda>g. \<exists>m. file_number sel g = Some m \<and> n < m) (dir_names d))
        then None else map_of d f))"
proof -
  have "map_of (prune env d (old_files sel (dir_names d) (nat keep))) f =
      (if f \<in> set (old_files sel (dir_names d) (nat keep)) then None else map_of d f)" for f
    using assms(4) by (simp add: store.get_prune [where stuck = "\<lambda>_. False", simplified])
  moreover have "f \<in> set (dir_names d) \<longleftrightarrow> map_of d f \<noteq> None" for f by (auto simp: store.names_get)
  ultimately show ?thesis
    using removeOld_ok [OF assms(1-3), of env sel] old_files_iff [OF assms(5), of _ "nat keep"] by auto
qed

theorem removeOld_keeps_newest_witness:
  "\<exists>d'. removeOld example_upd_env None (list_RE ''blacklist'') 2 example_dir = Ret d' \<and>
     map_of d' ''blacklist.7.txt'' = None \<and> map_of d' ''blacklist.9.txt'' = Some ''a'' \<and> map_of d' ''README'' = Some ''c''"
proof -
  let ?B = "list_RE ''blacklist''"
  note n = example_numbers(1-5)
  have "distinct (List.map_filter (file_number ?B) (dir_names example_dir))"
    by (simp add: example_dir_def dir_names_def List.map_filter_simps n)
  then obtain d' where d': "removeOld example_upd_env None ?B 2 example_dir = Ret d'"
    "\<And>f. map_of d' f = (if \<exists>n. file_number ?B f = Some n \<and>
       nat 2 \<le> length (filter (\<lambda>g. \<exists>m. file_number ?B g = Some m \<and> n < m) (dir_names example_dir))
      then None else map_of example_dir f)"
    using removeOld_keeps_newest [of 2 example_dir example_upd_env ?B] by (auto simp: example_upd_env_def example_dir_def)
  then show ?thesis by (simp add: n) (simp add: example_dir_def dir_names_def n)
qed

subsection \<open>Rounds\<close>

lemma removeOld_returns:
  assumes "0 \<le> keep" and "keep < 2 ^ 63" and "length d < 2 ^ 63"
  shows "\<exists>d'. removeOld env re sel keep d = Ret d' \<and> length d' \<le> length d"
proof -
  define names where "names = (case re of Some (n, _) \<Rightarrow> take n (dir_names d) | None \<Rightarrow> dir_names d)"
  obtain numbers0 m where on: "old_numbers sel names [] Map.empty = (numbers0, m)" by fastforce
  have "length numbers0 \<le> length names"
    using old_numbers_fst [of sel names "[]" Map.empty] on length_map_filter_le by simp
  also have "length names \<le> length d" by (auto simp: names_def dir_names_def split: option.splits)
  finally have "int_sub (int (length numbers0)) keep = int (length numbers0) - keep"
    using assms by (intro int_sub_exact) auto
  then have "\<exists>d'. removeOld env re sel keep d = Ret d'"
    using assms(1) by (simp add: removeOld_def names_def [symmetric] on)
  then show ?thesis using removeOld_Ret prune_length by blast
qed

lemma process_returns:
  assumes "0 \<le> keep" and "keep < 2 ^ 63" and "length d + 4 < 2 ^ 63"
  shows "\<exists>e d'. process env keep url d = Ret (e, d') \<and> length d' \<le> length d + 4"
proof -
  obtain e1 d1 where w: "writeWhitelist env d = (e1, d1)" by fastforce
  obtain e2 d2 where b: "writeBlacklist env d1 = (e2, d2)" by fastforce
  obtain e3 d3 where pw: "publish env (ue_readdir_err env 0) ''whitelist'' d2 = (e3, d3)" by fastforce
  obtain e4 d4 where pb: "publish env (ue_readdir_err env 1) ''blacklist'' d3 = (e4, d4)" by fastforce
  have pub: "length d' \<le> Suc (length d)" if "publish env re base d = (e, d')" for re base d e d'
    using publish_None publish_Some that by (cases e) fastforce+
  have l: "length d1 \<le> length d + 1" "length d2 \<le> length d + 2" "length d3 \<le> length d + 3" "length d4 \<le> length d + 4"
    using writeWhitelist_touches [OF w] writeBlacklist_touches [OF b] pub [OF pw] pub [OF pb]
    by (auto simp: touches_def)
  then have "length d4 < 2 ^ 63" using assms(3) by linarith
  from removeOld_returns [OF assms(1,2) this, of env "ue_readdir_err env 2" "list_RE ''whitelist''"]
  obtain d5 where r5: "removeOld env (ue_readdir_err env 2) (list_RE ''whitelist'') keep d4 = Ret d5" "length d5 \<le> length d4"
    by blast
  then have "length d5 < 2 ^ 63" using l assms(3) by linarith
  from removeOld_returns [OF assms(1,2) this, of env "ue_readdir_err env 3" "list_RE ''blacklist''"]
  obtain d6 where r6: "removeOld env (ue_readdir_err env 3) (list_RE ''blacklist'') keep d5 = Ret d6" "length d6 \<le> length d5"
    by blast
  show ?thesis
    using l r5 r6 by (auto simp: process_def w b pw pb [simplified] split: option.splits)
qed

text \<open>C36: Whatever fails in the rounds, the updater goes on: with a number of versions to keep that is not negative no
  round panics.\<close>

theorem rounds_never_panic:
  assumes "0 \<le> keep" and "keep < 2 ^ 63" and "length d + 4 * length envs < 2 ^ 63"
  shows "no_panic (updater_rounds keep url envs d)"
  using assms(3)
proof (induction envs arbitrary: d)
  case (Cons env envs)
  then obtain e d' where "process env keep url d = Ret (e, d')" "length d' \<le> length d + 4"
    using process_returns [OF assms(1,2), of d env url] by auto
  with Cons show ?case by simp
qed simp

theorem rounds_never_panic_witness:
  "no_panic (updater_rounds 3 [] [example_upd_env\<lparr>ue_csv_URL := (\<lambda>_. Inl ''bad line'')\<rparr>, example_upd_env] example_dir)"
  by (rule rounds_never_panic) (simp_all add: example_dir_def)

text \<open>A negative number of versions to keep makes the removal of old files panic.\<close>

lemma removeOld_negative_keep:
  assumes "keep < 0" and "int (length d) - keep < 2 ^ 63"
  shows "\<exists>msg. removeOld env None sel keep d = Panic msg"
proof -
  obtain numbers0 m where on: "old_numbers sel (dir_names d) [] Map.empty = (numbers0, m)" by fastforce
  have "length numbers0 \<le> length d"
    using old_numbers_fst [of sel "dir_names d" "[]" Map.empty] on length_map_filter_le [of "file_number sel" "dir_names d"]
    by (simp add: dir_names_def)
  with assms have "int_sub (int (length numbers0)) keep = int (length numbers0) - keep"
    unfolding int_sub_def by (subst signed_of_int) (simp add: signed_take_bit_int_eq_self)
  with assms(1) show ?thesis by (simp add: removeOld_def on)
qed

text \<open>C39: When an earlier round has left a file under construction behind, the bytes of it that lie beyond the new
  data stay at the end of the new list.\<close>

theorem stale_tail:
  assumes "writeWhitelist env d = (None, d')" and "majestic1MFetch env = Inr ws"
    and "map_of d ''whitelist.new.txt'' = Some old"
  shows "map_of d' ''whitelist.new.txt'' = Some (file_of_lines ws @ drop (length (file_of_lines ws)) old)"
  using writeWhitelist_None [OF assms(1)] assms(2,3) by (simp add: overwrite_def)

theorem stale_tail_witness:
  "\<exists>d'. writeWhitelist example_upd_env [(''whitelist.new.txt'', file_of_lines [''else.example'', ''old.example''])] = (None, d') \<and>
     map_of d' ''whitelist.new.txt'' = Some (file_of_lines [''good.example'', ''old.example''])"
proof -
  obtain d' where "writeWhitelist example_upd_env [(''whitelist.new.txt'', file_of_lines [''else.example'', ''old.example''])] = (None, d')"
    using writeWhitelist_quiet [OF example_quiet example_fetch(1)] by blast
  from stale_tail [OF this example_fetch(1)] this show ?thesis by (simp add: file_of_lines_def)
qed

text \<open>C23: The blacklist that is written holds exactly the hosts of the URLs of both feeds, as far as the URLs can be
  parsed and the host is not an address, each host once.\<close>

theorem blacklist_complete:
  assumes "writeBlacklist env d = (None, d')" and "map_of d ''blacklist.new.txt'' = None"
    and "ue_Get env ''http://data.phishtank.com/data/online-valid.csv'' = Inr (200, body)"
    and "ue_csv_URL env body = Inr es"
    and "ue_Get env ''https://openphish.com/feed.txt'' = Inr (status, file_of_lines ls, None)"
    and "list_all (\<lambda>l. LF \<notin> set l \<and> length l < 65536) ls"
  shows "\<exists>bl. map_of d' ''blacklist.new.txt'' = Some (file_of_lines bl) \<and> distinct bl \<and>
    (\<forall>h. h \<in> set bl \<longleftrightarrow> (\<exists>u\<in>set (map pt_URL es) \<union> set (map strip_CR ls). urlToDomain u = Inr h)) \<and>
    (\<forall>h\<in>set bl. ParseIP h = None)"
proof -
  let ?ps = "domains_loop Map.empty (map pt_URL es)"
  have ps: "phishTankFetch env = Inr ?ps" by (simp add: phishTankFetch_def assms(3,4))
  have op: "open_phish env = domains_loop Map.empty (map strip_CR ls)"
    using scan_lines_file [of ls None] assms(6) by (simp add: open_phish_def openPhishFetch_def assms(5) maxTokenSize_def)
  have mem: "h \<in> set (blacklist_lines env ?ps) \<longleftrightarrow> (\<exists>u\<in>set (map pt_URL es) \<union> set (map strip_CR ls). urlToDomain u = Inr h)" for h
    using blacklist_lines_spec [of env ?ps] domains_loop_spec [of Map.empty "map pt_URL es"]
      domains_loop_spec [of Map.empty "map strip_CR ls"] by (auto simp: op)
  have "map_of d' new_black = Some (file_of_lines (blacklist_lines env ?ps))"
    using writeBlacklist_None [OF assms(1)] ps assms(2) by (auto simp: overwrite_def)
  with mem blacklist_lines_spec [of env ?ps] urlToDomain_not_IP show ?thesis by blast
qed

theorem blacklist_complete_witness:
  "\<exists>d' bl. writeBlacklist example_upd_env [] = (None, d') \<and> map_of d' ''blacklist.new.txt'' = Some (file_of_lines bl) \<and>
     distinct bl \<and> set bl = {''bad.example'', ''evil.example''}"
proof -
  obtain d' where d': "writeBlacklist example_upd_env [] = (None, d')"
    using writeBlacklist_quiet [OF example_quiet example_fetch(2)] by blast
  have "ue_Get example_upd_env ''https://openphish.com/feed.txt'' = Inr (200, file_of_lines [''http://evil.example/login''], None)"
    "ue_Get example_upd_env ''http://data.phishtank.com/data/online-valid.csv'' = Inr (200, [], None)"
    "ue_csv_URL example_upd_env ([], None) = Inr [\<lparr>pt_URL = ''https://bad.example:8443/x?y=1''\<rparr>, \<lparr>pt_URL = ''http://10.0.0.1/''\<rparr>]"
    by (simp_all add: example_upd_env_def)
  note env = this
  have "list_all (\<lambda>l. LF \<notin> set l \<and> length l < 65536) [''http://evil.example/login'']" by simp
  from blacklist_complete [OF d' _ env(2,3,1) this] obtain bl where
    bl: "map_of d' ''blacklist.new.txt'' = Some (file_of_lines bl)" "distinct bl"
    and mem: "\<And>h. h \<in> set bl \<longleftrightarrow> (\<exists>u\<in>set (map pt_URL [\<lparr>pt_URL = ''https://bad.example:8443/x?y=1''\<rparr>, \<lparr>pt_URL = ''http://10.0.0.1/''\<rparr>]) \<union>
      set (map strip_CR [''http://evil.example/login'']). urlToDomain u = Inr h)"
    unfolding map_of.simps by blast
  have "h \<in> set bl \<longleftrightarrow> h = ''bad.example'' \<or> h = ''evil.example''" for h
    unfolding mem by (simp add: strip_CR_def example_domains) metis
  with bl d' show ?thesis by blast
qed

end
