(* ===== verification/Composition.thy ===== *)
theory Composition
  imports DohServer DohClient ListsUpdater
begin

text \<open>
  How the components meet: requests of the client as the server's HTTP library presents them to the handler,
  responses of the handler as the client's HTTP library returns them, and the lists that the updater
  publishes as the server reads them.
\<close>

section \<open>Between client and server\<close>

text \<open>
  \<^verbatim>\<open>net/http\<close> on the way there and back. The body of a message in wire format is not a form, so the form values
  are those of the URL. A handler that writes nothing has sent status 200 when it returns.
\<close>

definition deliver :: "string \<Rightarrow> http_out \<Rightarrow> http_request" where
  "deliver remote out =
     \<lparr>r_Method = ho_Method out, r_Header = (\<lambda>k. case ho_Header out k of Some v \<Rightarrow> v | None \<Rightarrow> []),
      r_Form = FormValue (url_query (ho_URL out)), r_Body = Inr (ho_Body out), r_RemoteAddr = remote\<rparr>"

definition receive :: "http_writer \<Rightarrow> http_response" where
  "receive w =
     \<lparr>hr_StatusCode = (case sent_status w of Some code \<Rightarrow> int code | None \<Rightarrow> 200),
      hr_Header = (\<lambda>k. case (case w_Sent w of Some (_, h) \<Rightarrow> h k | None \<Rightarrow> w_Header w k) of Some v \<Rightarrow> v | None \<Rightarrow> []),
      hr_Body = Inr (w_Body w)\<rparr>"

lemma deliver_sel [simp]:
  "r_Header (deliver remote out) k = (case ho_Header out k of Some v \<Rightarrow> v | None \<Rightarrow> [])"
  "r_Form (deliver remote out) k = FormValue (url_query (ho_URL out)) k"
  "r_Body (deliver remote out) = Inr (ho_Body out)" "r_RemoteAddr (deliver remote out) = remote"
  by (simp_all add: deliver_def)

lemma receive_header: "sent_field w k = Some v \<Longrightarrow> hr_Header (receive w) k = v"
  by (auto simp: receive_def sent_field_def split: option.splits)

subsection \<open>Wire requests\<close>

lemma unescape_plain: "list_all (\<lambda>c. c \<noteq> CHR ''%'' \<and> c \<noteq> CHR ''+'') s \<Longrightarrow> QueryUnescape s = Some s"
  by (induction s) auto

lemma wire_query:
  assumes "list_all (\<lambda>c. query_safe c \<and> c \<noteq> CHR ''%'' \<and> c \<noteq> CHR ''+'') b"
  shows "ParseQuery (''ct=application/dns-message&dns='' @ b) = [(''ct'', ''application/dns-message''), (''dns'', b)]"
proof -
  have u: "QueryUnescape b = Some b" "QueryUnescape ''application/dns-message'' = Some ''application/dns-message''"
    using assms by (intro unescape_plain, simp add: list_all_iff)+
  have "list_all field_ok [(''ct'', ''application/dns-message''), (''dns'', b)]"
    using assms by (simp add: field_ok_def query_safe_def list_all_iff)
  from ParseQuery_fields [OF _ this] u show ?thesis by (simp add: List.map_filter_simps)
qed

lemma Encode_safe: "list_all (\<lambda>c. query_safe c \<and> c \<noteq> CHR ''%'' \<and> c \<noteq> CHR ''+'') (EncodeToString bs)"
proof -
  have c: "query_safe (b64_char n) \<and> b64_char n \<noteq> CHR ''%'' \<and> b64_char n \<noteq> CHR ''+''" if "n < 64" for n
    using b64_val_char [OF that] by (auto simp: query_safe_def b64_val_def)
  have "list_all (\<lambda>n. n < 256) (map unat bs)" using unsigned_less [where 'a = nat and 'b = 8] by (simp add: list_all_iff)
  from sextets_lt [OF this] show ?thesis by (simp add: Encode_sextets list_all_iff c)
qed

lemma client_accept:
  "accept_loop (strings_Split CHR '','' ''application/dns-message, application/dns-udpwireformat, application/json'') =
     ''application/dns-message''"
  "accept_loop (strings_Split CHR '','' ''application/json, application/dns-message, application/dns-udpwireformat'') =
     ''application/json''"
  by (simp_all add: numeral_2_eq_2)

lemma FormValue_empty [simp]: "FormValue [] k = []"
  by (simp add: FormValue_def ParseQuery_def parse_piece_def List.map_filter_simps)

lemma url_query_none: "CHR ''?'' \<notin> set u \<Longrightarrow> url_query u = []"
  unfolding url_query_def by (subst dropWhile_eq_Nil_conv [THEN iffD2]) auto

lemma wire_request_fields:
  fixes remote :: string
  assumes "CHR ''?'' \<notin> set upstream" and "bin \<noteq> []"
  defines "r \<equiv> deliver remote (ietf_request upstream bin)"
  shows "request_type r = ''application/dns-message''" "response_type r = ''application/dns-message''"
    "request_binary lib r = Inr bin" "UserAgent r = client_USER_AGENT"
proof -
  have q: "url_query (ietf_URL upstream bin) = ''ct=application/dns-message&dns='' @ EncodeToString bin"
    using url_query_of [OF assms(1)] by (simp add: ietf_URL_def)
  have get: "FormValue (url_query (ietf_URL upstream bin)) k =
      (if k = ''ct'' then ''application/dns-message'' else if k = ''dns'' then EncodeToString bin else [])" for k
    unfolding q FormValue_def wire_query [OF Encode_safe [of bin]] by simp
  have post: "FormValue (url_query upstream) k = []" for k using url_query_none [OF assms(1)] by simp
  show t: "request_type r = ''application/dns-message''"
    using assms(2) by (simp add: request_type_def r_def ietf_request_def Let_def get post)
  show "response_type r = ''application/dns-message''"
    using t client_accept(1) by (simp add: response_type_def r_def ietf_request_def Let_def)
  show "request_binary lib r = Inr bin"
    using assms(2) DecodeString_Encode [of bin] DecodeString_Encode [of "[]"]
    by (simp add: request_binary_def r_def ietf_request_def Let_def get post)
  show "UserAgent r = client_USER_AGENT" by (simp add: UserAgent_def r_def ietf_request_def Let_def)
qed

subsection \<open>JSON requests\<close>

lemma type_names:
  "list_all (\<lambda>(t, s). t = 0 \<or> t = 65535 \<or>
     list_all is_ascii s \<and> s \<noteq> [] \<and> \<not> is_digit (hd s) \<and> StringToType (map upper_char s) = Some t) TypeToString"
  by code_simp

text \<open>The server understands the type that the client writes, save for the two reserved numbers.\<close>

lemma parse_question_type:
  assumes "q_Qtype q \<noteq> 0" and "q_Qtype q \<noteq> 65535"
  shows "parse_rrtype lib (question_type q) = Some (q_Qtype q)"
proof (cases "map_of TypeToString (q_Qtype q)")
  case None
  have "unat (q_Qtype q) < 2 ^ 16" using unsigned_less [of "q_Qtype q", where ?'a = nat] by simp
  with None show ?thesis by (simp add: question_type_def parse_rrtype_def ParseUint_Itoa)
next
  case (Some s)
  then have "(q_Qtype q, s) \<in> set TypeToString" by (rule map_of_SomeD)
  with type_names assms have s: "list_all is_ascii s" "s \<noteq> []" "\<not> is_digit (hd s)" "StringToType (map upper_char s) = Some (q_Qtype q)"
    by (auto simp: list_all_iff)
  from s(2,3) have "snd (strconv_ParseUint s 16) = Some ErrSyntax" by (cases s) (simp_all add: strconv_ParseUint_def)
  with s Some show ?thesis
    by (auto simp: question_type_def parse_rrtype_def strings_ToUpper_def split: prod.splits)
qed

text \<open>The two reserved numbers have mnemonics, and these the server refuses.\<close>

lemma reserved_types_refused:
  assumes "q_Qtype q = 0 \<or> q_Qtype q = 65535"
  shows "parse_rrtype lib (question_type q) = None"
proof -
  have n: "map_of TypeToString 0 = Some ''None''" "map_of TypeToString 65535 = Some ''Reserved''"
    "StringToType (map upper_char ''None'') = None" "StringToType (map upper_char ''Reserved'') = None" by code_simp+
  with assms show ?thesis
    by (auto simp: question_type_def parse_rrtype_def strconv_ParseUint_def is_digit_def strings_ToUpper_def is_ascii_def)
qed

definition google_fields :: "Question \<Rightarrow> bool \<Rightarrow> net_IP \<times> u8 \<Rightarrow> (string \<times> string) list" where
  "google_fields q cd addr_mask =
     [(''ct'', ''application/dns-json''), (''name'', QueryEscape (q_Name q)), (''type'', QueryEscape (question_type q))]
     @ (if cd then [(''cd'', ''1'')] else [])
     @ (case fst addr_mask of
          None \<Rightarrow> []
        | Some a \<Rightarrow> [(''edns_client_subnet'', IP_String a @ ''/'' @ strconv_Itoa (unat (snd addr_mask)))])"

lemma google_URL_fields: "google_URL upstream q cd am = upstream @ CHR ''?'' # join_fields (google_fields q cd am)"
  by (cases am) (auto simp: google_URL_def google_fields_def split: option.splits)

text \<open>An address of four or sixteen bytes, or none.\<close>

definition ip_or_none :: "net_IP \<Rightarrow> bool" where
  "ip_or_none a \<longleftrightarrow> (case a of None \<Rightarrow> True | Some ip \<Rightarrow> ip_bytes ip)"

lemma digit_plain: "is_digit c \<Longrightarrow> query_safe c \<and> c \<noteq> CHR ''%'' \<and> c \<noteq> CHR ''+'' \<and> c \<noteq> CHR ''/''"
  by (auto simp: is_digit_def query_safe_def)

lemma Itoa_plain: "c \<in> set (strconv_Itoa n) \<Longrightarrow> query_safe c \<and> c \<noteq> CHR ''%'' \<and> c \<noteq> CHR ''+'' \<and> c \<noteq> CHR ''/''"
  using Itoa_digits [of n] digit_plain by (auto simp: list_all_iff)

lemma IP_String_plain:
  assumes "ip_bytes a" and "c \<in> set (IP_String a)"
  shows "query_safe c \<and> c \<noteq> CHR ''%'' \<and> c \<noteq> CHR ''+'' \<and> c \<noteq> CHR ''/''"
  using IP_String_chars [OF assms] by (auto simp: query_safe_def is_hex_def hex_val_def)

lemma google_fields_ok: "ip_or_none (fst am) \<Longrightarrow> list_all field_ok (google_fields q cd am)"
  using QueryEscape_safe IP_String_plain Itoa_plain
  by (auto simp: google_fields_def field_ok_def ip_or_none_def list_all_iff split: option.splits)
     (auto simp: query_safe_def)

lemma google_form:
  assumes "CHR ''?'' \<notin> set upstream" and "ip_or_none (fst am)"
  shows "FormValue (url_query (google_URL upstream q cd am)) k =
    (if k = ''ct'' then ''application/dns-json'' else if k = ''name'' then q_Name q
     else if k = ''type'' then question_type q else if k = ''cd'' then (if cd then ''1'' else [])
     else if k = ''edns_client_subnet'' then
       (case fst am of None \<Rightarrow> [] | Some a \<Rightarrow> IP_String a @ ''/'' @ strconv_Itoa (unat (snd am)))
     else [])"
proof -
  have sub: "QueryUnescape (IP_String a @ ''/'' @ strconv_Itoa n) = Some (IP_String a @ ''/'' @ strconv_Itoa n)"
    if "fst am = Some a" for a n
    using that assms(2) IP_String_plain [of a] Itoa_plain
    by (intro unescape_plain) (auto simp: ip_or_none_def list_all_iff)
  have "ParseQuery (join_fields (google_fields q cd am)) =
      List.map_filter (\<lambda>(k, v). map_option (Pair k) (QueryUnescape v)) (google_fields q cd am)"
    using google_fields_ok [OF assms(2)] by (intro ParseQuery_fields) (simp_all add: google_fields_def)
  also have "\<dots> = [(''ct'', ''application/dns-json''), (''name'', q_Name q), (''type'', question_type q)]
      @ (if cd then [(''cd'', ''1'')] else [])
      @ (case fst am of None \<Rightarrow> [] | Some a \<Rightarrow> [(''edns_client_subnet'', IP_String a @ ''/'' @ strconv_Itoa (unat (snd am)))])"
    using sub by (cases "fst am"; cases cd) (simp_all add: google_fields_def List.map_filter_simps QueryUnescape_Escape)
  finally have pq: "ParseQuery (join_fields (google_fields q cd am)) = \<dots>" .
  show ?thesis
    unfolding google_URL_fields url_query_of [OF assms(1)] FormValue_def pq by (cases "fst am"; cases cd) simp_all
qed

lemma subnet_text_not_zero:
  assumes "ip_bytes a"
  shows "IP_String a @ ''/'' @ t \<noteq> ''0/0''"
proof
  assume eq: "IP_String a @ ''/'' @ t = ''0/0''"
  obtain c where c: "c \<in> set (IP_String a)" "c = colon \<or> c = CHR ''.''" using IP_String_mark [OF assms] by blast
  then have "c \<in> set (IP_String a @ ''/'' @ t)" by simp
  from this [unfolded eq] c(2) show False by auto
qed

lemma parse_client_subnet_String:
  assumes "ip_bytes a"
  shows "parse_client_subnet (IP_String a @ ''/'' @ strconv_Itoa (unat n)) =
    Some (if To4 a = None then 2 else 1, short_ip a, n)"
proof -
  obtain ip where ip: "ParseIP (IP_String a) = Some ip" "To4 ip = To4 a" "short_ip ip = short_ip a"
    using ParseIP_String [OF assms] by blast
  have ne: "IP_String a @ ''/'' @ strconv_Itoa (unat n) \<noteq> ''0/0''" by (rule subnet_text_not_zero [OF assms])
  have i: "strings_IndexByte CHR ''/'' (IP_String a @ CHR ''/'' # strconv_Itoa (unat n)) = Some (length (IP_String a))"
    using IP_String_plain [OF assms] by (intro IndexByte_append) blast
  have u: "strconv_ParseUint (strconv_Itoa (unat n)) 8 = (unat n, None)"
    using unsigned_less [of n, where ?'a = nat] by (intro ParseUint_Itoa) simp
  have f: "family_of ip = (if To4 a = None then 2 else 1, short_ip a, if To4 a = None then 56 else 24)"
    using ip(2,3) by (auto simp: family_of_def short_ip_def split: option.splits)
  from ne i u f ip(1) show ?thesis by (simp add: parse_client_subnet_def Let_def)
qed

subsection \<open>A query and its reply in wire format\<close>

lemma add_client_subnet_frame:
  assumes "add_client_subnet env r m = Ret (m', t)"
  shows "msg_Question m' = msg_Question m" "msg_Opcode m' = msg_Opcode m"
  using assms by (auto simp: add_client_subnet_def go_bind_eq_Ret Let_def split: option.splits prod.splits)

lemma client_add_subnet_frame:
  assumes "client_add_subnet env conf r = Ret (r1, sz, a, n)"
  shows "msg_Question r1 = msg_Question r" "msg_Opcode r1 = msg_Opcode r"
proof -
  obtain found where f: "IsEdns0 r = Ret found"
    using assms by (auto simp: client_add_subnet_def go_bind_eq_Ret)
  obtain i h os ex u where t: "(case found of Some (i, h, os) \<Rightarrow> (i, h, os, msg_Extra r, OPT_UDPSize h)
      | None \<Rightarrow> (0, client_new_OPT, [], RR_OPT client_new_OPT [] # msg_Extra r, 512)) = (i, h, os, ex, u)"
    using prod_cases5 by blast
  have "\<exists>x. r1 = r\<lparr>msg_Extra := x\<rparr>"
  proof -
    obtain sub where s: "find_SUBNET os = Ret sub"
      using assms by (auto simp: client_add_subnet_def f t Let_def go_bind_eq_Ret)
    show ?thesis
    proof (cases sub)
      case (Some e)
      then show ?thesis using assms by (auto simp: client_add_subnet_def f t s Let_def)
    next
      case None
      then obtain addr mask where "client_findClientIP env conf (r\<lparr>msg_Extra := ex\<rparr>) = Ret (addr, mask)"
        using assms by (auto simp: client_add_subnet_def f t s Let_def go_bind_eq_Ret)
      then show ?thesis using assms None
        by (cases addr) (auto simp: client_add_subnet_def f t s Let_def split: option.split_asm)
    qed
  qed
  then show "msg_Question r1 = msg_Question r" "msg_Opcode r1 = msg_Opcode r" by auto
qed

lemma time_Sub_self [simp]: "time_Sub t t = 0"
  by (simp add: time_Sub_def maxDuration_def minDuration_def)

lemma reply_age_fresh: "hr_Header resp ''Date'' = hr_Header resp ''Last-Modified'' \<Longrightarrow> reply_age env resp = 0"
  by (simp add: reply_age_def parse_date_def Let_def split: option.splits)

lemma set_Header_self: "set_Header (Header rr) rr = rr"
  by (cases rr) simp_all

lemma fixRecordTTL_fresh [simp]: "fixRecordTTL 0 rr = rr"
proof -
  let ?t = "hdr_Ttl (Header rr)"
  have "go_quot (int (unat ?t) * Second) Second = int (unat ?t)"
    by (subst go_quot_nonneg) (simp_all add: Second_def)
  moreover have "0 < int (unat ?t) * Second \<longleftrightarrow> ?t \<noteq> 0"
    by (simp add: Second_def word_neq_0_conv word_less_def)
  ultimately have "(if 0 < int (unat ?t) * Second then word_of_int (go_quot (int (unat ?t) * Second) Second) else 0) = ?t"
    by auto
  then show ?thesis unfolding fixRecordTTL_def Let_def diff_zero by (simp only: set_Header_self) (simp add: set_Header_self)
qed

lemma parse_categories_client: "parse_categories (deliver remote (ietf_request up bin)) = 0"
  by (simp add: parse_categories_def ietf_request_def Let_def strconv_ParseUint_def)

lemma client_not_Firefox: "\<not> strings_Contains client_USER_AGENT ''Firefox''"
  by (auto simp: strings_Contains_def client_USER_AGENT_def sublist_code)

lemma pick_single: "client_rand_ok env \<Longrightarrow> pick env i [u] = Ret u"
  by (auto simp: pick_def client_rand_ok_def Suc_le_eq)

text \<open>A server behind the HTTP library.\<close>

definition served_by :: "server_env \<Rightarrow> Server \<Rightarrow> string \<Rightarrow> http_out \<Rightarrow> string + http_response" where
  "served_by env s remote out =
     (case handlerFunc env s (\<lambda>_. s) (deliver remote out) new_writer of
        Ret (w, _) \<Rightarrow> Inr (receive w)
      | Panic e \<Rightarrow> Inl e)"

text \<open>A request in wire format, from whichever client, that the first try answers.\<close>

lemma served_out:
  fixes out :: http_out and remote :: string
  defines "r \<equiv> deliver remote out"
  assumes f: "request_type r = ''application/dns-message''" "response_type r = ''application/dns-message''"
      "request_binary (env_lib env) r = Inr bin" "\<not> strings_Contains (UserAgent r) ''Firefox''" "parse_categories r = 0"
    and bin: "bin \<noteq> dnscrypt_probe"
    and msg: "env_Unpack env bin = Inr msg" "msg_Question msg = [q]" "msg_Opcode msg = 0" "q_Name q \<noteq> ''.''"
    and fwd: "add_client_subnet env r (msg\<lparr>msg_Id := env_Id env\<rparr>) = Ret (fwd, t)"
    and x: "exchange env (srv_conf s) 0 fwd (try_upstream env (srv_conf s) 0) = (Some ans, None)" "msg_typed ans"
    and env: "rand_ok env" "config_ok (srv_conf s)"
    and wire: "env_Pack env ((filtered (env_lib env) s 0 ans)\<lparr>msg_Id := msg_Id msg\<rparr>) = Inr wire"
  shows "\<exists>resp. served_by env s remote out = Inr resp \<and> hr_Body resp = Inr wire \<and>
    hr_Header resp ''Content-Type'' = ''application/dns-message'' \<and>
    hr_Header resp ''Date'' = hr_Header resp ''Last-Modified''"
proof -
  let ?w0 = "Header_Set ''X-Powered-By'' USER_AGENT (Header_Set ''Server'' USER_AGENT new_writer)"
  have fq: "msg_Question fwd = [q]" "msg_Opcode fwd = 0" using add_client_subnet_frame [OF fwd] msg by simp_all
  have "\<forall>i. (\<lambda>_. s) i = s" by simp
  from handler_wire [OF f(1,2,3) bin msg(1) fwd fq msg(4) x(1) env(1,2) x(2) this] wire
  obtain w req4 saved where w: "handlerFunc env s (\<lambda>_. s) r new_writer = Ret (w, saved)"
    "generateResponseIETF env r req4 ?w0 = Ret w" "rq_transactionID req4 = msg_Id msg"
    "rq_response req4 = Some (filtered (env_lib env) s 0 ans)"
    unfolding f(5) by blast
  from generateResponseIETF_fields [OF w(4) filtered_typed [OF x(2)], of ?w0 env wire r] w(2,3) wire
  have "w_Body w = wire"
    and h: "sent_field w ''Date'' = Some (fmt_HTTP (env_time env) (env_clock env 1))"
      "sent_field w ''Last-Modified'' = Some (fmt_HTTP (env_time env) (env_clock env 1))"
      "sent_field w ''Content-Type'' = Some ''application/dns-message''"
    using f(4) by auto
  then have "hr_Body (receive w) = Inr wire"
    by (simp add: receive_def)
  with w(1) receive_header [OF h(1)] receive_header [OF h(2)] receive_header [OF h(3)]
  show ?thesis by (simp add: served_by_def r_def)
qed

lemma served_wire:
  assumes up: "CHR ''?'' \<notin> set up" and bin: "bin \<noteq> []" "bin \<noteq> dnscrypt_probe"
    and msg: "env_Unpack env bin = Inr msg" "msg_Question msg = [q]" "msg_Opcode msg = 0" "q_Name q \<noteq> ''.''"
    and fwd: "add_client_subnet env (deliver remote (ietf_request up bin)) (msg\<lparr>msg_Id := env_Id env\<rparr>) = Ret (fwd, t)"
    and x: "exchange env (srv_conf s) 0 fwd (try_upstream env (srv_conf s) 0) = (Some ans, None)" "msg_typed ans"
    and env: "rand_ok env" "config_ok (srv_conf s)"
    and wire: "env_Pack env ((filtered (env_lib env) s 0 ans)\<lparr>msg_Id := msg_Id msg\<rparr>) = Inr wire"
  shows "\<exists>resp. served_by env s remote (ietf_request up bin) = Inr resp \<and> hr_Body resp = Inr wire \<and>
    hr_Header resp ''Content-Type'' = ''application/dns-message'' \<and>
    hr_Header resp ''Date'' = hr_Header resp ''Last-Modified''"
proof -
  note f = wire_request_fields [OF up bin(1), where remote = remote]
  have "\<not> strings_Contains (UserAgent (deliver remote (ietf_request up bin))) ''Firefox''"
    unfolding f(4) by (rule client_not_Firefox)
  from served_out [OF f(1,2,3) this parse_categories_client bin(2) msg fwd x env wire] show ?thesis .
qed

lemma parseResponseIETF_fresh:
  assumes "hr_Body (cq_response q) = Inr body" and "hr_Header (cq_response q) ''Content-Type'' = ''application/dns-message''"
    and "hr_Header (cq_response q) ''Date'' = hr_Header (cq_response q) ''Last-Modified''"
    and "ce_Unpack env body = Inr m" and "packs env (m\<lparr>msg_Id := msg_Id r\<rparr>)"
  shows "\<exists>p. parseResponseIETF env isTCP r q = Ret [WriteRaw p] \<and> sent_packet env isTCP (cq_udpSize q) (m\<lparr>msg_Id := msg_Id r\<rparr>) p"
proof -
  have "fixRecordTTL 0 = (\<lambda>rr. rr)" "(\<lambda>rr. if hdr_Rrtype (Header rr) = TypeOPT then rr else fixRecordTTL 0 rr) = (\<lambda>rr. rr)"
    by (simp_all add: fun_eq_iff)
  then have "m\<lparr>msg_Id := msg_Id r, msg_Answer := map (fixRecordTTL 0) (msg_Answer m), msg_Ns := map (fixRecordTTL 0) (msg_Ns m),
      msg_Extra := map (\<lambda>rr. if hdr_Rrtype (Header rr) = TypeOPT then rr else fixRecordTTL 0 rr) (msg_Extra m)\<rparr>
      = m\<lparr>msg_Id := msg_Id r\<rparr>" by (cases m) simp
  then have "parseResponseIETF env isTCP r q =
      write_reply env isTCP (q\<lparr>cq_reply := status_reply (cq_response q) (cq_reply q)\<rparr>) (m\<lparr>msg_Id := msg_Id r\<rparr>)"
    using assms(1,2,4) reply_age_fresh [OF assms(3), of env] by (simp add: parseResponseIETF_def give_up_def Let_def)
  then show ?thesis
    using write_reply_sent [OF assms(5), of isTCP "q\<lparr>cq_reply := status_reply (cq_response q) (cq_reply q)\<rparr>"] by simp
qed

lemma query_over_wire:
  assumes conf: "cc_UpstreamGoogle (cl_conf c) = []" "cc_UpstreamIETF (cl_conf c) = [up]" "CHR ''?'' \<notin> set up"
    and cenv: "client_rand_ok cenv" "ce_Do cenv = served_by env s remote"
    and r: "\<not> msg_Response r" "msg_Question r = [q]" "msg_Opcode r = 0" "q_Name q \<noteq> ''.''"
    and sub: "client_add_subnet cenv (cl_conf c) r = Ret (r1, sz, a, n)"
    and bin: "ce_Pack cenv (r1\<lparr>msg_Id := 0\<rparr>) = Inr bin" "bin \<noteq> []" "bin \<noteq> dnscrypt_probe"
      "ce_NewRequest cenv (ho_URL (ietf_request up bin)) = None"
    and unpacked: "env_Unpack env bin = Inr r2" "wire_Msg (r1\<lparr>msg_Id := 0\<rparr>) r2"
    and fwd: "add_client_subnet env (deliver remote (ietf_request up bin)) (r2\<lparr>msg_Id := env_Id env\<rparr>) = Ret (fwd, t)"
    and x: "exchange env (srv_conf s) 0 fwd (try_upstream env (srv_conf s) 0) = (Some ans, None)" "msg_typed ans"
    and env: "rand_ok env" "config_ok (srv_conf s)"
    and wire: "env_Pack env ((filtered (env_lib env) s 0 ans)\<lparr>msg_Id := 0\<rparr>) = Inr wire"
    and ret: "ce_Unpack cenv wire = Inr m" "wire_Msg ((filtered (env_lib env) s 0 ans)\<lparr>msg_Id := 0\<rparr>) m"
      "packs cenv (m\<lparr>msg_Id := msg_Id r\<rparr>)"
  shows "\<exists>p reply. client_handlerFunc cenv c r isTCP = Ret ([WriteRaw p], c) \<and> sent_packet cenv isTCP sz reply p \<and>
    wire_Msg ((filtered (env_lib env) s 0 ans)\<lparr>msg_Id := msg_Id r\<rparr>) reply"
proof -
  have fr: "msg_Question r2 = [q]" "msg_Opcode r2 = 0" "msg_Id r2 = 0"
    using client_add_subnet_frame [OF sub] wire_Msg_head [OF unpacked(2)] r by simp_all
  have "env_Pack env ((filtered (env_lib env) s 0 ans)\<lparr>msg_Id := msg_Id r2\<rparr>) = Inr wire" using wire fr(3) by simp
  from served_wire [OF conf(3) bin(2,3) unpacked(1) fr(1,2) r(4) fwd x env this]
  obtain resp where resp: "served_by env s remote (ietf_request up bin) = Inr resp" "hr_Body resp = Inr wire"
    "hr_Header resp ''Content-Type'' = ''application/dns-message''"
    "hr_Header resp ''Date'' = hr_Header resp ''Last-Modified''" by auto
  let ?q = "\<lparr>cq_response = resp, cq_reply = PrepareReply r, cq_udpSize = sz, cq_ednsClientAddress = a,
    cq_ednsClientNetmask = n, cq_currentUpstream = up\<rparr>"
  have g: "generateRequestIETF cenv c r = Ret ([], c, Some ?q)"
    using r(2) sub cenv(2) bin(1,4) pick_single [OF cenv(1)] conf(2) resp(1)
    by (simp add: generateRequestIETF_def send_request_def Let_def)
  have t: "choose_type cenv (cl_conf c) = ''application/dns-message''" using conf by (simp add: choose_type_def)
  have ct: "content_type ''application/dns-message'' resp = ''application/dns-message''"
    using resp(3) by (simp add: content_type_def numeral_2_eq_2)
  obtain p where p: "parseResponseIETF cenv isTCP r ?q = Ret [WriteRaw p]" "sent_packet cenv isTCP sz (m\<lparr>msg_Id := msg_Id r\<rparr>) p"
    using parseResponseIETF_fresh [of ?q wire cenv m r isTCP] resp(2-4) ret(1,3) by auto
  have "client_handlerFunc cenv c r isTCP = Ret ([WriteRaw p], c)"
    using r(1) t g ct p(1) by (simp add: client_handlerFunc_def Let_def)
  moreover have "wire_Msg ((filtered (env_lib env) s 0 ans)\<lparr>msg_Id := msg_Id r\<rparr>) (m\<lparr>msg_Id := msg_Id r\<rparr>)"
    using wire_Msg_Id [OF ret(2), of "msg_Id r"] by simp
  ultimately show ?thesis using p(2) by blast
qed

section \<open>From the updater to the filter\<close>

lemma touches_names: "touches n d d' \<Longrightarrow> set (dir_names d') \<subseteq> insert n (set (dir_names d))"
  by (force simp: touches_def store.names_get)

lemma publish_names:
  assumes "publish env re base d = (x, d')"
  shows "set (dir_names d') \<subseteq> insert (numbered base (next_number base d)) (set (dir_names d))"
proof (cases x)
  case None
  with publish_None [of env re base d d'] assms show ?thesis by (auto simp: store.names_get split: if_splits)
next
  case (Some e)
  with publish_Some assms show ?thesis by blast
qed

lemma removeOld_names: "removeOld env re sel keep d = Ret d' \<Longrightarrow> set (dir_names d') \<subseteq> set (dir_names d)"
  by (drule removeOld_Ret) (auto simp: store.get_prune store.names_get split: if_splits)

text \<open>The names of a round are plain file names.\<close>

lemma plain_numbered: "plain_name (numbered ''whitelist'' n)" "plain_name (numbered ''blacklist'' n)"
proof -
  have "CHR ''/'' \<notin> set (itoa_int n)"
    using Itoa_digits [of "nat n"] Itoa_digits [of "nat (- n)"]
    by (auto simp: itoa_int_def list_all_iff is_digit_def)
  then show "plain_name (numbered ''whitelist'' n)" "plain_name (numbered ''blacklist'' n)"
    by (simp_all add: plain_name_def numbered_def)
qed

lemma process_plain:
  assumes "process env keep url d = Ret (e, d')" and "list_all plain_name (dir_names d)"
  shows "list_all plain_name (dir_names d')"
proof -
  let ?P = "\<lambda>d. list_all plain_name (dir_names d)"
  obtain e1 d1 where w: "writeWhitelist env d = (e1, d1)" by fastforce
  obtain e2 d2 where b: "writeBlacklist env d1 = (e2, d2)" by fastforce
  obtain e3 d3 where pw: "publish env (ue_readdir_err env 0) ''whitelist'' d2 = (e3, d3)" by fastforce
  obtain e4 d4 where pb: "publish env (ue_readdir_err env 1) ''blacklist'' d3 = (e4, d4)" by fastforce
  have new: "plain_name new_white" "plain_name new_black" by (simp_all add: plain_name_def)
  have p1: "?P d1" using touches_names [OF writeWhitelist_touches [OF w]] assms(2) new by (auto simp: list_all_iff)
  have p2: "?P d2" using touches_names [OF writeBlacklist_touches [OF b]] p1 new by (auto simp: list_all_iff)
  have p3: "?P d3" using publish_names [OF pw] p2 plain_numbered by (auto simp: list_all_iff)
  have p4: "?P d4" using publish_names [OF pb] p3 plain_numbered by (auto simp: list_all_iff)
  have rm: "?P d''" if "removeOld env re sel keep d = Ret d''" "?P d" for re sel d d''
    using removeOld_names [OF that(1)] that(2) by (auto simp: list_all_iff)
  show ?thesis
    using assms(1) p1 p2 p3 p4
    by (auto simp: process_def w b pw pb [simplified] go_bind_eq_Ret split: option.splits dest!: rm)
qed

text \<open>What a published pair of lists makes of the server, whatever happens to the list of advertisers.\<close>

lemma readLists_published:
  fixes lib :: golib
  assumes "newest ''whitelist'' fw (file_of_lines ws) d" and "newest ''blacklist'' fb (file_of_lines bl) d"
    and "list_all plain_name (dir_names d)" and "conf_ListsDirectory (srv_conf s) = path" and "path \<noteq> []"
    and "list_all short_line ws" and "list_all short_line bl"
  defines "s' \<equiv> snd (readLists lib (osfs_of path d) s)"
  shows "\<forall>k. lookup_bool (srv_whitelist s') k \<longleftrightarrow> listed lib ws k" and "\<forall>k. lookup_bool (srv_blacklist s') k \<longleftrightarrow> listed lib bl k"
proof -
  obtain w where w: "readList lib (osfs_of path d) path (list_RE ''whitelist'') = Inr w" "\<forall>k. lookup_bool w k \<longleftrightarrow> listed lib ws k"
    using newest_readList [OF assms(1,3,5,6), of lib] by blast
  obtain b where b: "readList lib (osfs_of path d) path (list_RE ''blacklist'') = Inr b" "\<forall>k. lookup_bool b k \<longleftrightarrow> listed lib bl k"
    using newest_readList [OF assms(2,3,5,7), of lib] by blast
  have "srv_whitelist s' = w" "srv_blacklist s' = b"
    unfolding s'_def readLists_def using assms(4,5) w(1) b(1) by (auto simp: Let_def split: sum.splits)
  with w(2) b(2) show "\<forall>k. lookup_bool (srv_whitelist s') k \<longleftrightarrow> listed lib ws k" and "\<forall>k. lookup_bool (srv_blacklist s') k \<longleftrightarrow> listed lib bl k"
    by simp_all
qed

text \<open>A host name stands for itself on a line of a list.\<close>

lemma host_char_ascii: "host_char c \<Longrightarrow> is_ascii c \<and> \<not> is_space c \<and> c \<noteq> CR"
  by (auto simp: host_char_def is_alnum_def is_ascii_def is_space_def Let_def)

lemma trim_plain: "list_all (\<lambda>c. \<not> is_space c) s \<Longrightarrow> trim_ascii s = s"
proof -
  assume a: "list_all (\<lambda>c. \<not> is_space c) s"
  have "dropWhile is_space xs = xs" if "list_all (\<lambda>c. \<not> is_space c) xs" for xs using that by (cases xs) auto
  from this [OF a] this [of "rev s"] a show ?thesis by (simp add: trim_ascii_def)
qed

lemma line_of_host:
  assumes "list_all host_char h" and "h \<noteq> []"
  shows "line_domain lib h \<noteq> []" and "Fqdn (line_domain lib h) = strings_ToLower lib (Fqdn h)"
proof -
  have a: "list_all is_ascii h" "list_all (\<lambda>c. \<not> is_space c) h" "last h \<noteq> CR"
    using assms host_char_ascii by (auto simp: list_all_iff)
  then have l: "line_domain lib h = map lower_char h"
    by (simp add: line_domain_def strip_CR_def strings_TrimSpace_def strings_ToLower_def trim_plain)
  then show "line_domain lib h \<noteq> []" using assms(2) by simp
  have "IsFqdn (map lower_char h) \<longleftrightarrow> IsFqdn h" using assms(2) by (simp add: IsFqdn_def)
  moreover have "list_all is_ascii (Fqdn h)" using a(1) by (simp add: Fqdn_def is_ascii_def)
  moreover have "lower_char CHR ''.'' = CHR ''.''" by (simp add: lower_char_def)
  ultimately show "Fqdn (line_domain lib h) = strings_ToLower lib (Fqdn h)"
    by (simp add: l Fqdn_def strings_ToLower_def lower_char_def)
qed

lemma listed_host:
  "h \<in> set ls \<Longrightarrow> list_all host_char h \<Longrightarrow> h \<noteq> [] \<Longrightarrow> listed lib ls (strings_ToLower lib (Fqdn h))"
  using line_of_host [of h lib] by (auto simp: listed_def list_ex_iff)

end
