(* ===== verification/SampleClient.thy ===== *)
theory SampleClient
  imports Composition
begin

text \<open>
  \<^verbatim>\<open>sample-client/main.go\<close>: four requests in the combinations of the two request formats and the two reply
  formats that the server offers. The functions return what they print, the body of the reply or the
  message in it; an error anywhere is a panic, as in the code. HTTP, message ids and the wire codec are fields of
  \<open>sample_env\<close>.
\<close>

section \<open>Requests and replies\<close>

record sample_env =
  se_NewRequest :: "string \<Rightarrow> string \<Rightarrow> string option"
  se_Do :: "http_out \<Rightarrow> string + http_response"
  se_Id :: "nat \<Rightarrow> u16"
  se_Pack :: "Msg \<Rightarrow> string + bytes"
  se_Unpack :: "bytes \<Rightarrow> string + Msg"

definition or_panic :: "string + 'a \<Rightarrow> 'a go" where
  "or_panic r = (case r of Inl err \<Rightarrow> Panic err | Inr x \<Rightarrow> Ret x)"

text \<open>
  \<^verbatim>\<open>http.NewRequest\<close>. Where the code adds a header before it looks at the error, a failure is met as the use of a
  nil pointer.
\<close>

definition new_request :: "sample_env \<Rightarrow> string \<Rightarrow> string \<Rightarrow> bool \<Rightarrow> (string \<rightharpoonup> string) \<Rightarrow> bytes \<Rightarrow> http_out go" where
  "new_request env meth addr header_first hdr body =
     (case se_NewRequest env meth addr of
        None \<Rightarrow> Ret \<lparr>ho_Method = meth, ho_URL = addr, ho_Header = hdr, ho_Body = body\<rparr>
      | Some err \<Rightarrow> Panic (if header_first then ''invalid memory address or nil pointer dereference'' else err))"

text \<open>\<^verbatim>\<open>client.Do\<close> and the copying of the body, whatever the status.\<close>

definition fetch_body :: "sample_env \<Rightarrow> http_out \<Rightarrow> bytes go" where
  "fetch_body env req = go_bind (or_panic (se_Do env req)) (\<lambda>rsp. or_panic (hr_Body rsp))"

definition fetch_msg :: "sample_env \<Rightarrow> http_out \<Rightarrow> (bytes \<times> Msg) go" where
  "fetch_msg env req =
     go_bind (fetch_body env req) (\<lambda>body. go_bind (or_panic (se_Unpack env body)) (\<lambda>msg. Ret (body, msg)))"

section \<open>The four requests\<close>

definition googleReqResp :: "sample_env \<Rightarrow> string \<Rightarrow> string \<Rightarrow> bytes go" where
  "googleReqResp env baseURL name =
     go_bind (new_request env ''GET'' (baseURL @ ''?name='' @ name) False Map.empty []) (fetch_body env)"

definition googleReqIETFResp :: "sample_env \<Rightarrow> string \<Rightarrow> (bytes \<times> Msg) go" where
  "googleReqIETFResp env baseURL =
     go_bind (new_request env ''GET'' (baseURL @ ''?name=yandex.ru'') True [''Accept'' \<mapsto> ''application/dns-message''] [])
       (fetch_msg env)"

text \<open>The error of \<^verbatim>\<open>Pack\<close> is overwritten before it is looked at; the packed message is then nil.\<close>

definition questionBody :: "sample_env \<Rightarrow> nat \<Rightarrow> string \<Rightarrow> bytes" where
  "questionBody env i name =
     (case se_Pack env (SetQuestion (se_Id env i) (Fqdn name) 1 new_Msg) of Inl _ \<Rightarrow> [] | Inr b \<Rightarrow> b)"

definition ietfGetReqResp :: "sample_env \<Rightarrow> string \<Rightarrow> (bytes \<times> Msg) go" where
  "ietfGetReqResp env baseURL =
     go_bind (new_request env ''GET'' (baseURL @ ''?dns='' @ EncodeToString (questionBody env 0 ''reg.ru'')) False
        [''Accept'' \<mapsto> ''application/dns-message'', ''DNT'' \<mapsto> ''1''] [])
       (fetch_msg env)"

definition ietfPostReqResp :: "sample_env \<Rightarrow> string \<Rightarrow> string \<Rightarrow> (bytes \<times> Msg) go" where
  "ietfPostReqResp env baseURL name =
     go_bind (new_request env ''POST'' baseURL True
        [''Accept'' \<mapsto> ''application/dns-message'', ''Content-Type'' \<mapsto> ''application/dns-message'']
        (questionBody env 1 name))
       (fetch_msg env)"

definition sample_main :: "sample_env \<Rightarrow> string \<Rightarrow> (bytes \<times> (bytes \<times> Msg) list) go" where
  "sample_main env baseURL =
     (if baseURL = [] then Panic (''Base url isn'' @ [CHR 0x27] @ ''t defined'')
      else
        go_bind (googleReqResp env baseURL ''google.com'') (\<lambda>a.
        go_bind (googleReqIETFResp env baseURL) (\<lambda>b.
        go_bind (ietfGetReqResp env baseURL) (\<lambda>c.
        go_bind (ietfPostReqResp env baseURL ''google.com'') (\<lambda>d.
          Ret (a, [b, c, d]))))))"

section \<open>What the server makes of the requests\<close>

definition sample_google :: "string \<Rightarrow> string \<Rightarrow> http_out" where
  "sample_google base name = \<lparr>ho_Method = ''GET'', ho_URL = base @ ''?name='' @ name, ho_Header = Map.empty, ho_Body = []\<rparr>"

definition sample_google_wire :: "string \<Rightarrow> http_out" where
  "sample_google_wire base = \<lparr>ho_Method = ''GET'', ho_URL = base @ ''?name=yandex.ru'',
     ho_Header = [''Accept'' \<mapsto> ''application/dns-message''], ho_Body = []\<rparr>"

definition sample_get :: "string \<Rightarrow> bytes \<Rightarrow> http_out" where
  "sample_get base b = \<lparr>ho_Method = ''GET'', ho_URL = base @ ''?dns='' @ EncodeToString b,
     ho_Header = [''Accept'' \<mapsto> ''application/dns-message'', ''DNT'' \<mapsto> ''1''], ho_Body = []\<rparr>"

definition sample_post :: "string \<Rightarrow> bytes \<Rightarrow> http_out" where
  "sample_post base b = \<lparr>ho_Method = ''POST'', ho_URL = base,
     ho_Header = [''Accept'' \<mapsto> ''application/dns-message'', ''Content-Type'' \<mapsto> ''application/dns-message''], ho_Body = b\<rparr>"

lemmas sample_request_defs = sample_google_def sample_google_wire_def sample_get_def sample_post_def

lemma sample_requests:
  assumes "\<And>m u. se_NewRequest env m u = None"
  shows "googleReqResp env base name = fetch_body env (sample_google base name)"
    "googleReqIETFResp env base = fetch_msg env (sample_google_wire base)"
    "ietfGetReqResp env base = fetch_msg env (sample_get base (questionBody env 0 ''reg.ru''))"
    "ietfPostReqResp env base name = fetch_msg env (sample_post base (questionBody env 1 name))"
  using assms by (simp_all add: googleReqResp_def googleReqIETFResp_def ietfGetReqResp_def ietfPostReqResp_def
      new_request_def sample_request_defs)

text \<open>A query of one field whose value needs no escaping.\<close>

lemma FormValue_single:
  assumes "list_all (\<lambda>c. query_safe c \<and> c \<noteq> CHR ''%'' \<and> c \<noteq> CHR ''+'') v"
    and "list_all (\<lambda>c. query_safe c \<and> c \<noteq> CHR ''%'' \<and> c \<noteq> CHR ''+'') k"
  shows "FormValue (k @ CHR ''='' # v) k' = (if k' = k then v else [])"
proof -
  have u: "QueryUnescape k = Some k" "QueryUnescape v = Some v"
    using assms by (intro unescape_plain, simp add: list_all_iff)+
  have "list_all field_ok [(k, v)]" using assms u by (simp add: field_ok_def list_all_iff)
  from ParseQuery_fields [OF _ this] u have "ParseQuery (k @ CHR ''='' # v) = [(k, v)]" by (simp add: List.map_filter_simps)
  then show ?thesis by (simp add: FormValue_def)
qed

lemma sample_forms:
  assumes "CHR ''?'' \<notin> set base"
  shows "list_all host_char name \<Longrightarrow> r_Form (deliver remote (sample_google base name)) k = (if k = ''name'' then name else [])"
    "r_Form (deliver remote (sample_google_wire base)) k = (if k = ''name'' then ''yandex.ru'' else [])"
    "r_Form (deliver remote (sample_get base b)) k = (if k = ''dns'' then EncodeToString b else [])"
    "r_Form (deliver remote (sample_post base b)) k = []"
proof -
  have host: "list_all (\<lambda>c. query_safe c \<and> c \<noteq> CHR ''%'' \<and> c \<noteq> CHR ''+'') n" if "list_all host_char n" for n
    using that by (auto simp: list_all_iff host_char_def is_alnum_def query_safe_def)
  have keys: "list_all (\<lambda>c. query_safe c \<and> c \<noteq> CHR ''%'' \<and> c \<noteq> CHR ''+'') ''name''"
    "list_all (\<lambda>c. query_safe c \<and> c \<noteq> CHR ''%'' \<and> c \<noteq> CHR ''+'') ''dns''"
    "list_all (\<lambda>c. query_safe c \<and> c \<noteq> CHR ''%'' \<and> c \<noteq> CHR ''+'') ''yandex.ru''"
    by (simp_all add: query_safe_def)
  have g: "FormValue (url_query (base @ ''?name='' @ n)) k = (if k = ''name'' then n else [])"
    if "list_all (\<lambda>c. query_safe c \<and> c \<noteq> CHR ''%'' \<and> c \<noteq> CHR ''+'') n" for n
    using FormValue_single [OF that keys(1), of k] url_query_of [OF assms, of "''name='' @ n"] by simp
  show "r_Form (deliver remote (sample_google base name)) k = (if k = ''name'' then name else [])" if "list_all host_char name"
    using g [OF host [OF that]] by (simp add: sample_google_def)
  show "r_Form (deliver remote (sample_google_wire base)) k = (if k = ''name'' then ''yandex.ru'' else [])"
    using g [OF keys(3)] by (simp add: sample_google_wire_def)
  show "r_Form (deliver remote (sample_get base b)) k = (if k = ''dns'' then EncodeToString b else [])"
    using FormValue_single [OF Encode_safe [of b] keys(2), of k] url_query_of [OF assms, of "''dns='' @ EncodeToString b"]
    by (simp add: sample_get_def)
  show "r_Form (deliver remote (sample_post base b)) k = []"
    using url_query_none [OF assms] by (simp add: sample_post_def)
qed

lemma sample_headers:
  "r_Header (deliver remote (sample_google base name)) k = []"
  "r_Header (deliver remote (sample_google_wire base)) k = (if k = ''Accept'' then ''application/dns-message'' else [])"
  "r_Header (deliver remote (sample_get base b)) k =
     (if k = ''Accept'' then ''application/dns-message'' else if k = ''DNT'' then ''1'' else [])"
  "r_Header (deliver remote (sample_post base b)) k =
     (if k = ''Accept'' \<or> k = ''Content-Type'' then ''application/dns-message'' else [])"
  by (simp_all add: sample_request_defs)

lemma accept_sample: "accept_loop (strings_Split CHR '','' ''application/dns-message'') = ''application/dns-message''"
  "accept_loop (strings_Split CHR '','' []) = []"
  by (simp_all add: numeral_2_eq_2)

lemma Encode_nonempty: "b \<noteq> [] \<Longrightarrow> EncodeToString b \<noteq> []"
  using DecodeString_Encode [of b] DecodeString_Encode [of "[]"] by auto

lemma sample_wire_fields:
  assumes "CHR ''?'' \<notin> set base" and "b \<noteq> []"
  shows "request_type (deliver remote (sample_get base b)) = ''application/dns-message''"
    "response_type (deliver remote (sample_get base b)) = ''application/dns-message''"
    "request_binary lib (deliver remote (sample_get base b)) = Inr b"
    "request_type (deliver remote (sample_post base b)) = ''application/dns-message''"
    "response_type (deliver remote (sample_post base b)) = ''application/dns-message''"
    "request_binary lib (deliver remote (sample_post base b)) = Inr b"
proof -
  note f = sample_forms [OF assms(1)]
  show "request_type (deliver remote (sample_get base b)) = ''application/dns-message''"
    "request_type (deliver remote (sample_post base b)) = ''application/dns-message''"
    using assms(2) Encode_nonempty by (simp_all add: request_type_def f sample_headers del: deliver_sel)
  show "response_type (deliver remote (sample_get base b)) = ''application/dns-message''"
    "response_type (deliver remote (sample_post base b)) = ''application/dns-message''"
    using accept_sample by (simp_all add: response_type_def sample_headers Let_def del: deliver_sel)
  show "request_binary lib (deliver remote (sample_get base b)) = Inr b"
    using assms(2) DecodeString_Encode [of b] by (simp add: request_binary_def f sample_headers del: deliver_sel)
  show "request_binary lib (deliver remote (sample_post base b)) = Inr b"
    using assms(2) DecodeString_Encode [of "[]"]
    by (simp add: request_binary_def f sample_headers del: deliver_sel(1,2)) (simp add: sample_post_def)
qed

text \<open>Both wire requests bring back the filtered answer under the id of the question.\<close>

lemma sample_wire_answer:
  assumes out: "out = sample_get base bin \<or> out = sample_post base bin" and base: "CHR ''?'' \<notin> set base"
    and bin: "bin \<noteq> []" "bin \<noteq> dnscrypt_probe" and srv: "se_Do senv = served_by env s remote"
    and msg: "env_Unpack env bin = Inr msg" "msg_Question msg = [q]" "msg_Opcode msg = 0" "q_Name q \<noteq> ''.''"
    and fwd: "add_client_subnet env (deliver remote out) (msg\<lparr>msg_Id := env_Id env\<rparr>) = Ret (fwd, t)"
    and x: "exchange env (srv_conf s) 0 fwd (try_upstream env (srv_conf s) 0) = (Some ans, None)" "msg_typed ans"
    and env: "rand_ok env" "config_ok (srv_conf s)"
    and wire: "env_Pack env ((filtered (env_lib env) s 0 ans)\<lparr>msg_Id := msg_Id msg\<rparr>) = Inr wire"
    and ret: "se_Unpack senv wire = Inr reply"
  shows "fetch_msg senv out = Ret (wire, reply)"
proof -
  have u: "\<not> strings_Contains (UserAgent (deliver remote out)) ''Firefox''" "parse_categories (deliver remote out) = 0"
    using out by (auto simp: UserAgent_def parse_categories_def sample_headers strings_Contains_def strconv_ParseUint_def simp del: deliver_sel)
  have "request_type (deliver remote out) = ''application/dns-message''"
    "response_type (deliver remote out) = ''application/dns-message''" "request_binary (env_lib env) (deliver remote out) = Inr bin"
    using out sample_wire_fields [OF base bin(1)] by auto
  from served_out [OF this u bin(2) msg fwd x env wire] obtain resp where
    "served_by env s remote out = Inr resp" "hr_Body resp = Inr wire"
    by blast
  with srv ret show ?thesis by (simp add: fetch_msg_def fetch_body_def or_panic_def)
qed

text \<open>C18: The server understands the four requests of the sample client as they are meant: the first as a JSON
  request for a JSON reply, the second as a JSON request for a reply in wire format, the third and the
  fourth as requests in wire format with the packed question as contents; only the third asks not to
  be tracked.\<close>

theorem sample_requests_understood:
  assumes "CHR ''?'' \<notin> set base" and "list_all host_char name" and "name \<noteq> []"
    and "\<And>m u. se_NewRequest env m u = None"
    and "b0 = questionBody env 0 ''reg.ru''" and "b1 = questionBody env 1 name" and "b0 \<noteq> []" and "b1 \<noteq> []"
  shows "\<exists>o1 o2 o3 o4. googleReqResp env base name = fetch_body env o1 \<and> googleReqIETFResp env base = fetch_msg env o2 \<and>
    ietfGetReqResp env base = fetch_msg env o3 \<and> ietfPostReqResp env base name = fetch_msg env o4 \<and>
    map (\<lambda>out. (request_type (deliver remote out), response_type (deliver remote out))) [o1, o2, o3, o4] =
      [(''application/dns-json'', ''application/json''), (''application/dns-json'', ''application/dns-message''),
       (''application/dns-message'', ''application/dns-message''), (''application/dns-message'', ''application/dns-message'')] \<and>
    r_Form (deliver remote o1) ''name'' = name \<and> r_Form (deliver remote o2) ''name'' = ''yandex.ru'' \<and>
    request_binary lib (deliver remote o3) = Inr b0 \<and> request_binary lib (deliver remote o4) = Inr b1 \<and>
    map (\<lambda>out. parse_dnt (deliver remote out)) [o1, o2, o3, o4] = [False, False, True, False]"
proof -
  let ?o1 = "sample_google base name" and ?o2 = "sample_google_wire base"
  let ?o3 = "sample_get base b0" and ?o4 = "sample_post base b1"
  note f = sample_forms [OF assms(1)] sample_forms(1) [OF assms(1,2)]
  have t: "request_type (deliver remote ?o1) = ''application/dns-json''" "request_type (deliver remote ?o2) = ''application/dns-json''"
    using assms(3) by (simp_all add: request_type_def f sample_headers del: deliver_sel)
  have rt: "response_type (deliver remote ?o1) = ''application/json''" "response_type (deliver remote ?o2) = ''application/dns-message''"
    using t accept_sample by (simp_all add: response_type_def sample_headers Let_def del: deliver_sel)
  have d: "map (\<lambda>out. parse_dnt (deliver remote out)) [?o1, ?o2, ?o3, ?o4] = [False, False, True, False]"
    by (simp add: parse_dnt_def sample_headers del: deliver_sel)
  show ?thesis
    using t rt d f sample_wire_fields [OF assms(1,7)] sample_wire_fields [OF assms(1,8)] sample_requests [OF assms(4)] assms(5,6)
    by (intro exI [of _ ?o1] exI [of _ ?o2] exI [of _ ?o3] exI [of _ ?o4]) (simp del: deliver_sel)
qed

definition example_sample_env :: sample_env where
  "example_sample_env =
     \<lparr>se_NewRequest = (\<lambda>_ _. None), se_Do = (\<lambda>_. Inl ''refused''), se_Id = of_nat, se_Pack = (\<lambda>m. Inr [ucast (msg_Id m)]),
      se_Unpack = (\<lambda>_. Inr new_Msg)\<rparr>"

theorem sample_requests_understood_witness:
  "\<exists>out. ietfPostReqResp example_sample_env ''https://localhost/dns-query'' ''google.com'' = fetch_msg example_sample_env out \<and>
     request_binary plain_golib (deliver ''192.0.2.1:9'' out) = Inr [1]"
proof -
  have "questionBody example_sample_env 0 ''reg.ru'' = [0]" "questionBody example_sample_env 1 ''google.com'' = [1]"
    by (simp_all add: questionBody_def example_sample_env_def SetQuestion_def)
  then show ?thesis
    using sample_requests_understood [of "''https://localhost/dns-query''" "''google.com''" example_sample_env "[0]" "[1]"
        "''192.0.2.1:9''" plain_golib]
    by (auto simp: host_char_def is_alnum_def) (auto simp: example_sample_env_def)
qed

end
