(* ===== verification/JsonComposition.thy ===== *)
theory JsonComposition
  imports Composition
begin

text \<open>
  A query and its reply in JSON format, between the client (\<^verbatim>\<open>doh-client/google.go\<close>) and the server
  (\<^verbatim>\<open>doh-server/google.go\<close>), with the conversions of \<^verbatim>\<open>json-dns\<close> at both ends.
\<close>

section \<open>What JSON carries of a response\<close>

text \<open>
  Two responses that differ only in fields with the tag \<^verbatim>\<open>json:"-"\<close>. The decoder on what the encoder wrote gives a response that
  is the same in this sense.
\<close>

definition json_RR_fields :: "JRR \<Rightarrow> string \<times> u16 \<times> u32 \<times> string \<times> string" where
  "json_RR_fields j = (jr_Name j, jr_Type j, jr_TTL j, jr_ExpiresStr j, jr_Data j)"

definition json_same :: "Response \<Rightarrow> Response \<Rightarrow> bool" where
  "json_same a b \<longleftrightarrow>
     rs_Status a = rs_Status b \<and> rs_TC a = rs_TC b \<and> rs_RD a = rs_RD b \<and> rs_RA a = rs_RA b \<and>
     rs_AD a = rs_AD b \<and> rs_CD a = rs_CD b \<and> rs_Question a = rs_Question b \<and>
     map json_RR_fields (rs_Answer a) = map json_RR_fields (rs_Answer b) \<and>
     map json_RR_fields (rs_Authority a) = map json_RR_fields (rs_Authority b) \<and>
     map json_RR_fields (rs_Additional a) = map json_RR_fields (rs_Additional b) \<and>
     rs_Comment a = rs_Comment b \<and> rs_EdnsClientSubnet a = rs_EdnsClientSubnet b"

lemma unmarshalRR_fields: "json_RR_fields j = json_RR_fields k \<Longrightarrow> unmarshalRR lib tm newRR now j = unmarshalRR lib tm newRR now k"
proof -
  assume "json_RR_fields j = json_RR_fields k"
  then have e: "jr_Name j = jr_Name k" "jr_Type j = jr_Type k" "jr_TTL j = jr_TTL k"
    "jr_ExpiresStr j = jr_ExpiresStr k" "jr_Data j = jr_Data k" by (simp_all add: json_RR_fields_def)
  show ?thesis unfolding unmarshalRR_def e ..
qed

lemma unmarshal_section_fields:
  "map json_RR_fields js = map json_RR_fields ks \<Longrightarrow>
     unmarshal_section lib tm newRR now js = unmarshal_section lib tm newRR now ks"
proof (induction js arbitrary: ks)
  case (Cons j js)
  then obtain k ks' where "ks = k # ks'" "json_RR_fields j = json_RR_fields k" "map json_RR_fields js = map json_RR_fields ks'"
    by (cases ks) auto
  with Cons.IH [of ks'] unmarshalRR_fields [of j k lib tm newRR now] show ?case by (simp split: sum.splits)
qed simp

lemma Unmarshal_json_same:
  "json_same a b \<Longrightarrow> Unmarshal lib tm newRR now m a udpSize netmask = Unmarshal lib tm newRR now m b udpSize netmask"
  using unmarshal_section_fields [of "rs_Answer a" "rs_Answer b" lib tm newRR now]
    unmarshal_section_fields [of "rs_Authority a" "rs_Authority b" lib tm newRR now]
    unmarshal_section_fields [of "rs_Additional a" "rs_Additional b" lib tm newRR now]
  by (simp add: json_same_def Unmarshal_def)

text \<open>The response code of the template does not matter: that of the JSON response replaces it.\<close>

lemma Unmarshal_Rcode: "Unmarshal lib tm newRR now (m\<lparr>msg_Rcode := x\<rparr>) resp udpSize netmask = Unmarshal lib tm newRR now m resp udpSize netmask"
  by (simp add: Unmarshal_def Msg_Copy_def Let_def split: prod.splits)

lemma status_reply_Unmarshal:
  "Unmarshal lib tm newRR now (status_reply resp m) js udpSize netmask = Unmarshal lib tm newRR now m js udpSize netmask"
  by (simp add: status_reply_def Unmarshal_Rcode)

section \<open>The request\<close>

definition google_request :: "string \<Rightarrow> Question \<Rightarrow> bool \<Rightarrow> net_IP \<times> u8 \<Rightarrow> http_out" where
  "google_request up q cd addr_mask =
     \<lparr>ho_Method = ''GET'', ho_URL = google_URL up q cd addr_mask,
      ho_Header = [''Accept'' \<mapsto> ''application/json, application/dns-message, application/dns-udpwireformat'',
                   ''User-Agent'' \<mapsto> client_USER_AGENT],
      ho_Body = []\<rparr>"

lemma google_request_types:
  fixes remote :: string and q :: Question and cd :: bool
  assumes "CHR ''?'' \<notin> set up" and "ip_or_none (fst am)"
  defines "r \<equiv> deliver remote (google_request up q cd am)"
  shows "request_type r = ''application/dns-json''" "response_type r = ''application/json''" "parse_categories r = 0"
proof -
  have f: "r_Form r ''ct'' = ''application/dns-json''" using google_form [OF assms(1,2)] by (simp add: r_def google_request_def)
  then show "request_type r = ''application/dns-json''" by (simp add: request_type_def)
  show "response_type r = ''application/json''" using client_accept(2) by (simp add: response_type_def r_def google_request_def Let_def)
  show "parse_categories r = 0" by (simp add: parse_categories_def r_def google_request_def strconv_ParseUint_def)
qed

text \<open>The question that the server's parser makes of the request.\<close>

lemma google_request_parsed:
  assumes "CHR ''?'' \<notin> set up" and "ip_or_none (fst am)" and "q_Name q \<noteq> []"
    and "env_ToASCII env (q_Name q) = Inr (q_Name q)" and "q_Qtype q \<noteq> 0" and "q_Qtype q \<noteq> 65535"
    and "\<And>k. r_Form r k = FormValue (url_query (google_URL up q cd am)) k"
  shows "rq_errcode (parseRequestGoogle env r) = 0 \<and> rq_filterCategories (parseRequestGoogle env r) = parse_categories r \<and>
    (\<exists>m. rq_request (parseRequestGoogle env r) = Some m \<and>
      msg_Question m = [\<lparr>q_Name = Fqdn (q_Name q), q_Qtype = q_Qtype q, q_Qclass = ClassINET\<rparr>] \<and> msg_Opcode m = 0 \<and>
      msg_CheckingDisabled m = cd \<and>
      msg_Extra m = [RR_OPT (new_OPT True)
        (case fst am of
           Some a \<Rightarrow> [new_subnet (if To4 a = None then 2 else 1, short_ip a, snd am)]
         | None \<Rightarrow> (case findClientIP env r of Some ip \<Rightarrow> [new_subnet (family_of ip)] | None \<Rightarrow> []))])"
proof -
  note form = google_form [OF assms(1,2)]
  have ty: "parse_rrtype lib (question_type q) = Some (q_Qtype q)" for lib by (rule parse_question_type [OF assms(5,6)])
  have cd: "parse_cd (if cd then ''1'' else []) = Some cd" by (simp add: parse_cd_def)
  show ?thesis
    using assms(3,4) ty cd parse_client_subnet_String subnet_text_not_zero assms(2)
    by (cases "fst am") (auto simp: assms(7) parseRequestGoogle_def form SetQuestion_def new_Msg_def new_DNSRequest_def ip_or_none_def Let_def
        split: option.split)
qed


lemma google_request_refused:
  assumes "CHR ''?'' \<notin> set up" and "ip_or_none (fst am)" and "q_Name q \<noteq> []"
    and "env_ToASCII env (q_Name q) = Inr (q_Name q)" and "q_Qtype q = 0 \<or> q_Qtype q = 65535"
    and "\<And>k. r_Form r k = FormValue (url_query (google_URL up q cd am)) k"
  shows "rq_errcode (parseRequestGoogle env r) = 400"
  using assms(3,4) reserved_types_refused [OF assms(5)]
  by (simp add: parseRequestGoogle_def assms(6) google_form [OF assms(1,2)] error_request_def new_DNSRequest_def)

section \<open>The reply\<close>

lemma served_google:
  fixes remote :: string and q :: Question and cd :: bool
  assumes req: "CHR ''?'' \<notin> set up" "ip_or_none (fst am)" "q_Name q \<noteq> []" "q_Name q \<noteq> ''.''"
      "env_ToASCII env (q_Name q) = Inr (q_Name q)" "q_Qtype q \<noteq> 0" "q_Qtype q \<noteq> 65535"
    and fwd: "rq_request (parseRequestGoogle env (deliver remote (google_request up q cd am))) = Some fwd"
    and x: "exchange env (srv_conf s) 0 fwd (try_upstream env (srv_conf s) 0) = (Some ans, None)"
    and env: "rand_ok env" "config_ok (srv_conf s)"
    and js: "Marshal (env_time env) (env_opt_text env) (env_clock env 0) (filtered (env_lib env) s 0 ans) = Ret js"
      "env_json_Response env js = Inr body"
  shows "\<exists>resp. served_by env s remote (google_request up q cd am) = Inr resp \<and> hr_Body resp = Inr body \<and>
    hr_Header resp ''Content-Type'' = ''application/json; charset=UTF-8''"
proof -
  let ?r = "deliver remote (google_request up q cd am)"
  let ?req = "parseRequestGoogle env ?r"
  let ?w0 = "Header_Set ''X-Powered-By'' USER_AGENT (Header_Set ''Server'' USER_AGENT new_writer)"
  note t = google_request_types [OF req(1,2), where remote = remote and q = q and cd = cd]
  have "r_Form ?r k = FormValue (url_query (google_URL up q cd am)) k" for k by (simp add: google_request_def)
  from google_request_parsed [OF req(1-3,5-7) this] have e: "rq_errcode ?req = 0" "rq_filterCategories ?req = 0"
    and q: "msg_Question fwd = [\<lparr>q_Name = Fqdn (q_Name q), q_Qtype = q_Qtype q, q_Qclass = ClassINET\<rparr>]" "msg_Opcode fwd = 0"
    using fwd t(3) by auto
  have n: "Fqdn (q_Name q) \<noteq> ''.''" using req(3,4) by (auto simp: Fqdn_def)
  let ?req4 = "?req\<lparr>rq_currentUpstream := try_upstream env (srv_conf s) 0, rq_response := Some (filtered (env_lib env) s 0 ans)\<rparr>"
  from generateResponseGoogle_fields [of ?req4 "filtered (env_lib env) s 0 ans" ?w0, OF _ _ js, of ?r]
  obtain w where w: "generateResponseGoogle env ?r ?req4 ?w0 = Ret w" "w_Body w = body"
    "sent_field w ''Content-Type'' = Some ''application/json; charset=UTF-8''" by auto
  have "serve_request env s (\<lambda>_. s) ?r ?req ?w0 = Ret (w, if srv_tracker s \<noteq> None \<and> \<not> rq_dnt ?req then Some (Fqdn (q_Name q)) else None)"
    using serve_request_answered [OF fwd e(1) q _ x env, of "\<lambda>_. s" ?r ?w0] n t(2) w(1) e(2) by simp
  then have "handlerFunc env s (\<lambda>_. s) ?r new_writer = Ret (w, if srv_tracker s \<noteq> None \<and> \<not> rq_dnt ?req then Some (Fqdn (q_Name q)) else None)"
    using t(1) e(1) by (simp add: handlerFunc_def)
  then show ?thesis using w(2) receive_header [OF w(3)] by (simp add: served_by_def) (simp add: receive_def)
qed

text \<open>A query from the stub, over a server with JSON format, and back.\<close>

lemma query_over_json:
  assumes conf: "cc_UpstreamGoogle (cl_conf c) = [up]" "cc_UpstreamIETF (cl_conf c) = []"
    and cenv: "client_rand_ok cenv" "ce_Do cenv = served_by env s remote"
    and r: "\<not> msg_Response r" "msg_Question r = [q]" "IsEdns0 r = Ret opt" "client_findClientIP cenv (cl_conf c) r = Ret am"
      "ce_NewRequest cenv (google_URL up q (msg_CheckingDisabled r) am) = None"
    and req: "CHR ''?'' \<notin> set up" "ip_or_none (fst am)" "q_Name q \<noteq> []" "q_Name q \<noteq> ''.''"
      "env_ToASCII env (q_Name q) = Inr (q_Name q)" "q_Qtype q \<noteq> 0" "q_Qtype q \<noteq> 65535"
    and fwd: "rq_request (parseRequestGoogle env (deliver remote (google_request up q (msg_CheckingDisabled r) am))) = Some fwd"
    and x: "exchange env (srv_conf s) 0 fwd (try_upstream env (srv_conf s) 0) = (Some ans, None)"
    and env: "rand_ok env" "config_ok (srv_conf s)"
    and js: "Marshal (env_time env) (env_opt_text env) (env_clock env 0) (filtered (env_lib env) s 0 ans) = Ret js"
      "env_json_Response env js = Inr body" "ce_json cenv body = Inr js'" "json_same js js'"
    and reply: "reply = Unmarshal (ce_lib cenv) (ce_time cenv) (ce_NewRR cenv) (ce_clock cenv 0) (PrepareReply r) js (stub_size r) (snd am)"
      "packs cenv reply"
  shows "\<exists>p. client_handlerFunc cenv c r isTCP = Ret ([WriteRaw p], c) \<and> sent_packet cenv isTCP (stub_size r) reply p"
proof -
  from served_google [OF req fwd x env js(1,2)] obtain resp where
    resp: "served_by env s remote (google_request up q (msg_CheckingDisabled r) am) = Inr resp" "hr_Body resp = Inr body"
      "hr_Header resp ''Content-Type'' = ''application/json; charset=UTF-8''" by blast
  let ?q = "\<lparr>cq_response = resp, cq_reply = PrepareReply r, cq_udpSize = stub_size r, cq_ednsClientAddress = fst am,
    cq_ednsClientNetmask = snd am, cq_currentUpstream = up\<rparr>"
  have size: "(case opt of None \<Rightarrow> 512 | Some (_, h, _) \<Rightarrow> OPT_UDPSize h) = stub_size r"
    by (simp add: stub_size_def r(3) split: option.split)
  have g: "generateRequestGoogle cenv c r = Ret ([], c, Some ?q)"
    using r(2-5) cenv(2) pick_single [OF cenv(1)] conf(1) resp(1)
    by (simp add: generateRequestGoogle_def send_request_def google_request_def size Let_def)
  have t: "choose_type cenv (cl_conf c) = ''application/dns-json''" using conf by (simp add: choose_type_def)
  have ct: "content_type ''application/dns-json'' resp = ''application/json''"
    using resp(3) by (simp add: content_type_def numeral_2_eq_2)
  have "\<not> give_up ''application/json'' resp" using resp(3) by (simp add: give_up_def strings_HasPrefix_def)
  then have "parseResponseGoogle cenv isTCP ?q = write_reply cenv isTCP (?q\<lparr>cq_reply := status_reply resp (PrepareReply r)\<rparr>) reply"
    using resp(2) js(3) Unmarshal_json_same [OF js(4)] reply(1)
    by (simp add: parseResponseGoogle_def status_reply_Unmarshal Let_def)
  then obtain p where "parseResponseGoogle cenv isTCP ?q = Ret [WriteRaw p]" "sent_packet cenv isTCP (stub_size r) reply p"
    using write_reply_sent [OF reply(2), of isTCP "?q\<lparr>cq_reply := status_reply resp (PrepareReply r)\<rparr>"] by auto
  then show ?thesis using r(1) t g ct by (auto simp: client_handlerFunc_def Let_def)
qed

end
