(* ===== verification/UpdaterMain.thy ===== *)
theory UpdaterMain
  imports ListsUpdater
begin

text \<open>
  \<^verbatim>\<open>main\<close> of \<^verbatim>\<open>lists-updater/main.go\<close> and the lock that it takes with \<^verbatim>\<open>gofrs/flock\<close>. Any number of updaters may be started in
  one directory and each may be killed at any time; they are a step relation whose steps are the calls
  that \<^verbatim>\<open>process\<close> makes. The lock lets one updater work at a time, so the directory goes only through
  states that a single updater, started again whenever it was killed, goes through as well.
\<close>

section \<open>The lock\<close>

text \<open>
  \<^verbatim>\<open>TryLock\<close> of a lock that this process does not hold. The kernel grants an exclusive lock unless another open file holds one;
  opening the lock file and the system call itself may fail.
\<close>

definition TryLock :: "string option \<Rightarrow> nat \<Rightarrow> nat option \<Rightarrow> (string + bool) \<times> nat option" where
  "TryLock err pid holder =
     (case err of
        Some e \<Rightarrow> (Inl e, holder)
      | None \<Rightarrow> (case holder of None \<Rightarrow> (Inr True, Some pid) | Some _ \<Rightarrow> (Inr False, holder)))"

text \<open>The end of a process, by \<^verbatim>\<open>Unlock\<close> or by the kernel when it closes the files of the process.\<close>

definition release :: "nat \<Rightarrow> nat option \<Rightarrow> nat option" where
  "release pid holder = (if holder = Some pid then None else holder)"

section \<open>The calls of a round\<close>

datatype stage = SWriteWhite | SWriteBlack | SPublishWhite | SPublishBlack | SRemoveWhite | SRemoveBlack | SNotify

text \<open>One call: \<^const>\<open>Inl\<close> is the result of \<^verbatim>\<open>process\<close>, \<^const>\<open>Inr\<close> the call that comes next.\<close>

definition then_next :: "(string \<Rightarrow> string) \<Rightarrow> stage \<Rightarrow> string option \<times> workdir \<Rightarrow> (string option + stage) \<times> workdir" where
  "then_next wrap st r = (case r of (Some err, d) \<Rightarrow> (Inl (Some (wrap err)), d) | (None, d) \<Rightarrow> (Inr st, d))"

fun round_call :: "upd_env \<Rightarrow> int \<Rightarrow> string \<Rightarrow> stage \<Rightarrow> workdir \<Rightarrow> ((string option + stage) \<times> workdir) go" where
  "round_call env keep url SWriteWhite d =
     Ret (then_next (\<lambda>err. ''unable to update whitelist: '' @ err) SWriteBlack (writeWhitelist env d))"
| "round_call env keep url SWriteBlack d =
     Ret (then_next (\<lambda>err. ''unable to update blacklist: '' @ err) SPublishWhite (writeBlacklist env d))"
| "round_call env keep url SPublishWhite d =
     Ret (then_next id SPublishBlack (publish env (ue_readdir_err env 0) ''whitelist'' d))"
| "round_call env keep url SPublishBlack d =
     Ret (then_next id SRemoveWhite (publish env (ue_readdir_err env 1) ''blacklist'' d))"
| "round_call env keep url SRemoveWhite d =
     go_bind (removeOld env (ue_readdir_err env 2) (list_RE ''whitelist'') keep d) (\<lambda>d'. Ret (Inr SRemoveBlack, d'))"
| "round_call env keep url SRemoveBlack d =
     go_bind (removeOld env (ue_readdir_err env 3) (list_RE ''blacklist'') keep d) (\<lambda>d'. Ret (Inr SNotify, d'))"
| "round_call env keep url SNotify d = Ret (Inl (notify env url), d)"

section \<open>main\<close>

datatype updater = Booting | Asleep | Busy upd_env stage | Exited

record updaters =
  us_holder :: "nat option"
  us_procs :: "nat \<Rightarrow> updater"
  us_dir :: workdir

text \<open>\<^verbatim>\<open>main\<close> up to its loop: every failure is fatal.\<close>

definition updater_boot :: "string \<Rightarrow> string option \<Rightarrow> string option \<Rightarrow> nat \<Rightarrow> nat option \<Rightarrow> (string + unit) \<times> nat option" where
  "updater_boot workDir chdir_err lock_err pid holder =
     (case chdir_err of
        Some err \<Rightarrow> (Inl (''Unable to open '' @ workDir @ '': '' @ err), holder)
      | None \<Rightarrow>
          (case TryLock lock_err pid holder of
             (Inl err, h) \<Rightarrow> (Inl (''Unable to take a lock: '' @ err), h)
           | (Inr lockSuccess, h) \<Rightarrow> if \<not> lockSuccess then (Inl ''Unable to take a lock'', h) else (Inr (), h)))"

definition boot_step :: "string \<Rightarrow> string option \<Rightarrow> string option \<Rightarrow> nat \<Rightarrow> updaters \<Rightarrow> updaters" where
  "boot_step workDir chdir_err lock_err pid s =
     (case updater_boot workDir chdir_err lock_err pid (us_holder s) of
        (Inl _, h) \<Rightarrow> s\<lparr>us_holder := h, us_procs := (us_procs s)(pid := Exited)\<rparr>
      | (Inr _, h) \<Rightarrow> s\<lparr>us_holder := h, us_procs := (us_procs s)(pid := Asleep)\<rparr>)"

text \<open>
  The loop: a round begins, makes its calls, and the process sleeps until the next one. Files are touched by the
  calls only, and a call is one step. A process may end between any two calls.
\<close>

inductive updaters_run :: "int \<Rightarrow> string \<Rightarrow> workdir \<Rightarrow> updaters \<Rightarrow> bool"
  for keep :: int and url :: string and d0 :: workdir where
  none: "updaters_run keep url d0 \<lparr>us_holder = None, us_procs = (\<lambda>_. Booting), us_dir = d0\<rparr>"
| boot: "updaters_run keep url d0 s \<Longrightarrow> us_procs s p = Booting \<Longrightarrow> updaters_run keep url d0 (boot_step wd ce le p s)"
| wake: "updaters_run keep url d0 s \<Longrightarrow> us_procs s p = Asleep \<Longrightarrow>
    updaters_run keep url d0 (s\<lparr>us_procs := (us_procs s)(p := Busy env SWriteWhite)\<rparr>)"
| call: "updaters_run keep url d0 s \<Longrightarrow> us_procs s p = Busy env st \<Longrightarrow>
    round_call env keep url st (us_dir s) = Ret (Inr st', d) \<Longrightarrow>
    updaters_run keep url d0 (s\<lparr>us_procs := (us_procs s)(p := Busy env st'), us_dir := d\<rparr>)"
| finish: "updaters_run keep url d0 s \<Longrightarrow> us_procs s p = Busy env st \<Longrightarrow>
    round_call env keep url st (us_dir s) = Ret (Inl res, d) \<Longrightarrow>
    updaters_run keep url d0 (s\<lparr>us_procs := (us_procs s)(p := Asleep), us_dir := d\<rparr>)"
| kill: "updaters_run keep url d0 s \<Longrightarrow>
    updaters_run keep url d0 (s\<lparr>us_holder := release p (us_holder s), us_procs := (us_procs s)(p := Exited)\<rparr>)"

declare updaters_run.intros [step_intros]

section \<open>A round, call by call\<close>

fun stage_rank :: "stage \<Rightarrow> nat" where
  "stage_rank SWriteWhite = 6"
| "stage_rank SWriteBlack = 5"
| "stage_rank SPublishWhite = 4"
| "stage_rank SPublishBlack = 3"
| "stage_rank SRemoveWhite = 2"
| "stage_rank SRemoveBlack = 1"
| "stage_rank SNotify = 0"

lemma round_call_rank: "round_call env keep url st d = Ret (Inr st', d') \<Longrightarrow> stage_rank st' < stage_rank st"
  by (cases st) (auto simp: then_next_def go_bind_eq_Ret split: prod.splits option.splits)

function round_rest :: "upd_env \<Rightarrow> int \<Rightarrow> string \<Rightarrow> stage \<Rightarrow> workdir \<Rightarrow> (string option \<times> workdir) go" where
  "round_rest env keep url st d =
     go_bind (round_call env keep url st d) (\<lambda>(r, d'). case r of Inl e \<Rightarrow> Ret (e, d') | Inr st' \<Rightarrow> round_rest env keep url st' d')"
  by pat_completeness auto
termination
  by (relation "measure (\<lambda>(env, keep, url, st, d). stage_rank st)") (auto dest: round_call_rank)

declare round_rest.simps [simp del]

text \<open>The calls one after the other are \<^verbatim>\<open>process\<close>.\<close>

lemma round_rest_process: "round_rest env keep url SWriteWhite d = process env keep url d"
  by (simp add: process_def round_rest.simps then_next_def go_bind_assoc split: prod.splits option.splits)

inductive round_prefix :: "upd_env \<Rightarrow> int \<Rightarrow> string \<Rightarrow> workdir \<Rightarrow> stage \<Rightarrow> workdir \<Rightarrow> bool"
  for env :: upd_env and keep :: int and url :: string and d :: workdir where
  first: "round_prefix env keep url d SWriteWhite d"
| more: "round_prefix env keep url d st d1 \<Longrightarrow> round_call env keep url st d1 = Ret (Inr st', d2) \<Longrightarrow>
    round_prefix env keep url d st' d2"

lemma round_prefix_rest: "round_prefix env keep url d st d' \<Longrightarrow> process env keep url d = round_rest env keep url st d'"
  by (induction rule: round_prefix.induct) (simp_all add: round_rest_process round_rest.simps [of env keep url st for st])

text \<open>What one updater makes of the directory: whole rounds, and rounds after which it was killed and started again.\<close>

inductive serial :: "int \<Rightarrow> string \<Rightarrow> workdir \<Rightarrow> workdir \<Rightarrow> bool"
  for keep :: int and url :: string and d0 :: workdir where
  fresh: "serial keep url d0 d0"
| whole: "serial keep url d0 d \<Longrightarrow> process env keep url d = Ret (e, d') \<Longrightarrow> serial keep url d0 d'"
| cut: "serial keep url d0 d \<Longrightarrow> round_prefix env keep url d st d' \<Longrightarrow> serial keep url d0 d'"

section \<open>Mutual exclusion\<close>

text \<open>The processes that have passed \<^verbatim>\<open>TryLock\<close> and not ended.\<close>

definition working :: "updater \<Rightarrow> bool" where
  "working u \<longleftrightarrow> (case u of Asleep \<Rightarrow> True | Busy _ _ \<Rightarrow> True | _ \<Rightarrow> False)"

lemma working_simps [simp]:
  "\<not> working Booting" "working Asleep" "working (Busy env st)" "\<not> working Exited"
  by (simp_all add: working_def)

definition lock_inv :: "updaters \<Rightarrow> bool" where
  "lock_inv s \<longleftrightarrow> (\<forall>p. working (us_procs s p) \<longrightarrow> us_holder s = Some p)"

text \<open>Where the running round stands: the directory is that of a whole number of rounds and a prefix of the present one.\<close>

definition dir_inv :: "int \<Rightarrow> string \<Rightarrow> workdir \<Rightarrow> updaters \<Rightarrow> bool" where
  "dir_inv keep url d0 s \<longleftrightarrow> serial keep url d0 (us_dir s) \<and>
     (\<forall>p env st. us_procs s p = Busy env st \<longrightarrow>
        (\<exists>d. serial keep url d0 d \<and> round_prefix env keep url d st (us_dir s)))"

lemma boot_step_cases:
  "boot_step wd ce le p s = s\<lparr>us_procs := (us_procs s)(p := Exited)\<rparr> \<or>
   us_holder s = None \<and> boot_step wd ce le p s = s\<lparr>us_holder := Some p, us_procs := (us_procs s)(p := Asleep)\<rparr>"
  by (cases s) (auto simp: boot_step_def updater_boot_def TryLock_def split: option.splits)

lemma lock_inv_run: "updaters_run keep url d0 s \<Longrightarrow> lock_inv s"
proof (induction rule: updaters_run.induct)
  case (boot s p wd ce le)
  then show ?case using boot_step_cases [of wd ce le p s] by (auto simp: lock_inv_def split: if_splits)
next
  case (kill s p)
  then show ?case by (auto simp: lock_inv_def release_def split: if_splits)
qed (fastforce simp: lock_inv_def split: if_splits)+

lemma sole_worker: "lock_inv s \<Longrightarrow> working (us_procs s p) \<Longrightarrow> working (us_procs s q) \<Longrightarrow> q = p"
  by (metis lock_inv_def option.inject)

lemma dir_inv_run: "updaters_run keep url d0 s \<Longrightarrow> dir_inv keep url d0 s"
proof (induction rule: updaters_run.induct)
  case none
  then show ?case by (simp add: dir_inv_def fresh)
next
  case (boot s p wd ce le)
  then show ?case using boot_step_cases [of wd ce le p s] by (auto simp: dir_inv_def split: if_splits)
next
  case (wake s p env)
  then show ?case by (auto simp: dir_inv_def intro: first split: if_splits)
next
  case (call s p env st st' d)
  have sole: "q = p" if "us_procs s q = Busy env' st''" for q env' st''
    using sole_worker [OF lock_inv_run [OF call(1)], of p q] call(2) that by simp
  from call(2,4) obtain d1 where d1: "serial keep url d0 d1" "round_prefix env keep url d1 st (us_dir s)"
    unfolding dir_inv_def by blast
  with call(3) have pre: "round_prefix env keep url d1 st' d" by (auto intro: more)
  with d1(1) have "serial keep url d0 d" by (rule cut)
  with d1(1) pre show ?case by (auto simp: dir_inv_def dest: sole split: if_splits)
next
  case (finish s p env st res d)
  have sole: "q = p" if "us_procs s q = Busy env' st''" for q env' st''
    using sole_worker [OF lock_inv_run [OF finish(1)], of p q] finish(2) that by simp
  from finish(2,4) obtain d1 where d1: "serial keep url d0 d1" "round_prefix env keep url d1 st (us_dir s)"
    unfolding dir_inv_def by blast
  have "process env keep url d1 = Ret (res, d)"
    using round_prefix_rest [OF d1(2)] finish(3) by (simp add: round_rest.simps [of env keep url st])
  with d1(1) have "serial keep url d0 d" by (rule whole)
  then show ?case by (auto simp: dir_inv_def dest: sole split: if_splits)
next
  case (kill s p)
  then show ?case by (auto simp: dir_inv_def split: if_splits)
qed

section \<open>Properties\<close>

text \<open>C15: However many updaters are started in a directory, whatever fails when they start and whenever they are
  killed, at most one of them works on the lists at any time, and it holds the lock.\<close>

theorem one_updater_works:
  assumes "updaters_run keep url d0 s" and "working (us_procs s p)"
  shows "us_holder s = Some p \<and> {q. working (us_procs s q)} = {p}"
  using lock_inv_run [OF assms(1)] sole_worker assms(2) unfolding lock_inv_def by blast

text \<open>C14: The calls of several updaters never mix: every state of the directory under any interleaving of any number
  of updaters is one that a single updater reaches by whole rounds and by rounds cut off when it was killed.\<close>

theorem updaters_serial:
  assumes "updaters_run keep url d0 s"
  shows "serial keep url d0 (us_dir s)"
  using dir_inv_run [OF assms] by (simp add: dir_inv_def)

lemma example_updaters:
  "updaters_run 3 [] example_dir
     \<lparr>us_holder = Some 0, us_procs = (\<lambda>_. Booting)(0 := Busy example_upd_env SWriteBlack, 1 := Exited),
      us_dir = snd (writeWhitelist example_upd_env example_dir)\<rparr>"
proof -
  let ?run = "updaters_run 3 [] example_dir"
  have "?run (boot_step ''/l'' None None 0 \<lparr>us_holder = None, us_procs = (\<lambda>_. Booting), us_dir = example_dir\<rparr>)"
    by (intro step_intros) simp
  then have "?run \<lparr>us_holder = Some 0, us_procs = (\<lambda>_. Booting)(0 := Asleep), us_dir = example_dir\<rparr>"
    by (simp add: boot_step_def updater_boot_def TryLock_def)
  from boot [OF this, of 1 "''/l''" None None]
  have "?run \<lparr>us_holder = Some 0, us_procs = (\<lambda>_. Booting)(0 := Asleep, 1 := Exited), us_dir = example_dir\<rparr>"
    by (simp add: boot_step_def updater_boot_def TryLock_def)
  from wake [OF this, of 0 example_upd_env]
  have b: "?run \<lparr>us_holder = Some 0, us_procs = (\<lambda>_. Booting)(0 := Busy example_upd_env SWriteWhite, 1 := Exited), us_dir = example_dir\<rparr>"
    by (simp add: fun_upd_twist)
  obtain d' where "writeWhitelist example_upd_env example_dir = (None, d')"
    using writeWhitelist_quiet [OF example_quiet example_fetch(1)] by blast
  with call [OF b, of 0 example_upd_env SWriteWhite SWriteBlack d'] show ?thesis by (simp add: then_next_def fun_upd_twist)
qed

theorem one_updater_works_witness:
  "\<exists>s. updaters_run 3 [] example_dir s \<and> us_procs s 1 = Exited \<and> us_holder s = Some 0 \<and> {q. working (us_procs s q)} = {0}"
  using one_updater_works [OF example_updaters, of 0] example_updaters
  by (intro exI conjI) (assumption, simp_all)

theorem updaters_serial_witness:
  "serial 3 [] example_dir (snd (writeWhitelist example_upd_env example_dir))"
  using updaters_serial [OF example_updaters] by simp

end
