(* ===== verification/ServerLog.thy ===== *)
theory ServerLog
  imports DohServer
begin

text \<open>
  The server's handlers together with the tracker: requests are answered, the names that they save go through the
  tracker's channel, and the tracker's goroutine writes the log, in any order. Clock, random numbers, lists and
  resolvers may differ from request to request.
\<close>

section \<open>Handlers and tracker\<close>

record handled =
  hd_request :: http_request
  hd_saved :: "string option"
  hd_time :: int

inductive service_run :: "(int \<Rightarrow> string) \<Rightarrow> Tracker \<Rightarrow> handled list \<Rightarrow> Tracker \<Rightarrow> bool"
  for fmt_log :: "int \<Rightarrow> string" and t0 :: Tracker where
  up: "service_run fmt_log t0 [] t0"
| untracked: "service_run fmt_log t0 hs t \<Longrightarrow> handlerFunc env s at r new_writer = Ret (w, None) \<Longrightarrow>
     service_run fmt_log t0 (hs @ [\<lparr>hd_request = r, hd_saved = None, hd_time = now\<rparr>]) t"
| tracked: "service_run fmt_log t0 hs t \<Longrightarrow> handlerFunc env s at r new_writer = Ret (w, Some name) \<Longrightarrow>
     SaveDomain name now t = Some t' \<Longrightarrow>
     service_run fmt_log t0 (hs @ [\<lparr>hd_request = r, hd_saved = Some name, hd_time = now\<rparr>]) t'"
| tick: "service_run fmt_log t0 hs t \<Longrightarrow> service_run fmt_log t0 hs (tick_case None t)"
| entry: "service_run fmt_log t0 hs t \<Longrightarrow> entry_case fmt_log None t = Some t' \<Longrightarrow> service_run fmt_log t0 hs t'"

declare service_run.intros [step_intros]

text \<open>The entries that a sequence of requests saves.\<close>

definition entry_of :: "handled \<Rightarrow> trackerEntry list" where
  "entry_of h = (case hd_saved h of None \<Rightarrow> [] | Some name \<Rightarrow> [\<lparr>te_domain = name, te_date = hd_time h\<rparr>])"

definition entries_of :: "handled list \<Rightarrow> trackerEntry list" where
  "entries_of hs = concat (map entry_of hs)"

lemma entries_of_snoc [simp]: "entries_of (hs @ [h]) = entries_of hs @ entry_of h" "entries_of [] = []"
  by (simp_all add: entries_of_def)

text \<open>A run of the service is a run of the tracker with these entries.\<close>

lemma service_tracker: "service_run fmt_log t0 hs t \<Longrightarrow> tracker_run fmt_log False t0 (entries_of hs) t"
proof (induction rule: service_run.induct)
  case (tracked hs t env s at r w name now t')
  then show ?case by (auto simp: entry_of_def intro: tracker_run.save)
qed (auto simp: entry_of_def intro: tracker_run.intros)

lemma service_dnt: "service_run fmt_log t0 hs t \<Longrightarrow> list_all (\<lambda>h. parse_dnt (hd_request h) \<longrightarrow> hd_saved h = None) hs"
  by (induction rule: service_run.induct) (auto dest: handler_saved)

lemma entries_of_filter:
  "list_all (\<lambda>h. parse_dnt (hd_request h) \<longrightarrow> hd_saved h = None) hs \<Longrightarrow>
     entries_of (filter (\<lambda>h. \<not> parse_dnt (hd_request h)) hs) = entries_of hs"
  by (induction hs) (auto simp: entries_of_def entry_of_def)

section \<open>Properties\<close>

text \<open>C10: The log of requests. However handlers and the tracker interleave, once the queue is empty the next tick leaves in the log
  file what was there before and then one line for each name that a handler saved, in the order of the
  requests, and requests with \<^verbatim>\<open>DNT: 1\<close> have no part in it: without them the log is the same.\<close>

theorem log_of_requests:
  assumes "NewTracker OpenAppend filepath = Inr t0" and "service_run fmt_log t0 hs t" and "trk_entries t = []"
  shows "trk_file (tick_case None t) =
    trk_file t0 @ log_lines fmt_log (entries_of (filter (\<lambda>h. \<not> parse_dnt (hd_request h)) hs)) \<and>
    entries_of (filter (\<lambda>h. parse_dnt (hd_request h)) hs) = []"
proof -
  note dnt = service_dnt [OF assms(2)]
  have "entries_of (filter (\<lambda>h. parse_dnt (hd_request h)) hs) = []"
    using dnt by (induction hs) (auto simp: entries_of_def entry_of_def)
  moreover have "trk_buf t0 = []" "trk_entries t0 = []" using assms(1) by (auto simp: NewTracker_def split: sum.splits)
  then have "trk_file (tick_case None t) = trk_file t0 @ log_lines fmt_log (entries_of hs)"
    using tracker_run_pending [OF service_tracker [OF assms(2)]] assms(3)
    by (simp add: pending_def tick_case_def flush_buf_def log_lines_def)
  ultimately show ?thesis using entries_of_filter [OF dnt] by simp
qed

lemma example_tracked:
  fixes t0 :: Tracker
  defines "s \<equiv> (NewServer example_config)\<lparr>srv_tracker := Some t0\<rparr>"
  shows "\<exists>w. handlerFunc wire_env s (\<lambda>_. s) wire_GET new_writer = Ret (w, Some ''a.example.'')"
proof -
  let ?fwd = "example_query\<lparr>msg_Id := 7, msg_Extra := [RR_OPT (new_OPT False) [new_subnet (family_of (net_IPv4 198 51 100 7))]]\<rparr>"
  let ?q = "\<lparr>q_Name = ''a.example.'', q_Qtype = 1, q_Qclass = 1\<rparr>"
  have fwd: "add_client_subnet wire_env wire_GET (example_query\<lparr>msg_Id := env_Id wire_env\<rparr>) = Ret (?fwd, True)"
    using wire_env_client
    by (simp add: add_client_subnet_def IsEdns0_def example_query_def new_Msg_def) (simp add: wire_env_def example_env_def)
  have x: "exchange wire_env (srv_conf s) 0 ?fwd (try_upstream wire_env (srv_conf s) 0) =
      (Some (?fwd\<lparr>msg_Answer := [example_RR], msg_Extra := []\<rparr>), None)"
    by (simp add: s_def exchange_def wire_env_def example_env_def NewServer_def example_config_def Let_def)
  have "rand_ok wire_env" using example_env_ok by (simp add: env_ok_def rand_ok_def wire_env_def)
  moreover have "config_ok (srv_conf s)" "srv_tracker s \<noteq> None" using example_config_ok by (simp_all add: s_def NewServer_def)
  moreover have "\<not> parse_dnt wire_GET" by (simp add: parse_dnt_def wire_GET_def example_GET_def)
  ultimately show ?thesis
    using handler_wire [OF wire_GET_parse, of example_query ?fwd True ?q s _ "\<lambda>_. s" "[5]", OF _ _ fwd _ _ _ x]
    by (auto simp: dnscrypt_probe_def wire_env_def example_env_def example_query_def new_Msg_def msg_typed_def)
qed

theorem log_of_requests_witness:
  "\<exists>t0 hs t. NewTracker (\<lambda>_. Inr ''old'') ''log'' = Inr t0 \<and> length hs = 1 \<and>
     service_run (\<lambda>_. ''d '') t0 hs t \<and> trk_file (tick_case None t) = ''oldd a.example.'' @ [CHR 0x0A]"
proof -
  let ?t0 = "\<lparr>trk_entries = [], trk_buf = [], trk_file = ''old''\<rparr>"
  let ?h = "\<lparr>hd_request = wire_GET, hd_saved = Some ''a.example.'', hd_time = 7\<rparr>"
  let ?e = "\<lparr>te_domain = ''a.example.'', te_date = 7\<rparr>"
  have n: "NewTracker (\<lambda>_. Inr ''old'') ''log'' = Inr ?t0" by (simp add: NewTracker_def)
  have sv: "SaveDomain ''a.example.'' 7 ?t0 = Some (?t0\<lparr>trk_entries := [?e]\<rparr>)"
    by (simp add: SaveDomain_def chan_send_def chan_capacity_def)
  from example_tracked obtain w where
    "handlerFunc wire_env ((NewServer example_config)\<lparr>srv_tracker := Some ?t0\<rparr>)
       (\<lambda>_. (NewServer example_config)\<lparr>srv_tracker := Some ?t0\<rparr>) wire_GET new_writer = Ret (w, Some ''a.example.'')" by blast
  from tracked [OF up this sv] have r: "service_run (\<lambda>_. ''d '') ?t0 [?h] (?t0\<lparr>trk_entries := [?e]\<rparr>)" by simp
  have e: "service_run (\<lambda>_. ''d '') ?t0 [?h] (?t0\<lparr>trk_buf := log_line (\<lambda>_. ''d '') ?e\<rparr>)"
    by (rule service_run.entry [OF r]) (simp add: entry_case_def chan_recv_def log_line_def flush_limit_def Let_def)
  have "\<not> parse_dnt wire_GET" by (simp add: parse_dnt_def wire_GET_def example_GET_def)
  then have "trk_file (tick_case None (?t0\<lparr>trk_buf := log_line (\<lambda>_. ''d '') ?e\<rparr>)) = ''oldd a.example.'' @ [CHR 0x0A]"
    using log_of_requests [OF n e] by (simp add: entries_of_def entry_of_def log_lines_def log_line_def)
  with n e show ?thesis by (intro exI [of _ ?t0] exI [of _ "[?h]"] exI) auto
qed

end
