(* ===== verification/ClientSession.thy ===== *)
theory ClientSession
  imports DohClient
begin

text \<open>
  \<^verbatim>\<open>doh-client\<close> over time: the queries that its servers handle one after the other, and the HTTP transport that
  they share (\<^verbatim>\<open>client.go\<close>). A handler changes the client only by \<^verbatim>\<open>newHTTPClient\<close>, which runs under the client's
  mutex, so a session lists the queries in the order of these calls.
\<close>

section \<open>Sessions\<close>

text \<open>Each query comes with the environment in which it is handled and the server that received it.\<close>

type_synonym session = "(client_env \<times> dns_Server \<times> Msg) list"

fun client_session :: "Client \<Rightarrow> session \<Rightarrow> (dns_out list \<times> Client) list go" where
  "client_session c [] = Ret []"
| "client_session c ((env, srv, r) # qs) =
     go_bind (serve_dns env c srv r) (\<lambda>(outs, c1).
     go_bind (client_session c1 qs) (\<lambda>trace. Ret ((outs, c1) # trace)))"

text \<open>The moments at which the HTTP client was created, from the states of the client.\<close>

definition creations :: "Client list \<Rightarrow> int list" where
  "creations cs = remdups_adj (map (\<lambda>c. the (cl_httpClientLastCreate c)) cs)"

definition clocks_ok :: "client_env \<Rightarrow> bool" where
  "clocks_ok env \<longleftrightarrow> ce_clock env 1 \<le> ce_clock env 2 \<and> ce_ConfigureTransport env = None"

definition session_ok :: "Client \<Rightarrow> session \<Rightarrow> bool" where
  "session_ok c = list_all (\<lambda>(env, srv, r).
     clocks_ok env \<and> client_rand_ok env \<and> tc_size env \<and> msg_typed r \<and> srv \<in> set (client_servers c))"

section \<open>What a handler does to the client\<close>

definition renews :: "client_env \<Rightarrow> Client \<Rightarrow> Client \<Rightarrow> bool" where
  "renews env c c' \<longleftrightarrow> c' = c \<or> newHTTPClient env c = (None, c')"

lemma renews_refl [simp]: "renews env c c"
  by (simp add: renews_def)

lemma send_request_renews: "send_request env c out reply mk = Ret (outs, c', req) \<Longrightarrow> renews env c c'"
  by (auto simp: send_request_def renews_def split: sum.splits prod.splits option.splits)

lemma go_bind_RetE: "go_bind m f = Ret y \<Longrightarrow> (\<And>x. m = Ret x \<Longrightarrow> f x = Ret y \<Longrightarrow> P) \<Longrightarrow> P"
  by (auto simp: go_bind_eq_Ret)

lemma generateRequestGoogle_renews: "generateRequestGoogle env c r = Ret (outs, c', req) \<Longrightarrow> renews env c c'"
  by (auto simp: generateRequestGoogle_def Let_def elim!: go_bind_RetE split: if_splits option.splits
      dest: send_request_renews)

lemma generateRequestIETF_renews: "generateRequestIETF env c r = Ret (outs, c', req) \<Longrightarrow> renews env c c'"
  by (auto simp: generateRequestIETF_def Let_def elim!: go_bind_RetE
      split: if_split_asm option.split_asm sum.split_asm prod.split_asm) (erule send_request_renews)

lemma client_handlerFunc_renews: "client_handlerFunc env c r isTCP = Ret (outs, c') \<Longrightarrow> renews env c c'"
  by (auto simp: client_handlerFunc_def Let_def go_bind_eq_Ret split: if_splits option.splits
      dest: generateRequestGoogle_renews generateRequestIETF_renews)

lemma serve_dns_renews: "serve_dns env c srv r = Ret (outs, c') \<Longrightarrow> renews env c c'"
  by (auto simp: serve_dns_def udpHandlerFunc_def tcpHandlerFunc_def split: dns_handler.splits
      dest: client_handlerFunc_renews)

lemma newHTTPClient_cases:
  assumes "clocks_ok env"
  obtains (recent) t where "newHTTPClient env c = (None, c)" "cl_httpClientLastCreate c = Some t"
      "time_Sub (ce_clock env 1) t < timeout_duration (cl_conf c)"
    | (create) c' transport where "newHTTPClient env c = (None, c')" "client_params c' = client_params c"
      "transport = new_Transport (cl_conf c) (new_Dialer (cl_conf c) (cl_bootstrapResolver c))"
      "cl_httpTransport c' = Some transport" "cl_httpClient c' = Some \<lparr>hc_Transport = transport, hc_Jar = cl_cookieJar c\<rparr>"
      "cl_httpClientLastCreate c' = Some (ce_clock env 2)"
      "cl_idleClosed c' = (case cl_httpTransport c of None \<Rightarrow> [] | Some old \<Rightarrow> [old]) @ cl_idleClosed c"
      "\<forall>t. cl_httpClientLastCreate c = Some t \<longrightarrow> timeout_duration (cl_conf c) \<le> time_Sub (ce_clock env 1) t"
proof (cases "case cl_httpClientLastCreate c of None \<Rightarrow> False
    | Some t \<Rightarrow> time_Sub (ce_clock env 1) t < timeout_duration (cl_conf c)")
  case True
  then obtain t where "cl_httpClientLastCreate c = Some t" "time_Sub (ce_clock env 1) t < timeout_duration (cl_conf c)"
    by (auto split: option.splits)
  then show thesis using recent by (simp add: newHTTPClient_def)
next
  case False
  define c' where "c' = snd (newHTTPClient env c)"
  have n: "newHTTPClient env c = (None, c')"
    using assms False by (simp add: c'_def newHTTPClient_def Let_def clocks_ok_def)
  show thesis
  proof (rule create [OF n _ refl])
    show "client_params c' = client_params c" by (simp add: c'_def)
    show "\<forall>t. cl_httpClientLastCreate c = Some t \<longrightarrow> timeout_duration (cl_conf c) \<le> time_Sub (ce_clock env 1) t"
      using False by (auto simp: not_less)
  qed (use assms False in \<open>simp_all add: c'_def newHTTPClient_def Let_def clocks_ok_def split: option.split\<close>)
qed

section \<open>The invariant of the connection\<close>

text \<open>
  The HTTP client is there, it uses the current transport and the cookie jar, the transport is the one that the
  configuration asks for, and so were all transports before it, on which the idle connections were closed.
\<close>

definition conn_ok :: "Client \<Rightarrow> bool" where
  "conn_ok c \<longleftrightarrow>
     (let transport = new_Transport (cl_conf c) (new_Dialer (cl_conf c) (cl_bootstrapResolver c)) in
      cl_httpTransport c = Some transport \<and>
      cl_httpClient c = Some \<lparr>hc_Transport = transport, hc_Jar = cl_cookieJar c\<rparr> \<and>
      cl_httpClientLastCreate c \<noteq> None \<and> list_all (\<lambda>old. old = transport) (cl_idleClosed c))"

lemma client_params_eqD:
  "client_params c' = client_params c \<Longrightarrow> cl_conf c' = cl_conf c \<and> cl_bootstrapResolver c' = cl_bootstrapResolver c \<and>
     cl_cookieJar c' = cl_cookieJar c \<and> client_servers c' = client_servers c"
  by (simp add: client_params_def)

lemma conn_ok_new:
  assumes "NewClient env conf = Inr c" and "clocks_ok env"
  shows "conn_ok c" "cl_httpClientLastCreate c = Some (ce_clock env 2)" "cl_idleClosed c = []"
proof -
  obtain b rs where n: "newHTTPClient env (bare_Client conf b rs) = (None, c)" using assms(1) by (rule NewClient_obtain)
  from assms(2) have "conn_ok c \<and> cl_httpClientLastCreate c = Some (ce_clock env 2) \<and> cl_idleClosed c = []"
  proof (cases rule: newHTTPClient_cases [where c = "bare_Client conf b rs"])
    case (recent t)
    then show ?thesis by (simp add: bare_Client_def)
  next
    case (create c' transport)
    then show ?thesis using n client_params_eqD [OF create(2)] by (simp add: conn_ok_def Let_def bare_Client_def)
  qed
  then show "conn_ok c" "cl_httpClientLastCreate c = Some (ce_clock env 2)" "cl_idleClosed c = []" by simp_all
qed

lemma renews_conn [inv_rules]:
  assumes "clocks_ok env" and "conn_ok c" and "renews env c c'"
  shows "conn_ok c'" "client_params c' = client_params c"
proof -
  from assms(1) have "conn_ok c' \<and> client_params c' = client_params c"
  proof (cases rule: newHTTPClient_cases [where c = c])
    case (recent t)
    then show ?thesis using assms(2,3) by (auto simp: renews_def)
  next
    case (create c1 transport)
    then have "conn_ok c1" using client_params_eqD [OF create(2)] assms(2) by (simp add: conn_ok_def Let_def)
    then show ?thesis using create(1,2) assms(2,3) by (auto simp: renews_def)
  qed
  then show "conn_ok c'" "client_params c' = client_params c" by simp_all
qed

section \<open>The spacing of renewals\<close>

lemma time_Sub_ge: "d \<le> time_Sub t u \<Longrightarrow> minDuration < d \<Longrightarrow> u + d \<le> t"
  by (auto simp: time_Sub_def max_def min_def split: if_splits)

lemma timeout_exact: "cc_Timeout conf < 2 ^ 33 \<Longrightarrow> timeout_duration conf = int (unat (cc_Timeout conf)) * Second"
proof -
  assume a: "cc_Timeout conf < 2 ^ 33"
  then have u: "uint (cc_Timeout conf) < 2 ^ 33" by (simp add: word_less_def)
  have "uint (cc_Timeout conf * word_of_int Second) = uint (cc_Timeout conf) * Second"
    using u by (simp add: uint_word_ariths uint_word_of_int Second_def mod_pos_pos_trivial)
  moreover have "uint (cc_Timeout conf) * Second < 2 ^ 63" using u by (simp add: Second_def)
  moreover have "0 \<le> uint (cc_Timeout conf) * Second" by (simp add: Second_def)
  then have "- (2 ^ 63) \<le> uint (cc_Timeout conf) * Second" by (rule order_trans [rotated]) simp
  ultimately show ?thesis
    by (simp add: timeout_duration_def sint_uint signed_take_bit_int_eq_self)
qed

lemma creations_Cons:
  "creations (c # c' # cs) =
     (if the (cl_httpClientLastCreate c) = the (cl_httpClientLastCreate c') then creations (c' # cs)
      else the (cl_httpClientLastCreate c) # creations (c' # cs))"
  by (simp add: creations_def)

lemma hd_creations: "creations (c # cs) \<noteq> [] \<and> hd (creations (c # cs)) = the (cl_httpClientLastCreate c)"
  by (simp add: creations_def)

text \<open>One renewal: either nothing changes, or a transport is closed and the moment moves by the timeout at least.\<close>

lemma renews_spaced:
  assumes "clocks_ok env" and "conn_ok c" and "renews env c c'" and "cc_Timeout (cl_conf c) < 2 ^ 33"
  shows "c' = c \<or>
    the (cl_httpClientLastCreate c) + int (unat (cc_Timeout (cl_conf c))) * Second \<le> the (cl_httpClientLastCreate c') \<and>
    length (cl_idleClosed c') = length (cl_idleClosed c) + 1"
  using assms(1)
proof (cases rule: newHTTPClient_cases [where c = c])
  case (recent t)
  then show ?thesis using assms(3) by (auto simp: renews_def)
next
  case (create c1 transport)
  let ?d = "int (unat (cc_Timeout (cl_conf c))) * Second"
  obtain t where t: "cl_httpClientLastCreate c = Some t" using assms(2) by (auto simp: conn_ok_def Let_def)
  have "?d \<le> time_Sub (ce_clock env 1) t" using create(8) t timeout_exact [OF assms(4)] by simp
  moreover have "0 \<le> ?d" by (simp add: Second_def)
  then have "minDuration < ?d" by (simp add: minDuration_def)
  ultimately have "t + ?d \<le> ce_clock env 1" by (rule time_Sub_ge)
  then show ?thesis using assms(1-3) create t by (auto simp: renews_def clocks_ok_def conn_ok_def Let_def)
qed

section \<open>Sessions keep the invariant\<close>

lemma serve_dns_ok:
  assumes "client_config_ok (cl_conf c)" and "clocks_ok env" and "client_rand_ok env" and "msg_typed r" and "tc_size env"
  shows "\<exists>outs c'. serve_dns env c srv r = Ret (outs, c') \<and> renews env c c'"
proof -
  have "ce_ConfigureTransport env = None" using assms(2) by (simp add: clocks_ok_def)
  then obtain outs c' where "client_handlerFunc env c r (ds_Handler srv = TcpHandler) = Ret (outs, c')"
    using client_handler_ok [OF assms(4,3) _ assms(1,5)] by blast
  then have "serve_dns env c srv r = Ret (outs, c')"
    by (cases "ds_Handler srv") (simp_all add: serve_dns_def udpHandlerFunc_def tcpHandlerFunc_def)
  then show ?thesis using serve_dns_renews by blast
qed

lemma session_runs:
  assumes "session_ok c qs" and "client_config_ok (cl_conf c)" and "conn_ok c"
  shows "\<exists>trace. client_session c qs = Ret trace \<and> length trace = length qs \<and>
    (\<forall>c'\<in>set (c # map snd trace). conn_ok c' \<and> client_params c' = client_params c)"
  using assms
proof (induction qs arbitrary: c)
  case Nil
  then show ?case by simp
next
  case (Cons q qs)
  obtain env srv r where q: "q = (env, srv, r)" by (cases q)
  have e: "clocks_ok env" "client_rand_ok env" "msg_typed r" "tc_size env" using Cons.prems(1) by (simp_all add: session_ok_def q)
  obtain outs c1 where s: "serve_dns env c srv r = Ret (outs, c1)" "renews env c c1"
    using serve_dns_ok [OF Cons.prems(2) e] by blast
  note inv = renews_conn [OF e(1) Cons.prems(3) s(2)]
  have "session_ok c1 qs" "client_config_ok (cl_conf c1)"
    using Cons.prems(1,2) client_params_eqD [OF inv(2)] by (simp_all add: session_ok_def)
  from Cons.IH [OF this inv(1)] show ?case using s(1) inv Cons.prems(3) by (auto simp: q)
qed

lemma session_spaced:
  assumes "session_ok c qs" and "client_config_ok (cl_conf c)" and "conn_ok c" and "cc_Timeout (cl_conf c) < 2 ^ 33"
    and "client_session c qs = Ret trace"
  shows "successively (\<lambda>s t. s + int (unat (cc_Timeout (cl_conf c))) * Second \<le> t) (creations (c # map snd trace)) \<and>
    length (cl_idleClosed (last (c # map snd trace))) + 1 = length (cl_idleClosed c) + length (creations (c # map snd trace))"
  using assms
proof (induction qs arbitrary: c trace)
  case Nil
  then show ?case by (simp add: creations_def)
next
  case (Cons q qs)
  obtain env srv r where q: "q = (env, srv, r)" by (cases q)
  have e: "clocks_ok env" using Cons.prems(1) by (simp add: session_ok_def q)
  obtain outs c1 tr where s: "serve_dns env c srv r = Ret (outs, c1)" "client_session c1 qs = Ret tr"
    "trace = (outs, c1) # tr"
    using Cons.prems(5) by (auto simp: q go_bind_eq_Ret)
  note rn = serve_dns_renews [OF s(1)]
  note inv = renews_conn [OF e Cons.prems(3) rn]
  note par = client_params_eqD [OF inv(2)]
  have "session_ok c1 qs" "client_config_ok (cl_conf c1)" "cc_Timeout (cl_conf c1) < 2 ^ 33"
    using Cons.prems(1,2,4) par by (simp_all add: session_ok_def)
  note IH = Cons.IH [OF this(1,2) inv(1) this(3) s(2)]
  have "0 < int (unat (cc_Timeout (cl_conf c))) * Second"
    using Cons.prems(2) by (simp add: client_config_ok_def Second_def less_le uint_0_iff)
  then show ?case
    using renews_spaced [OF e Cons.prems(3) rn Cons.prems(4)] IH par hd_creations [of c1 "map snd tr"]
    by (auto simp: s(3) creations_Cons successively_Cons)
qed

lemma client_main_obtain:
  assumes "client_main env DecodeFile path verbose = Inr c" and "clocks_ok env"
  shows "client_config_ok (cl_conf c)" "conn_ok c" "cl_idleClosed c = []" "NewClient env (cl_conf c) = Inr c"
proof -
  obtain conf where l: "client_loadConfig (ce_lib env) DecodeFile path = Inr conf"
    and n: "NewClient env (if verbose then conf\<lparr>cc_Verbose := True\<rparr> else conf) = Inr c"
    using assms(1) by (auto simp: client_main_def split: sum.splits)
  show "client_config_ok (cl_conf c)"
    using client_loadConfig_ok [OF l] NewClient_conf [OF n] by (simp add: client_config_ok_def)
  show "conn_ok c" "cl_idleClosed c = []" using conn_ok_new [OF n assms(2)] by simp_all
  show "NewClient env (cl_conf c) = Inr c" using n NewClient_conf [OF n] by simp
qed

section \<open>Where connections go\<close>

lemma new_Transport_dials:
  "tr_DialContext (new_Transport conf d) network address =
     (d, if cc_NoIPv6 conf \<and> strings_HasPrefix network ''tcp'' then ''tcp4'' else network, address)"
  by (simp add: new_Transport_def Let_def)

text \<open>The address that a configured bootstrap server has for a given resolver of addresses.\<close>

definition bootstrap_address :: "(string \<Rightarrow> string + string) \<Rightarrow> string \<Rightarrow> string \<Rightarrow> bool" where
  "bootstrap_address rs b a \<longleftrightarrow> rs b = Inr a \<or> (\<exists>err. rs b = Inl err) \<and> rs (''['' @ b @ '']:53'') = Inr a"

lemma resolve_bootstrap_Inr: "resolve_bootstrap rs bs = Inr as \<Longrightarrow> list_all2 (bootstrap_address rs) bs as"
  by (induction bs arbitrary: as) (auto simp: bootstrap_address_def split: sum.splits)

lemma bootstrap_Dial_ok:
  assumes "resolve_bootstrap rs bs = Inr servers" and "bs \<noteq> []" and "client_rand_ok env"
  shows "\<exists>b\<in>set bs. \<exists>a. bootstrap_address rs b a \<and> bootstrap_Dial env servers network address = Ret (network, a)"
proof -
  have l: "list_all2 (bootstrap_address rs) bs servers" using assms(1) by (rule resolve_bootstrap_Inr)
  then have "servers \<noteq> []" using assms(2) by auto
  then obtain a where a: "a \<in> set servers" "pick env 2 servers = Ret a" using pick_ok [OF assms(3)] by blast
  then obtain b where "b \<in> set bs" "bootstrap_address rs b a"
    using l by (metis in_set_conv_nth list_all2_conv_all_nth)
  then show ?thesis using a by (auto simp: bootstrap_Dial_def)
qed

lemma NewClient_params:
  assumes "NewClient env conf = Inr c"
  obtains b rs where
    "client_params c = (conf, b, map udp_server (cc_Listen conf) @ map tcp_server (cc_Listen conf), rs, \<not> cc_NoCookies conf)"
    "if cc_Bootstrap conf = [] then (b, rs) = ([], DefaultResolver)
     else resolve_bootstrap (ce_ResolveUDPAddr env) (cc_Bootstrap conf) = Inr b \<and> rs = DialResolver b"
  using assms
proof (rule NewClient_obtain)
  fix b rs
  assume n: "newHTTPClient env (bare_Client conf b rs) = (None, c)"
    and k: "if cc_Bootstrap conf = [] then (b, rs) = ([], DefaultResolver)
       else resolve_bootstrap (ce_ResolveUDPAddr env) (cc_Bootstrap conf) = Inr b \<and> rs = DialResolver b"
  from newHTTPClient_params [of env "bare_Client conf b rs"] n k show thesis
    by (intro that [of b rs]) (simp_all add: client_params_def bare_Client_def client_servers_def)
qed

text \<open>
  A transport dials as configured: over IPv4 only when IPv6 is off, and host names are looked up at the configured
  bootstrap servers, or by the system's resolver when there are none.
\<close>

definition dials_as_configured :: "(string \<Rightarrow> string + string) \<Rightarrow> client_config \<Rightarrow> http_Transport \<Rightarrow> bool" where
  "dials_as_configured rs conf t \<longleftrightarrow> (\<forall>network address. \<exists>d.
     tr_DialContext t network address =
       (d, if cc_NoIPv6 conf \<and> strings_HasPrefix network ''tcp'' then ''tcp4'' else network, address) \<and>
     dl_Timeout d = timeout_duration conf \<and>
     (case dl_Resolver d of
        DefaultResolver \<Rightarrow> cc_Bootstrap conf = []
      | DialResolver servers \<Rightarrow>
          (\<forall>env network' address'. client_rand_ok env \<longrightarrow>
             (\<exists>b\<in>set (cc_Bootstrap conf). \<exists>a. bootstrap_address rs b a \<and>
                bootstrap_Dial env servers network' address' = Ret (network', a)))))"

lemma new_Transport_as_configured:
  assumes "NewClient env conf = Inr c"
  shows "dials_as_configured (ce_ResolveUDPAddr env) conf (new_Transport conf (new_Dialer conf (cl_bootstrapResolver c)))"
  using assms
proof (rule NewClient_params)
  fix b rs
  assume p: "client_params c = (conf, b, map udp_server (cc_Listen conf) @ map tcp_server (cc_Listen conf), rs, \<not> cc_NoCookies conf)"
    and k: "if cc_Bootstrap conf = [] then (b, rs) = ([], DefaultResolver)
       else resolve_bootstrap (ce_ResolveUDPAddr env) (cc_Bootstrap conf) = Inr b \<and> rs = DialResolver b"
  have "cl_bootstrapResolver c = rs" using p by (simp add: client_params_def)
  then show ?thesis using k bootstrap_Dial_ok
    by (auto simp: dials_as_configured_def new_Transport_dials new_Dialer_def split: if_splits)
qed

section \<open>Properties\<close>

text \<open>C35: However often upstream requests fail, the queries of a session are all handled, HTTP clients are created
  at least the configured timeout apart (for timeouts below two to the 33 seconds, where the duration does not
  overflow), and the idle connections of every transport but the current one have been closed.\<close>

theorem transport_renewals_spaced:
  assumes "client_main env DecodeFile path verbose = Inr c" and "clocks_ok env" and "session_ok c qs"
    and "cc_Timeout (cl_conf c) < 2 ^ 33"
  shows "\<exists>trace. client_session c qs = Ret trace \<and> length trace = length qs \<and>
    (let cs = c # map snd trace in
     successively (\<lambda>s t. s + int (unat (cc_Timeout (cl_conf c))) * Second \<le> t) (creations cs) \<and>
     length (cl_idleClosed (last cs)) + 1 = length (creations cs))"
proof -
  note c = client_main_obtain [OF assms(1,2)]
  obtain trace where "client_session c qs = Ret trace" "length trace = length qs"
    using session_runs [OF assms(3) c(1,2)] by blast
  then show ?thesis using session_spaced [OF assms(3) c(1,2) assms(4)] c(3) by (auto simp: Let_def)
qed

text \<open>A client with a bootstrap server and without IPv6, whose upstream fails at once, after 5 and after 11 seconds.\<close>

definition failing_env :: "int \<Rightarrow> client_env" where
  "failing_env now = example_client_env\<lparr>ce_clock := (\<lambda>_. now), ce_Do := (\<lambda>_. Inl ''refused'')\<rparr>"

definition ipv4_config :: client_config where
  "ipv4_config = example_client_config\<lparr>cc_Bootstrap := [''192.0.2.53:53''], cc_NoIPv6 := True\<rparr>"

definition failing_session :: session where
  "failing_session = map (\<lambda>now. (failing_env (now * Second), udp_server ''127.0.0.1:53'',
     new_Msg\<lparr>msg_Question := [\<lparr>q_Name = ''a.'', q_Qtype = 1, q_Qclass = 1\<rparr>]\<rparr>)) [0, 5, 11]"

lemma failing_session_starts:
  obtains c where "client_main (failing_env 0) (\<lambda>_. Inr (ipv4_config, [])) ''conf'' False = Inr c"
    "clocks_ok (failing_env 0)" "session_ok c failing_session" "cl_conf c = client_defaults ipv4_config"
proof -
  have m: "client_main (failing_env 0) (\<lambda>_. Inr (ipv4_config, [])) ''conf'' False =
      NewClient (failing_env 0) (client_defaults ipv4_config)"
    by (simp add: client_main_def client_loadConfig_def)
  obtain c where c: "NewClient (failing_env 0) (client_defaults ipv4_config) = Inr c"
    by (simp add: NewClient_def bare_Client_def newHTTPClient_def failing_env_def example_client_env_def
        client_defaults_def ipv4_config_def example_client_config_def Let_def)
  have "udp_server ''127.0.0.1:53'' \<in> set (client_servers c)"
    using c by (rule NewClient_params)
      (auto simp: client_params_def client_defaults_def ipv4_config_def example_client_config_def)
  then have "session_ok c failing_session"
    by (simp add: session_ok_def failing_session_def clocks_ok_def failing_env_def example_client_env_def
        client_rand_ok_def tc_size_def msg_typed_def new_Msg_def)
  then show thesis
    using that m c NewClient_conf [OF c] by (simp add: clocks_ok_def failing_env_def example_client_env_def)
qed

theorem transport_renewals_spaced_witness:
  "\<exists>c trace. client_main (failing_env 0) (\<lambda>_. Inr (ipv4_config, [])) ''conf'' False = Inr c \<and>
     client_session c failing_session = Ret trace \<and> length trace = 3 \<and>
     successively (\<lambda>s t. s + 10 * Second \<le> t) (creations (c # map snd trace))"
proof -
  obtain c where c: "client_main (failing_env 0) (\<lambda>_. Inr (ipv4_config, [])) ''conf'' False = Inr c"
    "clocks_ok (failing_env 0)" "session_ok c failing_session" "cl_conf c = client_defaults ipv4_config"
    by (rule failing_session_starts)
  have "cc_Timeout (cl_conf c) = 10" by (simp add: c(4) client_defaults_def ipv4_config_def example_client_config_def)
  then show ?thesis using transport_renewals_spaced [OF c(1-3)] c(1) by (auto simp: Let_def failing_session_def)
qed

text \<open>C34: In every state of a session the HTTP client uses the current transport, with cookies unless they are
  switched off, and the transport dials as configured: with IPv6 switched off every TCP connection is made over
  IPv4, and host names of upstreams are looked up at one of the configured bootstrap servers, at the address that
  its entry resolved to at the start, or by the system's resolver if there are none.\<close>

theorem client_connections:
  assumes "client_main env DecodeFile path verbose = Inr c" and "clocks_ok env" and "session_ok c qs"
  shows "\<exists>trace. client_session c qs = Ret trace \<and>
    (\<forall>c'\<in>set (c # map snd trace). \<exists>t. cl_httpTransport c' = Some t \<and>
       cl_httpClient c' = Some \<lparr>hc_Transport = t, hc_Jar = (\<not> cc_NoCookies (cl_conf c))\<rparr> \<and>
       dials_as_configured (ce_ResolveUDPAddr env) (cl_conf c) t)"
proof -
  note c = client_main_obtain [OF assms(1,2)]
  obtain trace where tr: "client_session c qs = Ret trace"
    "\<forall>c'\<in>set (c # map snd trace). conn_ok c' \<and> client_params c' = client_params c"
    using session_runs [OF assms(3) c(1,2)] by blast
  have jar: "cl_cookieJar c = (\<not> cc_NoCookies (cl_conf c))"
    using c(4) by (rule NewClient_params) (simp add: client_params_def)
  have "cl_httpTransport c' = Some (new_Transport (cl_conf c) (new_Dialer (cl_conf c) (cl_bootstrapResolver c))) \<and>
      cl_httpClient c' = Some \<lparr>hc_Transport = new_Transport (cl_conf c) (new_Dialer (cl_conf c) (cl_bootstrapResolver c)),
        hc_Jar = (\<not> cc_NoCookies (cl_conf c))\<rparr>" if "c' \<in> set (c # map snd trace)" for c'
    using tr(2) that client_params_eqD [of c' c] jar by (auto simp: conn_ok_def Let_def)
  then show ?thesis using tr(1) new_Transport_as_configured [OF c(4)] by blast
qed

theorem client_connections_witness:
  "\<exists>c trace c' t. client_main (failing_env 0) (\<lambda>_. Inr (ipv4_config, [])) ''conf'' False = Inr c \<and>
     client_session c failing_session = Ret trace \<and> c' = snd (last trace) \<and> cl_httpTransport c' = Some t \<and>
     fst (snd (tr_DialContext t ''tcp'' ''dns.google.com:443'')) = ''tcp4''"
proof -
  obtain c where c: "client_main (failing_env 0) (\<lambda>_. Inr (ipv4_config, [])) ''conf'' False = Inr c"
    "clocks_ok (failing_env 0)" "session_ok c failing_session" "cl_conf c = client_defaults ipv4_config"
    by (rule failing_session_starts)
  obtain trace where tr: "client_session c failing_session = Ret trace"
    "\<forall>c'\<in>set (c # map snd trace). \<exists>t. cl_httpTransport c' = Some t \<and>
       cl_httpClient c' = Some \<lparr>hc_Transport = t, hc_Jar = (\<not> cc_NoCookies (cl_conf c))\<rparr> \<and>
       dials_as_configured (ce_ResolveUDPAddr (failing_env 0)) (cl_conf c) t"
    using client_connections [OF c(1-3)] by blast
  have "trace \<noteq> []" using tr(1) by (auto simp: failing_session_def go_bind_eq_Ret)
  then have "snd (last trace) \<in> set (c # map snd trace)" by simp
  then obtain t where t: "cl_httpTransport (snd (last trace)) = Some t"
    "dials_as_configured (ce_ResolveUDPAddr (failing_env 0)) (cl_conf c) t" using tr(2) by blast
  have "cc_NoIPv6 (cl_conf c)" by (simp add: c(4) client_defaults_def ipv4_config_def)
  moreover obtain d where "tr_DialContext t ''tcp'' ''dns.google.com:443'' =
      (d, if cc_NoIPv6 (cl_conf c) \<and> strings_HasPrefix ''tcp'' ''tcp'' then ''tcp4'' else ''tcp'', ''dns.google.com:443'')"
    using t(2) unfolding dials_as_configured_def by blast
  ultimately have "fst (snd (tr_DialContext t ''tcp'' ''dns.google.com:443'')) = ''tcp4''"
    by (simp add: strings_HasPrefix_def)
  then show ?thesis using c(1) tr(1) t(1) by blast
qed

end
