(* ===== verification/Spec2Isabelle.thy ===== *)
theory Spec2Isabelle
  imports SampleClient JsonComposition UpdaterMain ServerLog ClientSession
begin

text \<open>
  \<^bold>\<open>Verification of quic-dns\<close>

  The program resolves DNS names over HTTP. A stub resolver asks \<^verbatim>\<open>doh-client\<close>, which sends the query to a
  \<^verbatim>\<open>doh-server\<close> in one of two formats: Google's JSON format, or DNS messages in wire format (the IETF
  format). The server asks an ordinary resolver, filters the answer against lists of domains, and
  answers in either format. \<^verbatim>\<open>json-dns\<close> converts between DNS messages and JSON for both. \<^verbatim>\<open>lists-updater\<close>
  downloads the lists into a directory that the server reads, and tells the server to read them again.
  \<^verbatim>\<open>sample-client\<close> sends four requests to a server.

  \<^bold>\<open>Theories\<close>

  Each theory of a component defines its state as records, its operations as functions in the order of the
  code, and then proves lemmas and properties about them.

  \<^item> \<open>Prelude\<close>: machine integers, the result type \<open>go\<close> of a call that may panic, generic lemmas, and the
    interface \<open>wire_codec\<close> of an encoder and a decoder.
  \<^item> \<open>GoStrings\<close>, \<open>GoNet\<close>, \<open>GoIPText\<close>, \<open>GoTime\<close>, \<open>GoIO\<close>, \<open>GoBase64\<close>, \<open>GoUrl\<close>, \<open>GoUrlParse\<close>, \<open>Http\<close>: what the program uses of Go's
    standard library, as of Go 1.13 where releases differ (\<^verbatim>\<open>url.Parse\<close>, and semicolons in a query).
  \<^item> \<open>DnsMsg\<close>: messages, records, names and the client-subnet option of the vendored \<^verbatim>\<open>miekg/dns\<close>.
  \<^item> \<open>GlobalIP\<close>: \<^verbatim>\<open>json-dns/globalip.go\<close>. The interface \<open>cidr_nets\<close> is interpreted on its two tables.
  \<^item> \<open>JsonDns\<close>: \<^verbatim>\<open>json-dns/marshal.go\<close>, \<^verbatim>\<open>unmarshal.go\<close>, \<^verbatim>\<open>response.go\<close>, \<^verbatim>\<open>error.go\<close>.
  \<^item> \<open>ServerConfig\<close>: \<^verbatim>\<open>doh-server/config.go\<close>.
  \<^item> \<open>Tracker\<close>: \<^verbatim>\<open>doh-server/tracker.go\<close>, the channel and the goroutine behind it as the step relation
    \<open>tracker_run\<close>. The channel is an instance of the interface \<open>bounded_channel\<close>.
  \<^item> \<open>Filtering\<close>: \<^verbatim>\<open>doh-server/filtering.go\<close>, with the step relation \<open>lists_run\<close> of reloads that interleave with each
    other, with changes of the files, and with requests.
  \<^item> \<open>DohServer\<close>: \<^verbatim>\<open>doh-server/server.go\<close>, \<^verbatim>\<open>google.go\<close>, \<^verbatim>\<open>ietf.go\<close>, \<^verbatim>\<open>main.go\<close>: \<open>handlerFunc\<close> is the whole handler, from the HTTP request to
    what is written and what the tracker gets; \<open>Start\<close> is the start of the server up to its waiting loop.
  \<^item> \<open>ServerLog\<close>: handlers and tracker together, as the step relation \<open>service_run\<close>.
  \<^item> \<open>DohClient\<close>: \<^verbatim>\<open>doh-client/client.go\<close>, \<^verbatim>\<open>google.go\<close>, \<^verbatim>\<open>ietf.go\<close>, \<^verbatim>\<open>config.go\<close>, \<^verbatim>\<open>main.go\<close>: \<open>client_handlerFunc\<close> is the whole handler,
    from the query of the stub to what is written back, with the HTTP transport that it may renew.
  \<^item> \<open>ClientSession\<close>: the queries that the servers of a client handle, in a row, and the HTTP client that they share.
  \<^item> \<open>ListsUpdater\<close>: \<^verbatim>\<open>lists-updater/main.go\<close>; \<open>process\<close> is a round and \<open>updater_rounds\<close> the loop of \<^verbatim>\<open>main\<close>. The working
    directory is an instance of the interface \<open>file_store\<close>.
  \<^item> \<open>UpdaterMain\<close>: \<^verbatim>\<open>main\<close> of \<^verbatim>\<open>lists-updater/main.go\<close> with its lock (the vendored \<^verbatim>\<open>gofrs/flock\<close>), and several updaters in one
    directory as the step relation \<open>updaters_run\<close>, whose steps are the calls that \<^verbatim>\<open>process\<close> makes.
  \<^item> \<open>Composition\<close>: requests of the client as the server's HTTP library presents them, replies of the server as
    the client's library returns them, and the directory of the updater as the server reads it.
  \<^item> \<open>JsonComposition\<close>: the same for a query and its reply in JSON format.
  \<^item> \<open>SampleClient\<close>: \<^verbatim>\<open>sample-client/main.go\<close>.
  \<^item> This theory holds the properties that span components.

  \<^bold>\<open>What is shown\<close>

  Filtering: reading the lists restricts exactly the names that they say, also while
  reloads interleave with requests; the newest version of a list is taken. The updater never changes a published list,
  publishes complete lists, keeps the newest versions and survives failures; of several updaters one
  works at a time, and their calls never mix. Together:
  a host of a phishing feed is restricted after a round and a reload.

  Resolving: the server's handler never panics and always answers, a query in wire format is forwarded
  and answered under its own id, upstreams are tried as configured; the client gives every
  query exactly one reply, apart from three cases in which it is silent, hands records on with what is left of their time to live, connects as configured and renews its HTTP client no more often than the timeout allows. Together: a query through client and server comes back as the filtered
  answer, in wire format and in JSON format, and the requests of the sample client are understood as they
  are meant.

  Conversion: messages survive JSON with aged times to live, as do response codes and client
  subnets.

  Privacy: of the address of a client, which has to be global, upstreams learn a prefix and nothing more, through the server and through the
  client; the log holds the names of the requests in their order and nothing of a request
  that asks not to be tracked; the tracker loses nothing and its memory is bounded.

  Faults of the code that are proved: the start panics on an update endpoint without a path; subnets are sent
  although they are switched off; of long lines of a list only the tail counts; a stale tail of a list
  file is published; a verbose server prints requests that ask not to be tracked; reserved record types are refused; an expired record keeps its time to live; a negative number of
  versions to keep makes the updater panic.

  \<^bold>\<open>Environment\<close>

  What the program calls outside the repository is a parameter: Unicode tables, time layouts, IDNA, the clock,
  random numbers, sockets and HTTP exchanges, JSON encoding, the TOML and CSV decoders, packing of whole DNS
  messages and the zone-text parser. The hypotheses about these parameters are
  named: \<open>rand_ok\<close> and \<open>client_rand_ok\<close> (\<^verbatim>\<open>rand.Intn\<close> stays below its bound), \<open>unpack_typed\<close> and \<open>upstream_typed\<close> (the DNS
  library gives OPT records and subnet options their Go types, and a response where it gives no
  error), \<open>reads_back\<close> (the zone parser reads what the library prints), \<open>wire_Msg\<close> (a packed message unpacks to itself, up to what the wire does not keep), \<open>clocks_ok\<close> (the clock does not
  run backwards and the HTTP/2 transport can be configured), \<open>tc_size\<close> (the TC bit does not change the size of a packed message), \<open>quiet\<close> (no operation of the file system fails). Every property with a hypothesis is
  followed by an instance that meets it.

  \<^bold>\<open>Integers, loops and bounds\<close>

  Machine integers are words, or integers with the wrap-around written out (\<open>int_add\<close>, \<open>int_sub\<close>). Every
  loop is a total function: loops over data recurse on it, the loop over upstreams recurses on the number of tries,
  \<open>parseList_loop\<close> and \<open>scan_lines\<close> recurse on the unread input. There is no fuel. The one loop that never ends, that of the
  updater, is given by the sequence of its rounds and, in \<open>UpdaterMain\<close>, by the steps of its calls.

  \<^bold>\<open>Not modelled\<close>

  Lines of the package \<^verbatim>\<open>log\<close> are left out: no other part of the program reads them. So is the access log of \<^verbatim>\<open>gorilla/handlers\<close>
  that a verbose server wraps around its handler; what the program itself prints when it is verbose is modelled.

  The vendored packages are part of the repository, but not of the program's own logic. They are left out by choice
  of scope, apart from the parts of \<^verbatim>\<open>miekg/dns\<close> in \<open>DnsMsg\<close> and of \<^verbatim>\<open>gofrs/flock\<close> in \<open>UpdaterMain\<close>: the properties rest on the named
  hypotheses about them, which are not derived from their code. This holds for the packing of whole messages, the
  zone parser, the TOML and CSV decoders, IDNA, HTTP/2 and QUIC; TLS and sockets belong to the standard library and the
  system.

  The fields that an HTTP library adds to a request by itself have no influence on the handlers and are left out.
  The Swift wrapper, service units and packaging scripts hold no logic of the resolver.
\<close>

section \<open>Properties that span components\<close>

text \<open>C1: A domain of a phishing feed reaches the filter: after a round of the updater and a reload by the server, the
  host is restricted for every request unless the whitelist of the round holds it; a host on the whitelist
  is restricted only as an advertiser.\<close>

theorem phishing_host_filtered:
  assumes "quiet env" and "majestic1MFetch env = Inr ws" and "phishTankFetch env = Inr ps"
    and "numbers_fit ''whitelist'' d" and "numbers_fit ''blacklist'' d" and "distinct (dir_names d)"
    and "length d + 4 < 2 ^ 63" and "1 \<le> keep" and "keep < 2 ^ 63"
    and "map_of d ''whitelist.new.txt'' = None" and "map_of d ''blacklist.new.txt'' = None"
    and "list_all plain_name (dir_names d)" and "conf_ListsDirectory (srv_conf s) = path" and "path \<noteq> []"
    and "list_all short_line (ws @ ps @ open_phish env)"
    and "h \<in> set ps \<union> set (open_phish env)" and "list_all host_char h" and "h \<noteq> []"
  shows "\<exists>d'. process env keep url d = Ret (notify env url, d') \<and>
    (let s' = snd (readLists lib (osfs_of path d') s) in
     if listed lib ws (strings_ToLower lib (Fqdn h))
     then isRestricted lib s' h cats \<longrightarrow> cats AND CategoryAds \<noteq> 0
     else isRestricted lib s' h cats)"
proof -
  let ?n = "strings_ToLower lib (Fqdn h)"
  obtain d' where p: "process env keep url d = Ret (notify env url, d')"
    and w: "newest ''whitelist'' (numbered ''whitelist'' (next_number ''whitelist'' d)) (file_of_lines ws) d'"
    and b: "newest ''blacklist'' (numbered ''blacklist'' (next_number ''blacklist'' d)) (file_of_lines (blacklist_lines env ps)) d'"
    using process_quiet [OF assms(1-11), of url] by blast
  have bl: "set (blacklist_lines env ps) = set ps \<union> set (open_phish env)" using blacklist_lines_spec by blast
  have short: "list_all short_line ws" "list_all short_line (blacklist_lines env ps)"
    using assms(15) by (auto simp: list_all_iff bl)
  have l: "listed lib (blacklist_lines env ps) ?n" using assms(16-18) bl by (intro listed_host) auto
  note r = readLists_published [OF w b process_plain [OF p assms(12)] assms(13,14) short, of lib]
  from p l r show ?thesis by (auto simp: isRestricted_iff Let_def)
qed

theorem phishing_host_filtered_witness:
  "\<exists>d'. process example_upd_env 3 [] example_dir = Ret (None, d') \<and>
     isRestricted plain_golib (snd (readLists plain_golib (osfs_of ''/l'' d') (NewServer example_config))) ''evil.example'' 0"
proof -
  have op: "open_phish example_upd_env = [''evil.example'']"
  proof -
    have "scan_lines None (file_of_lines [''http://evil.example/login'']) = ([''http://evil.example/login''], None)"
      using scan_lines_file [of "[''http://evil.example/login'']" None] by (simp add: maxTokenSize_def strip_CR_def)
    then show ?thesis by (simp add: open_phish_def openPhishFetch_def example_upd_env_def example_domains)
  qed
  have "\<not> listed plain_golib [''good.example''] (strings_ToLower plain_golib (Fqdn ''evil.example''))" by code_simp
  moreover have "length example_dir + 4 < 2 ^ 63" "list_all plain_name (dir_names example_dir)"
    by (simp_all add: example_dir_def dir_names_def plain_name_def)
  ultimately show ?thesis
    using phishing_host_filtered [OF example_quiet example_fetch example_fit example_dir_shape(1), of 3 "NewServer example_config"
        "''/l''" "''evil.example''" "[]" plain_golib 0] example_dir_shape op
    by (auto simp: NewServer_def example_config_def short_line_def bufsize_def host_char_def is_alnum_def notify_def)
qed

text \<open>C2: A query from end to end in wire format. A client whose only upstream is this server hands the DNS
  client behind it one packet: the first answer of the server's resolver without the records whose owner
  is restricted, without its authority section and its AA bit, under the message id of the query. Over UDP a
  packet longer than the buffer of the DNS client is cut to it and has the TC bit set. The message is that answer up to the wire
  form: of the DNS library it is asked that the messages of the exchange pack, and that each unpacks to
  itself up to the wire form.\<close>

theorem wire_query_end_to_end:
  assumes "cc_UpstreamGoogle (cl_conf c) = []" "cc_UpstreamIETF (cl_conf c) = [up]" "CHR ''?'' \<notin> set up"
    and "client_rand_ok cenv" "ce_Do cenv = served_by env s remote"
    and "\<not> msg_Response r" "msg_Question r = [q]" "msg_Opcode r = 0" "q_Name q \<noteq> ''.''"
    and "client_add_subnet cenv (cl_conf c) r = Ret (r1, sz, a, n)"
    and "ce_Pack cenv (r1\<lparr>msg_Id := 0\<rparr>) = Inr bin" "bin \<noteq> []" "bin \<noteq> dnscrypt_probe"
      "ce_NewRequest cenv (ho_URL (ietf_request up bin)) = None"
    and "env_Unpack env bin = Inr r2" "wire_Msg (r1\<lparr>msg_Id := 0\<rparr>) r2"
    and "add_client_subnet env (deliver remote (ietf_request up bin)) (r2\<lparr>msg_Id := env_Id env\<rparr>) = Ret (fwd, t)"
    and "exchange env (srv_conf s) 0 fwd (try_upstream env (srv_conf s) 0) = (Some ans, None)" "msg_typed ans"
    and "rand_ok env" "config_ok (srv_conf s)"
    and "env_Pack env ((filtered (env_lib env) s 0 ans)\<lparr>msg_Id := 0\<rparr>) = Inr wire"
    and "ce_Unpack cenv wire = Inr m" "wire_Msg ((filtered (env_lib env) s 0 ans)\<lparr>msg_Id := 0\<rparr>) m"
      "packs cenv (m\<lparr>msg_Id := msg_Id r\<rparr>)"
  shows "\<exists>p reply. client_handlerFunc cenv c r isTCP = Ret ([WriteRaw p], c) \<and> sent_packet cenv isTCP sz reply p \<and>
    wire_Msg ((filtered (env_lib env) s 0 ans)\<lparr>msg_Id := msg_Id r\<rparr>) reply"
  using assms by (rule query_over_wire)

text \<open>
  An exchange: the client, with subnets switched off, asks for \<^verbatim>\<open>a.example.\<close>; the answer has a record for a restricted
  name, which is dropped. The codec writes the id, the number of answers and the subnet options, and reads back a query with a subnet
  option in wire form or a reply with one answer.
\<close>

definition wire_pack :: "Msg \<Rightarrow> bytes" where
  "wire_pack m = PutUint16 (msg_Id m) @ [of_nat (length (msg_Answer m))]
     @ concat (map (\<lambda>s. case subnet_pack s of Inr b \<Rightarrow> b | Inl _ \<Rightarrow> []) (msg_subnets m))"

definition wire_reply :: Msg where
  "wire_reply = example_query\<lparr>msg_Id := 7, msg_Response := True, msg_Answer :=
     [example_RR, set_Header (Header example_RR\<lparr>hdr_Name := ''ads.example.''\<rparr>) example_RR]\<rparr>"

definition wire_unpack :: "bytes \<Rightarrow> string + Msg" where
  "wire_unpack b =
     (if length b < 3 then Inl ''dns: overflow unpacking''
      else if b ! 2 = 1 then Inr (wire_reply\<lparr>msg_Id := BE_Uint16 (b ! 0) (b ! 1), msg_Answer := [example_RR]\<rparr>)
      else case subnet_unpack (drop 3 b) of
             Inl e \<Rightarrow> Inl e
           | Inr s \<Rightarrow> Inr (example_query\<lparr>msg_Id := BE_Uint16 (b ! 0) (b ! 1),
               msg_Extra := [RR_OPT (client_new_OPT\<lparr>hdr_Rdlength := of_nat (length b + 1)\<rparr>) [Opt_SUBNET s]]\<rparr>))"

definition wire_server :: Server where
  "wire_server = (NewServer example_config)\<lparr>srv_blacklist := [''ads.example.'' \<mapsto> True]\<rparr>"

text \<open>The query that the client makes, and what the server unpacks.\<close>

definition no_ecs_query :: Msg where
  "no_ecs_query = example_query\<lparr>msg_Extra := [RR_OPT client_new_OPT [Opt_SUBNET \<lparr>sub_Code = EDNS0SUBNET, sub_Family = 1,
     sub_SourceNetmask = 24, sub_SourceScope = 0, sub_Address = Some [0, 0, 0, 0]\<rparr>]]\<rparr>"

definition no_ecs_wire :: Msg where
  "no_ecs_wire = example_query\<lparr>msg_Id := 0, msg_Extra := [RR_OPT (client_new_OPT\<lparr>hdr_Rdlength := 11\<rparr>)
     [Opt_SUBNET \<lparr>sub_Code = 0, sub_Family = 1, sub_SourceNetmask = 24, sub_SourceScope = 0,
        sub_Address = Some (net_IPv4 0 0 0 0)\<rparr>]]\<rparr>"

definition wire_server_env :: server_env where
  "wire_server_env = example_env\<lparr>env_Unpack := wire_unpack,
     env_udp := (\<lambda>_ _ _. (Some wire_reply, None)), env_Pack := (\<lambda>m. Inr (wire_pack m))\<rparr>"

definition wire_client_env :: client_env where
  "wire_client_env = example_client_env\<lparr>ce_Unpack := wire_unpack,
     ce_Pack := (\<lambda>m. Inr (wire_pack m)), ce_Do := served_by wire_server_env wire_server ''192.0.2.1:9''\<rparr>"

definition wire_client :: Client where
  "wire_client = \<lparr>cl_conf = example_client_config\<lparr>cc_NoECS := True, cc_UpstreamIETF := [''https://dns.example/dns-query'']\<rparr>,
     cl_bootstrap = [], cl_udpServers = [], cl_tcpServers = [], cl_bootstrapResolver = DefaultResolver, cl_cookieJar = False,
     cl_httpTransport = None, cl_httpClient = None, cl_httpClientLastCreate = None, cl_idleClosed = []\<rparr>"

lemma wire_filtered: "filtered plain_golib wire_server 0 wire_reply = wire_reply\<lparr>msg_Answer := [example_RR]\<rparr>"
  by (simp add: filtered_def wire_reply_def example_query_def new_Msg_def isRestricted_iff wire_server_def NewServer_def
      example_RR_def lookup_bool_def plain_golib_def strings_ToLower_def Fqdn_def IsFqdn_def is_ascii_def lower_char_def CategoryAds_def)

lemma zero_subnet_packed:
  "subnet_pack \<lparr>sub_Code = EDNS0SUBNET, sub_Family = 1, sub_SourceNetmask = 24, sub_SourceScope = 0, sub_Address = Some [0, 0, 0, 0]\<rparr>
     = Inr [0, 1, 24, 0, 0, 0, 0]"
  "subnet_unpack [0, 1, 24, 0, 0, 0, 0] = Inr \<lparr>sub_Code = 0, sub_Family = 1, sub_SourceNetmask = 24, sub_SourceScope = 0,
     sub_Address = Some (net_IPv4 0 0 0 0)\<rparr>"
  "subnet_norm \<lparr>sub_Code = EDNS0SUBNET, sub_Family = 1, sub_SourceNetmask = 24, sub_SourceScope = 0, sub_Address = Some [0, 0, 0, 0]\<rparr>
     = \<lparr>sub_Code = 0, sub_Family = 1, sub_SourceNetmask = 24, sub_SourceScope = 0, sub_Address = Some (net_IPv4 0 0 0 0)\<rparr>"
  by code_simp+

lemma wire_codec_query:
  "wire_pack (no_ecs_query\<lparr>msg_Id := 0\<rparr>) = [0, 0, 0, 0, 1, 24, 0, 0, 0, 0]" "wire_unpack [0, 0, 0, 0, 1, 24, 0, 0, 0, 0] = Inr no_ecs_wire"
  "wire_Msg (no_ecs_query\<lparr>msg_Id := 0\<rparr>) no_ecs_wire"
  using zero_subnet_packed
  by (simp_all add: wire_pack_def wire_unpack_def no_ecs_query_def no_ecs_wire_def example_query_def new_Msg_def PutUint16_def BE_Uint16_def
      wire_Msg_def) blast

lemma wire_codec_reply:
  "wire_pack (wire_reply\<lparr>msg_Id := 0, msg_Answer := [example_RR]\<rparr>) = [0, 0, 1]"
  "wire_unpack [0, 0, 1] = Inr (wire_reply\<lparr>msg_Id := 0, msg_Answer := [example_RR]\<rparr>)"
  "wire_Msg (wire_reply\<lparr>msg_Id := 0, msg_Answer := [example_RR]\<rparr>) (wire_reply\<lparr>msg_Id := 0, msg_Answer := [example_RR]\<rparr>)"
proof -
  show "wire_pack (wire_reply\<lparr>msg_Id := 0, msg_Answer := [example_RR]\<rparr>) = [0, 0, 1]"
    by (simp add: wire_pack_def wire_reply_def example_query_def new_Msg_def PutUint16_def)
  show "wire_unpack [0, 0, 1] = Inr (wire_reply\<lparr>msg_Id := 0, msg_Answer := [example_RR]\<rparr>)"
    by (simp add: wire_unpack_def BE_Uint16_def)
  have "wire_RR example_RR example_RR" by (auto simp: example_RR_def)
  then show "wire_Msg (wire_reply\<lparr>msg_Id := 0, msg_Answer := [example_RR]\<rparr>) (wire_reply\<lparr>msg_Id := 0, msg_Answer := [example_RR]\<rparr>)"
    by (simp add: wire_Msg_def wire_reply_def example_query_def new_Msg_def)
qed

lemma wire_pack_TC [simp]: "wire_pack (m\<lparr>msg_Truncated := True\<rparr>) = wire_pack m"
  by (simp add: wire_pack_def)

theorem wire_query_end_to_end_witness:
  "client_handlerFunc wire_client_env wire_client example_query False = Ret ([WriteRaw [0, 5, 1]], wire_client)"
proof -
  let ?up = "''https://dns.example/dns-query''" and ?bin = "[0, 0, 0, 0, 1, 24, 0, 0, 0, 0] :: bytes"
  let ?m = "wire_reply\<lparr>msg_Id := 0, msg_Answer := [example_RR]\<rparr>"
  have conf: "cc_UpstreamGoogle (cl_conf wire_client) = []" "cc_UpstreamIETF (cl_conf wire_client) = [?up]" "CHR ''?'' \<notin> set ?up"
    by (simp_all add: wire_client_def example_client_config_def)
  have cenv: "client_rand_ok wire_client_env" "ce_Do wire_client_env = served_by wire_server_env wire_server ''192.0.2.1:9''"
    by (simp_all add: client_rand_ok_def wire_client_env_def example_client_env_def)
  have r: "\<not> msg_Response example_query" "msg_Question example_query = [\<lparr>q_Name = ''a.example.'', q_Qtype = 1, q_Qclass = 1\<rparr>]"
    "msg_Opcode example_query = 0" "q_Name \<lparr>q_Name = ''a.example.'', q_Qtype = 1, q_Qclass = 1\<rparr> \<noteq> ''.''"
    by (simp_all add: example_query_def new_Msg_def)
  have sub: "client_add_subnet wire_client_env (cl_conf wire_client) example_query =
      Ret (no_ecs_query, 512, Some [0, 0, 0, 0], 24)"
    by (simp add: client_add_subnet_def client_findClientIP_def IsEdns0_def wire_client_def example_query_def new_Msg_def no_ecs_query_def)
  have bin: "ce_Pack wire_client_env (no_ecs_query\<lparr>msg_Id := 0\<rparr>) = Inr ?bin" "?bin \<noteq> []" "?bin \<noteq> dnscrypt_probe"
    "ce_NewRequest wire_client_env (ho_URL (ietf_request ?up ?bin)) = None" "env_Unpack wire_server_env ?bin = Inr no_ecs_wire"
    by (simp_all add: wire_client_env_def wire_server_env_def wire_codec_query dnscrypt_probe_def example_client_env_def)
  have fwd: "add_client_subnet wire_server_env (deliver ''192.0.2.1:9'' (ietf_request ?up ?bin))
      (no_ecs_wire\<lparr>msg_Id := env_Id wire_server_env\<rparr>) = Ret (no_ecs_wire\<lparr>msg_Id := 7\<rparr>, False)"
    by (simp add: add_client_subnet_def IsEdns0_def no_ecs_wire_def client_new_OPT_def wire_server_env_def example_env_def)
  have x: "exchange wire_server_env (srv_conf wire_server) 0 (no_ecs_wire\<lparr>msg_Id := 7\<rparr>)
      (try_upstream wire_server_env (srv_conf wire_server) 0) = (Some wire_reply, None)" "msg_typed wire_reply"
    by (simp add: exchange_def wire_server_env_def example_env_def wire_server_def NewServer_def example_config_def Let_def)
      (simp add: msg_typed_def wire_reply_def example_query_def new_Msg_def example_RR_def)
  have env: "rand_ok wire_server_env" "config_ok (srv_conf wire_server)"
    using example_env_ok example_config_ok by (simp_all add: env_ok_def rand_ok_def wire_server_env_def wire_server_def NewServer_def)
  have f: "(filtered (env_lib wire_server_env) wire_server 0 wire_reply)\<lparr>msg_Id := i\<rparr> = wire_reply\<lparr>msg_Id := i, msg_Answer := [example_RR]\<rparr>" for i
    using wire_filtered by (simp add: wire_server_env_def example_env_def)
  have ret: "env_Pack wire_server_env ?m = Inr [0, 0, 1]" "ce_Unpack wire_client_env [0, 0, 1] = Inr ?m" "packs wire_client_env (?m\<lparr>msg_Id := 5\<rparr>)"
    by (simp_all add: packs_def wire_server_env_def wire_client_env_def wire_codec_reply)
  obtain p reply where p: "client_handlerFunc wire_client_env wire_client example_query False = Ret ([WriteRaw p], wire_client)"
      "sent_packet wire_client_env False 512 reply p" "wire_Msg (wire_reply\<lparr>msg_Id := 5, msg_Answer := [example_RR]\<rparr>) reply"
    using wire_query_end_to_end [OF conf cenv r sub bin wire_codec_query(3) fwd x env _ ret(2), unfolded f, OF ret(1) wire_codec_reply(3), where isTCP = False]
      ret(3) by (auto simp: example_query_def)
  have "msg_Id reply = 5" "length (msg_Answer reply) = 1" "msg_subnets reply = []"
    using wire_Msg_head [OF p(3)] p(3) by (auto simp: wire_Msg_def wire_reply_def example_query_def new_Msg_def list_all2_Cons1)
  then have "wire_pack reply = [0, 5, 1]" by (simp add: wire_pack_def PutUint16_def)
  then have "p = [0, 5, 1]" using p(2) by (simp add: sent_packet_def wire_client_env_def)
  with p(1) show ?thesis by simp
qed

text \<open>C3: A query from end to end in JSON format. A client whose only upstream is this server hands the DNS client
  behind it one packet: the first answer of the server's resolver without the records whose owner is
  restricted, each record with the time that is left of its TTL, behind a fresh OPT record, under the
  message id and with the question of the query. Over UDP a packet longer than the buffer of the DNS client
  is cut to it and has the TC bit set.\<close>

theorem json_query_end_to_end:
  assumes conf: "cc_UpstreamGoogle (cl_conf c) = [up]" "cc_UpstreamIETF (cl_conf c) = []"
    and cenv: "client_rand_ok cenv" "ce_Do cenv = served_by env s remote" "ce_time cenv = env_time env"
    and r: "\<not> msg_Response r" "msg_Question r = [q]" "IsEdns0 r = Ret opt" "client_findClientIP cenv (cl_conf c) r = Ret am"
      "ce_NewRequest cenv (google_URL up q (msg_CheckingDisabled r) am) = None"
    and req: "CHR ''?'' \<notin> set up" "ip_or_none (fst am)" "q_Name q \<noteq> []" "q_Name q \<noteq> ''.''"
      "env_ToASCII env (q_Name q) = Inr (q_Name q)" "q_Qtype q \<noteq> 0" "q_Qtype q \<noteq> 65535"
    and fwd: "rq_request (parseRequestGoogle env (deliver remote (google_request up q (msg_CheckingDisabled r) am))) = Some fwd"
    and x: "exchange env (srv_conf s) 0 fwd (try_upstream env (srv_conf s) 0) = (Some ans, None)" "msg_typed ans"
    and env: "rand_ok env" "config_ok (srv_conf s)" "rfc1123_ok (env_time env)" "clock_ok (env_clock env 0)"
    and rb: "list_all (reads_back (ce_NewRR cenv)) (ttl_records (filtered (env_lib env) s 0 ans))"
    and js: "Marshal (env_time env) (env_opt_text env) (env_clock env 0) (filtered (env_lib env) s 0 ans) = Ret js"
      "env_json_Response env js = Inr body" "ce_json cenv body = Inr js'" "json_same js js'"
    and reply: "reply = Unmarshal (ce_lib cenv) (ce_time cenv) (ce_NewRR cenv) (ce_clock cenv 0) (PrepareReply r) js (stub_size r) (snd am)"
      "packs cenv reply"
  shows "\<exists>p. client_handlerFunc cenv c r isTCP = Ret ([WriteRaw p], c) \<and> sent_packet cenv isTCP (stub_size r) reply p \<and>
    (let m = filtered (env_lib env) s 0 ans; age = age_RR (env_clock env 0) (ce_clock cenv 0) in
     msg_Answer reply = map age (msg_Answer m) \<and> msg_Ns reply = [] \<and>
     (\<exists>h os. msg_Extra reply = RR_OPT h os # map age (filter not_OPT (msg_Extra m))) \<and>
     msg_Id reply = msg_Id r \<and> msg_Question reply = msg_Question r \<and> msg_Response reply)"
proof -
  have "msg_Ns (filtered (env_lib env) s 0 ans) = []" by (simp add: filtered_def)
  then show ?thesis
    using query_over_json [OF conf cenv(1,2) r req fwd x(1) env(1,2) js reply, of isTCP]
      unmarshal_marshal [OF filtered_typed [OF x(2), of "env_lib env" s 0] rb env(3,4) js(1), of "ce_lib cenv" "ce_clock cenv 0" r
        "stub_size r" "snd am"] cenv(3) reply(1)
    by (auto simp: Let_def)
qed

definition json_server_env :: server_env where
  "json_server_env = wire_server_env\<lparr>env_json_Response := (\<lambda>_. Inr [1])\<rparr>"

definition json_reply :: Response where
  "json_reply = (case Marshal decimal_timelib (\<lambda>_. []) 0 (filtered plain_golib wire_server 0 wire_reply) of
     Ret js \<Rightarrow> js | Panic _ \<Rightarrow> new_Response)"

definition json_client_env :: client_env where
  "json_client_env = wire_client_env\<lparr>ce_json := (\<lambda>b. if b = [1] then Inr json_reply else Inl ''bad JSON''), ce_clock := (\<lambda>_. 100 * Second),
     ce_Do := served_by json_server_env wire_server ''192.0.2.1:9''\<rparr>"

definition json_client :: Client where
  "json_client = wire_client\<lparr>cl_conf := example_client_config\<lparr>cc_NoECS := True, cc_UpstreamGoogle := [''https://dns.example/resolve'']\<rparr>\<rparr>"

lemma json_example_sel:
  "env_lib json_server_env = plain_golib" "env_time json_server_env = decimal_timelib" "env_opt_text json_server_env = (\<lambda>_. [])"
  "env_clock json_server_env = (\<lambda>_. 0)" "ce_NewRR json_client_env = five_field_RR" "ce_clock json_client_env = (\<lambda>_. 100 * Second)"
  by (simp_all add: json_server_env_def wire_server_env_def example_env_def json_client_env_def wire_client_env_def example_client_env_def)

lemma json_example_client:
  "client_rand_ok json_client_env"
  "ce_Do json_client_env = served_by json_server_env wire_server ''192.0.2.1:9''" "ce_time json_client_env = env_time json_server_env"
  by (simp_all add: client_rand_ok_def json_client_env_def wire_client_env_def example_client_env_def json_example_sel)

lemma json_example_server:
  "rand_ok json_server_env" "config_ok (srv_conf wire_server)" "rfc1123_ok (env_time json_server_env)"
  "clock_ok (env_clock json_server_env 0)"
  using example_env_ok example_config_ok decimal_rfc1123_ok
  by (simp_all add: json_example_sel) (simp_all add: env_ok_def rand_ok_def json_server_env_def wire_server_env_def wire_server_def NewServer_def
      clock_ok_def layout_range_def Second_def)

theorem json_query_end_to_end_witness:
  "\<exists>reply p. client_handlerFunc json_client_env json_client example_query False = Ret ([WriteRaw p], json_client) \<and>
     sent_packet json_client_env False 512 reply p \<and> msg_Answer reply = [age_RR 0 (100 * Second) example_RR] \<and> msg_Id reply = 5"
proof -
  let ?q = "\<lparr>q_Name = ''a.example.'', q_Qtype = 1, q_Qclass = 1\<rparr>"
  let ?am = "(Some (net_IPv4 0 0 0 0), 0) :: net_IP \<times> u8"
  let ?r = "deliver ''192.0.2.1:9'' (google_request ''https://dns.example/resolve'' ?q False ?am)"
  have v4: "ip_or_none (fst ?am)" by (simp add: ip_or_none_def ip_bytes_def net_IPv4_def)
  have "r_Form ?r k = FormValue (url_query (google_URL ''https://dns.example/resolve'' ?q False ?am)) k" for k
    by (simp add: google_request_def)
  from google_request_parsed [of "''https://dns.example/resolve''" ?am ?q json_server_env ?r False, OF _ v4 _ _ _ _ this]
  obtain fwd where fwd: "rq_request (parseRequestGoogle json_server_env ?r) = Some fwd"
    by (auto simp: json_server_env_def wire_server_env_def example_env_def)
  have typed: "msg_typed wire_reply" by (simp add: msg_typed_def wire_reply_def example_query_def new_Msg_def example_RR_def)
  obtain js where mj: "Marshal decimal_timelib (\<lambda>_. []) 0 (filtered plain_golib wire_server 0 wire_reply) = Ret js"
    using Marshal_typed [OF filtered_typed [OF typed]] by blast
  have conf: "cc_UpstreamGoogle (cl_conf json_client) = [''https://dns.example/resolve'']" "cc_UpstreamIETF (cl_conf json_client) = []"
    by (simp_all add: json_client_def example_client_config_def)
  have r: "\<not> msg_Response example_query" "msg_Question example_query = [?q]" "IsEdns0 example_query = Ret None"
    "client_findClientIP json_client_env (cl_conf json_client) example_query = Ret ?am"
    "ce_NewRequest json_client_env (google_URL ''https://dns.example/resolve'' ?q (msg_CheckingDisabled example_query) ?am) = None"
    by (simp_all add: IsEdns0_def example_query_def new_Msg_def client_findClientIP_def json_client_def json_client_env_def
        wire_client_env_def example_client_env_def)
  have req: "CHR ''?'' \<notin> set ''https://dns.example/resolve''" "ip_or_none (fst ?am)" "q_Name ?q \<noteq> []" "q_Name ?q \<noteq> ''.''"
    "env_ToASCII json_server_env (q_Name ?q) = Inr (q_Name ?q)" "q_Qtype ?q \<noteq> 0" "q_Qtype ?q \<noteq> 65535"
    using v4 by (simp_all add: json_server_env_def wire_server_env_def example_env_def)
  have fwd': "rq_request (parseRequestGoogle json_server_env (deliver ''192.0.2.1:9''
      (google_request ''https://dns.example/resolve'' ?q (msg_CheckingDisabled example_query) ?am))) = Some fwd"
    using fwd by (simp add: example_query_def new_Msg_def)
  have x: "exchange json_server_env (srv_conf wire_server) 0 fwd (try_upstream json_server_env (srv_conf wire_server) 0) = (Some wire_reply, None)"
    by (simp add: exchange_def json_server_env_def wire_server_env_def example_env_def wire_server_def NewServer_def example_config_def Let_def)
  have rb: "list_all (reads_back (ce_NewRR json_client_env)) (ttl_records (filtered (env_lib json_server_env) wire_server 0 wire_reply))"
    by (simp add: json_example_sel wire_filtered ttl_records_def example_RR_back) (simp add: wire_reply_def example_query_def new_Msg_def)
  have js: "Marshal (env_time json_server_env) (env_opt_text json_server_env) (env_clock json_server_env 0)
      (filtered (env_lib json_server_env) wire_server 0 wire_reply) = Ret js"
    "env_json_Response json_server_env js = Inr [1]" "ce_json json_client_env [1] = Inr js" "json_same js js"
    using mj by (simp_all add: json_example_sel json_same_def) (simp_all add: json_server_env_def json_client_env_def json_reply_def)
  have "msg_Answer (filtered (env_lib json_server_env) wire_server 0 wire_reply) = [example_RR]" "msg_Id example_query = 5"
    by (simp_all add: json_example_sel wire_filtered example_query_def)
  moreover have "packs json_client_env m" "stub_size example_query = 512" for m
    by (simp_all add: packs_def json_client_env_def wire_client_env_def stub_size_def IsEdns0_def example_query_def new_Msg_def)
  ultimately show ?thesis
    using json_query_end_to_end [OF conf json_example_client r req fwd' x typed json_example_server rb js refl, of False]
    by (auto simp: Let_def json_example_sel)
qed

text \<open>C17: The server understands what the client asks in JSON format: whichever upstream is chosen, the request that the client
  sends is taken for JSON and accepted, and the message for the resolver has the name and type of the stub's question (in
  the Internet class, the name made fully qualified), its CD bit and the DO bit, and one OPT record with the client
  subnet that the client chose, IPv4 or IPv6, or if it chose none with that of the address that the server finds. The two
  reserved record types 0 and 65535 are the exception: the server refuses them.\<close>

theorem json_request_understood:
  fixes remote :: string
  assumes "client_rand_ok cenv" and "cc_UpstreamGoogle (cl_conf c) \<noteq> []" and "\<forall>u\<in>set (cc_UpstreamGoogle (cl_conf c)). CHR ''?'' \<notin> set u"
    and "\<forall>u\<in>set (cc_UpstreamGoogle (cl_conf c)). ce_NewRequest cenv (google_URL u q (msg_CheckingDisabled r) am) = None" and "msg_Question r = [q]" and "IsEdns0 r = Ret opt"
    and "client_findClientIP cenv (cl_conf c) r = Ret am" and "ip_or_none (fst am)" and "q_Name q \<noteq> []"
    and "env_ToASCII env (q_Name q) = Inr (q_Name q)"
  shows "\<exists>out mk. generateRequestGoogle cenv c r = send_request cenv c out (PrepareReply r) mk \<and>
    (let hr = deliver remote out; req = parseRequestGoogle env hr in
     request_type hr = ''application/dns-json'' \<and> response_type hr = ''application/json'' \<and>
     (if q_Qtype q = 0 \<or> q_Qtype q = 65535 then rq_errcode req = 400
      else rq_errcode req = 0 \<and>
        (\<exists>m. rq_request req = Some m \<and>
           msg_Question m = [\<lparr>q_Name = Fqdn (q_Name q), q_Qtype = q_Qtype q, q_Qclass = ClassINET\<rparr>] \<and>
           msg_CheckingDisabled m = msg_CheckingDisabled r \<and>
           msg_Extra m = [RR_OPT (new_OPT True)
             (case fst am of
                Some a \<Rightarrow> [new_subnet (if To4 a = None then 2 else 1, short_ip a, snd am)]
              | None \<Rightarrow> (case findClientIP env hr of Some ip \<Rightarrow> [new_subnet (family_of ip)] | None \<Rightarrow> []))])))"
proof -
  obtain up where up: "up \<in> set (cc_UpstreamGoogle (cl_conf c))" "pick cenv 1 (cc_UpstreamGoogle (cl_conf c)) = Ret up"
    using pick_ok [OF assms(1,2)] by blast
  then have u: "CHR ''?'' \<notin> set up" using assms(3) by blast
  let ?out = "google_request up q (msg_CheckingDisabled r) am"
  let ?hr = "deliver remote ?out"
  obtain mk where g: "generateRequestGoogle cenv c r = send_request cenv c ?out (PrepareReply r) mk"
    using assms(4-7) up by (simp add: generateRequestGoogle_def google_request_def Let_def)
  note t = google_request_types [OF u assms(8), where remote = remote and q = q and cd = "msg_CheckingDisabled r"]
  have form: "r_Form ?hr k = FormValue (url_query (google_URL up q (msg_CheckingDisabled r) am)) k" for k
    by (simp add: google_request_def)
  show ?thesis
  proof (cases "q_Qtype q = 0 \<or> q_Qtype q = 65535")
    case True
    have "rq_errcode (parseRequestGoogle env ?hr) = 400"
      by (rule google_request_refused [OF u assms(8-10) True form])
    with g t True show ?thesis by (auto simp: Let_def)
  next
    case False
    then have n: "q_Qtype q \<noteq> 0" "q_Qtype q \<noteq> 65535" by simp_all
    note parsed = google_request_parsed [OF u assms(8-10) n form]
    from g show ?thesis
      by (intro exI [of _ ?out] exI [of _ mk] conjI) (use parsed t False in \<open>auto simp only: Let_def if_False\<close>)
  qed
qed

definition v6_stub :: bytes where
  "v6_stub = [0x20, 0x01, 0x0d, 0xb8, 0, 0, 0xab, 0xcd] @ replicate 7 0 @ [7]"

definition json_client6 :: Client where
  "json_client6 = wire_client\<lparr>cl_conf := example_client_config\<lparr>cc_UpstreamGoogle := [''https://dns.example/resolve'']\<rparr>\<rparr>"

theorem json_request_understood_witness:
  "\<exists>out mk. generateRequestGoogle (example_client_env\<lparr>ce_RemoteAddr := Inr (Some v6_stub)\<rparr>) json_client6 example_stub_query =
       send_request (example_client_env\<lparr>ce_RemoteAddr := Inr (Some v6_stub)\<rparr>) json_client6 out (PrepareReply example_stub_query) mk \<and>
     (\<exists>m. rq_request (parseRequestGoogle example_env (deliver ''192.0.2.1:9'' out)) = Some m \<and>
        msg_Extra m = [RR_OPT (new_OPT True) [new_subnet (2, [0x20, 0x01, 0x0d, 0xb8, 0, 0, 0xab] @ replicate 9 0, 56)]])"
proof -
  let ?env = "example_client_env\<lparr>ce_RemoteAddr := Inr (Some v6_stub)\<rparr>" and ?c = json_client6
  let ?q = "\<lparr>q_Name = ''a.example.'', q_Qtype = 1, q_Qclass = 1\<rparr>"
  let ?p = "[0x20, 0x01, 0x0d, 0xb8, 0, 0, 0xab] @ replicate 9 0 :: bytes"
  have v6: "IsGlobalIP (Some v6_stub)" "To4 v6_stub = None" "To4 ?p = None" "take 7 v6_stub @ replicate 9 0 = ?p" by code_simp+
  have "disclosed_prefix (Inr (Some v6_stub)) = Some (take 7 v6_stub)" by (simp add: disclosed_prefix_def v6)
  moreover have "length (take 7 v6_stub) = 7" by (simp add: v6_stub_def)
  ultimately have "prefix_subnet (disclosed_prefix (Inr (Some v6_stub))) = (Some ?p, 56)" using v6(4) by (simp add: prefix_subnet_def)
  then have ip: "client_findClientIP ?env (cl_conf ?c) example_stub_query = Ret (Some ?p, 56)"
    by (subst client_findClientIP_prefix) (simp_all add: stub_addr_def ip_bytes_def v6_stub_def IsEdns0_def example_stub_query_def new_Msg_def
        json_client6_def example_client_config_def)
  have "client_rand_ok ?env" "\<And>u. ce_NewRequest ?env u = None" "cc_UpstreamGoogle (cl_conf ?c) = [''https://dns.example/resolve'']"
    "msg_Question example_stub_query = [?q]" "IsEdns0 example_stub_query = Ret None" "ip_or_none (fst (Some ?p, 56 :: u8))"
    "env_ToASCII example_env (q_Name ?q) = Inr (q_Name ?q)"
    by (simp_all add: client_rand_ok_def example_client_env_def json_client6_def example_stub_query_def IsEdns0_def new_Msg_def
        ip_or_none_def ip_bytes_def example_env_def)
  from json_request_understood [of ?env ?c ?q example_stub_query "(Some ?p, 56)" None example_env "''192.0.2.1:9''", OF this(1) _ _ _ this(4,5) ip this(6) _ this(7)]
    this(2,3) v6(3)
  show ?thesis by (fastforce simp: Let_def short_ip_def)
qed

end
